(* ===== verification/Moq_Prelude.thy ===== *)
theory Moq_Prelude
  imports Main "HOL-Library.Word" "HOL-Library.Code_Target_Nat"
begin

text \<open>
  Shared vocabulary of the development: the integer and buffer types of
  \<^verbatim>\<open>include/moq/types.h\<close>, the exceptions the C++ code throws, the
  conversion between \<^verbatim>\<open>std::string\<close> and bytes, the theorem
  collections of the library, and the generic lemmas on words, lists and maps that the
  component theories use.
\<close>

unbundle bit_operations_syntax

section \<open>Types of \<open>include/moq/types.h\<close>\<close>

type_synonym byte = "8 word"
type_synonym u16 = "16 word"
type_synonym u32 = "32 word"
type_synonym u64 = "64 word"
type_synonym ByteBuffer = "byte list"
type_synonym RequestId = u64
type_synonym TrackAlias = u64
type_synonym GroupId = u64
type_synonym SubgroupId = u64
type_synonym ObjectId = u64
type_synonym ObjectStatusCode = u64
type_synonym TrackName = string
type_synonym TrackNamespace = "string list"
type_synonym ObjectProperties = ByteBuffer

text \<open>
  A \<^verbatim>\<open>size_t\<close> that counts bytes of a buffer in memory is a
  \<open>nat\<close>; where the code stores such a count in a \<^verbatim>\<open>uint64_t\<close> the
  model converts with \<open>of_nat\<close>, so the conversion is visible.
\<close>

record Location =
  loc_group :: GroupId
  loc_object :: ObjectId

text \<open>
  The exceptions thrown by the modelled code, with their messages. A function that may throw
  returns \<open>exn + 'a\<close>.
\<close>

datatype exn =
    invalid_argument string
  | length_error string
  | out_of_range string
  | overflow_error string
  | runtime_error string
  | future_error

section \<open>Theorem collections\<close>

named_theorems wire_simps \<open>equations of the writers, as appends to their output buffer\<close>
named_theorems reader_simps \<open>equations of the readers on a cursor that stands on encoded bytes\<close>
named_theorems inv_intros \<open>preservation of component invariants\<close>

section \<open>Strings as bytes\<close>

definition byte_of_char :: "char \<Rightarrow> byte" where
  "byte_of_char c = word_of_nat (of_char c)"

definition char_of_byte :: "byte \<Rightarrow> char" where
  "char_of_byte b = char_of (unat b)"

definition bytes_of_string :: "string \<Rightarrow> ByteBuffer" where
  "bytes_of_string s = map byte_of_char s"

definition string_of_bytes :: "ByteBuffer \<Rightarrow> string" where
  "string_of_bytes bs = map char_of_byte bs"

lemma char_of_byte_of_char [simp]: "char_of_byte (byte_of_char c) = c"
  using nat_of_char_less_256 [of c]
  by (simp add: char_of_byte_def byte_of_char_def unat_of_nat)

lemma string_of_bytes_of_string [simp]: "string_of_bytes (bytes_of_string s) = s"
  by (simp add: string_of_bytes_def bytes_of_string_def comp_def)

lemma length_bytes_of_string [simp]: "length (bytes_of_string s) = length s"
  by (simp add: bytes_of_string_def)

lemma length_string_of_bytes [simp]: "length (string_of_bytes bs) = length bs"
  by (simp add: string_of_bytes_def)

lemma bytes_of_string_Nil [simp]: "bytes_of_string [] = []"
  by (simp add: bytes_of_string_def)

section \<open>\<open>std::to_string\<close>\<close>

fun to_string :: "nat \<Rightarrow> string" where
  "to_string n = (if n < 10 then [char_of (48 + n)] else to_string (n div 10) @ [char_of (48 + n mod 10)])"

declare to_string.simps [simp del]

section \<open>Words\<close>

text \<open>The bits of the byte masks the codec uses (the simplifier reads a word numeral as an \<open>int\<close>).\<close>

lemma bit_255 [simp]: "bit (255 :: int) j \<longleftrightarrow> j < 8"
proof -
  have "(255 :: int) = mask 8" by (simp add: mask_eq_exp_minus_1)
  then show ?thesis by (simp only: bit_mask_iff) simp
qed

lemma bit_256 [simp]: "bit (256 :: int) j \<longleftrightarrow> j = 8"
proof -
  have "(256 :: int) = 2 ^ 8" by simp
  then show ?thesis by (simp only: bit_exp_iff) auto
qed

lemma le_mask_bit: "v \<le> mask n \<Longrightarrow> bit (v :: u64) i \<Longrightarrow> i < n"
proof (rule ccontr)
  assume v: "v \<le> mask n" and b: "bit v i" and i: "\<not> i < n"
  have "n < 64" using b i by (auto dest: bit_imp_le_length)
  then have "unat (mask n :: u64) = mask n"
    by - (rule bit_eqI, auto simp: bit_simps)
  then have "unat v \<le> 2 ^ n - 1"
    using v by (simp add: word_le_nat_alt mask_eq_exp_minus_1)
  then have "unat v < 2 ^ n"
    by (metis Suc_pred' le_imp_less_Suc zero_less_numeral zero_less_power)
  then have "take_bit n (unat v) = unat v" by (simp add: take_bit_nat_eq_self)
  then have "\<not> bit (unat v) i" using i by (metis bit_take_bit_iff)
  then show False using b by (simp add: bit_unsigned_iff)
qed

lemma bit_drop_ucast: "bit (ucast (drop_bit n v) :: byte) k \<longleftrightarrow> k < 8 \<and> bit (v :: u64) (n + k)"
  by (simp add: bit_simps)

text \<open>\<^verbatim>\<open>std::numeric_limits<uint64_t>::max()\<close>\<close>

abbreviation u64_max :: u64 where
  "u64_max \<equiv> - 1"

lemma unat_u64_bound: "unat (a :: u64) < 2 ^ 64"
  using unsigned_less [where w = a and 'a = nat] by simp

lemma unat_u64_max_minus: "unat (u64_max - b) = 2 ^ 64 - 1 - unat (b :: u64)"
  using word_n1_ge [of b]
  by (simp add: unat_sub unsigned_minus_1_eq_mask mask_eq_exp_minus_1)

lemma u64_max_add: "(a :: u64) \<le> u64_max - b \<longleftrightarrow> unat a + unat b < 2 ^ 64"
  using unat_u64_bound [of b] by (auto simp: word_le_nat_alt unat_u64_max_minus)

lemma u64_diff_le_max_minus: "b \<le> a \<Longrightarrow> a - b \<le> u64_max - (b :: u64)"
  unfolding u64_max_add using unat_u64_bound [of a] by (simp add: unat_sub word_le_nat_alt)

lemma unat_add_no_wrap: "unat a + unat b < 2 ^ 64 \<Longrightarrow> unat (a + b :: u64) = unat a + unat b"
  by (simp add: unat_word_ariths)

lemma unat_of_nat_u64: "n < 2 ^ 64 \<Longrightarrow> unat (word_of_nat n :: u64) = n"
  by (simp add: unat_of_nat)

section \<open>Sums over finite maps\<close>

definition map_sum :: "('v \<Rightarrow> nat) \<Rightarrow> ('k \<rightharpoonup> 'v) \<Rightarrow> nat" where
  "map_sum f m = (\<Sum>k\<in>dom m. f (the (m k)))"

lemma map_sum_remove:
  "finite (dom m) \<Longrightarrow> map_sum f (m(k := None)) + (case m k of None \<Rightarrow> 0 | Some v \<Rightarrow> f v) = map_sum f m"
proof (cases "m k")
  case None
  then have "m(k := None) = m" by auto
  with None show ?thesis by simp
next
  case (Some v)
  assume fin: "finite (dom m)"
  from Some have k: "k \<in> dom m" by auto
  have "(\<Sum>j\<in>dom m - {k}. f (the ((m(k := None)) j))) = (\<Sum>j\<in>dom m - {k}. f (the (m j)))"
    by (rule sum.cong) auto
  with fin k Some show ?thesis
    by (simp add: map_sum_def sum.remove [of "dom m" k])
qed

lemma map_sum_insert:
  "finite (dom m) \<Longrightarrow>
     map_sum f (m(k \<mapsto> v)) + (case m k of None \<Rightarrow> 0 | Some u \<Rightarrow> f u) = map_sum f m + f v"
  using map_sum_remove [of "m(k \<mapsto> v)" f k] map_sum_remove [of m f k] by simp

lemma map_sum_empty [simp]: "map_sum f Map.empty = 0"
  by (simp add: map_sum_def)

lemma map_sum_le: "finite (dom m) \<Longrightarrow> m k = Some v \<Longrightarrow> f v \<le> map_sum f m"
  using map_sum_remove [of m f k] by simp

end
