(* ===== verification/Codec_Varint.thy ===== *)
theory Codec_Varint
  imports Moq_Prelude
begin

text \<open>
  The variable-length integer of \<^verbatim>\<open>src/codec/codec.cpp\<close>:
  \<open>write_varint\<close> and \<open>read_varint\<close>. A value takes one to nine bytes; the number of
  leading one bits of the first byte is the number of bytes that follow.
  The theory shows that the reader returns what the writer wrote wherever it stands in a
  buffer, that it asks for more data on every proper prefix, and that the writer picks the
  shortest length.
\<close>

section \<open>Results\<close>

datatype DecodeStatus = Done | NeedMoreData | Error

record VarintResult =
  vr_status :: DecodeStatus
  vr_value :: u64
  vr_bytes :: nat

definition no_varint :: VarintResult where
  "no_varint = \<lparr>vr_status = NeedMoreData, vr_value = 0, vr_bytes = 0\<rparr>"

section \<open>Writing\<close>

text \<open>The \<^verbatim>\<open>for\<close> loop that finds the length; \<open>max_value\<close> is the largest value of the length.\<close>

function varint_length :: "u64 \<Rightarrow> nat \<Rightarrow> u64 \<Rightarrow> nat" where
  "varint_length value len max_value =
     (if len < 9 \<and> value > max_value then varint_length value (len + 1) (push_bit 7 max_value OR 0x7f)
      else len)"
  by pat_completeness auto
termination
  by (relation "measure (\<lambda>(value, len, max_value). 9 - len)") auto

declare varint_length.simps [simp del]

text \<open>
  The loop \<^verbatim>\<open>for (int shift = (length - 2) * 8; shift >= 0; shift -= 8)\<close>:
  \<open>n\<close> is the number of bytes still to push.
\<close>

fun push_tail :: "ByteBuffer \<Rightarrow> nat \<Rightarrow> u64 \<Rightarrow> ByteBuffer" where
  "push_tail out 0 value = out"
| "push_tail out (Suc n) value = push_tail (out @ [ucast (drop_bit (8 * n) value)]) n value"

definition write_varint :: "ByteBuffer \<Rightarrow> u64 \<Rightarrow> ByteBuffer" where
  "write_varint out value =
     (let len = varint_length value 1 0x7f;
          prefix = (ucast (push_bit (9 - len) (0xff :: u32)) :: byte);
          first = (if len = 9 then 0xff
                   else ucast ((ucast prefix :: u64) OR drop_bit ((len - 1) * 8) value))
      in push_tail (out @ [first]) (len - 1) value)"

section \<open>Reading\<close>

text \<open>\<^verbatim>\<open>while (length < 9 && (first & (0x100 >> length))) ++length;\<close>\<close>

function prefix_length :: "byte \<Rightarrow> nat \<Rightarrow> nat" where
  "prefix_length first len =
     (if len < 9 \<and> (ucast first :: u32) AND drop_bit len 0x100 \<noteq> 0 then prefix_length first (len + 1)
      else len)"
  by pat_completeness auto
termination
  by (relation "measure (\<lambda>(first, len). 9 - len)") auto

declare prefix_length.simps [simp del]

definition read_varint :: "ByteBuffer \<Rightarrow> nat \<Rightarrow> VarintResult" where
  "read_varint data offset =
     (if offset \<ge> length data then no_varint
      else let first = data ! offset; len = prefix_length first 1
        in if len > length data - offset then no_varint
           else let value = (if len = 9 then 0 else ucast (first AND ucast (drop_bit len (0xff :: u32)))) :: u64
             in \<lparr>vr_status = Done,
                 vr_value = foldl (\<lambda>acc b. push_bit 8 acc OR ucast b) value
                              (map (\<lambda>i. data ! (offset + i)) [1 ..< len]),
                 vr_bytes = len\<rparr>)"

section \<open>Lemmas\<close>

lemma push_tail_eq: "push_tail out n v = out @ map (\<lambda>i. ucast (drop_bit (8 * i) v)) (rev [0 ..< n])"
  by (induction n arbitrary: out) simp_all

text \<open>Reading the bytes of \<open>push_tail\<close> back shifts them in below the accumulator.\<close>

lemma foldl_push_tail:
  "foldl (\<lambda>acc b. push_bit 8 acc OR ucast b) acc (map (\<lambda>i. ucast (drop_bit (8 * i) v) :: byte) (rev [0 ..< n]))
     = (push_bit (8 * n) acc OR take_bit (8 * n) v :: u64)"
proof (induction n arbitrary: acc)
  case 0
  show ?case by simp
next
  case (Suc n)
  have "push_bit (8 * n) (push_bit 8 acc OR ucast (ucast (drop_bit (8 * n) v) :: byte)) OR take_bit (8 * n) v
          = push_bit (8 * n + 8) acc OR take_bit (8 * n + 8) v"
    by (rule bit_eqI) (auto simp: bit_simps algebra_simps)
  then show ?case by (simp add: Suc.IH add.commute del: push_bit_or)
qed

text \<open>The loop bound of \<open>varint_length\<close>: after \<open>k\<close> rounds it is the largest \<open>7 * k\<close>-bit value.\<close>

lemma varint_bound_step: "push_bit 7 (mask (7 * k) :: u64) OR 0x7f = mask (7 * Suc k)"
proof -
  have "push_bit 7 (mask (7 * k) :: u64) OR mask 7 = mask (7 * k + 7)"
    by (rule bit_eqI) (auto simp: bit_simps)
  then show ?thesis by (simp add: mask_eq_exp_minus_1 add.commute)
qed

lemma varint_length_mask:
  assumes "1 \<le> k" "k \<le> 9" "k = 1 \<or> mask (7 * (k - 1)) < v"
  shows "k \<le> varint_length v k (mask (7 * k)) \<and> varint_length v k (mask (7 * k)) \<le> 9
    \<and> (varint_length v k (mask (7 * k)) < 9 \<longrightarrow> v \<le> mask (7 * varint_length v k (mask (7 * k))))
    \<and> (varint_length v k (mask (7 * k)) = 1 \<or> mask (7 * (varint_length v k (mask (7 * k)) - 1)) < v)"
  using assms
proof (induction "9 - k" arbitrary: k)
  case 0
  then show ?case by (subst (1 2 3 4 5 6) varint_length.simps) auto
next
  case (Suc n)
  show ?case
  proof (cases "k < 9 \<and> mask (7 * k) < v")
    case True
    have "varint_length v k (mask (7 * k)) = varint_length v (Suc k) (mask (7 * Suc k))"
      using True by (subst varint_length.simps) (simp only: varint_bound_step, simp)
    moreover have "n = 9 - Suc k" "Suc k \<le> 9" "mask (7 * (Suc k - 1)) < v"
      using Suc.hyps(2) True by simp_all
    ultimately show ?thesis using Suc.hyps(1) [of "Suc k"] by (auto simp del: mult_Suc_right)
  next
    case False
    then have "varint_length v k (mask (7 * k)) = k"
      by (subst varint_length.simps) auto
    with False Suc.prems show ?thesis by (auto simp: not_less)
  qed
qed

definition varint_size :: "u64 \<Rightarrow> nat" where
  "varint_size v = varint_length v 1 0x7f"

lemma varint_size_mask: "varint_size v = varint_length v 1 (mask (7 * 1))"
  by (simp add: varint_size_def mask_eq_exp_minus_1)

lemma varint_size_bounds: "1 \<le> varint_size v" "varint_size v \<le> 9"
  using varint_length_mask [of 1 v] by (simp_all add: varint_size_mask del: mult_1_right)

lemma varint_size_pos [simp]: "varint_size v \<noteq> 0" "0 < varint_size v"
  using varint_size_bounds(1) [of v] by simp_all

lemma varint_size_upper: "varint_size v < 9 \<Longrightarrow> v \<le> mask (7 * varint_size v)"
  using varint_length_mask [of 1 v] by (simp add: varint_size_mask del: mult_1_right)

lemma varint_size_lower: "varint_size v = 1 \<or> mask (7 * (varint_size v - 1)) < v"
  using varint_length_mask [of 1 v] by (simp add: varint_size_mask del: mult_1_right)

lemma varint_size_bit: "varint_size v < 9 \<Longrightarrow> bit v i \<Longrightarrow> i < 7 * varint_size v"
  using varint_size_upper le_mask_bit by blast

text \<open>The first byte: \<open>len - 1\<close> one bits, a zero bit, and the top bits of the value.\<close>

definition first_byte :: "nat \<Rightarrow> u64 \<Rightarrow> byte" where
  "first_byte len value =
     (if len = 9 then 0xff
      else ucast ((ucast (ucast (push_bit (9 - len) (0xff :: u32)) :: byte) :: u64)
                  OR drop_bit ((len - 1) * 8) value))"

lemma write_varint_eq:
  "write_varint out v = out @ first_byte (varint_size v) v
     # map (\<lambda>i. ucast (drop_bit (8 * i) v)) (rev [0 ..< varint_size v - 1])"
  by (simp add: write_varint_def varint_size_def first_byte_def push_tail_eq Let_def)

lemma bit_first_byte:
  assumes "varint_size v < 9" "j < 8"
  shows "bit (first_byte (varint_size v) v) j \<longleftrightarrow>
     9 - varint_size v \<le> j \<or> bit v (8 * (varint_size v - 1) + j)"
  using assms by (auto simp: first_byte_def bit_simps algebra_simps)

lemma prefix_bit:
  assumes "1 \<le> k" "k \<le> 8"
  shows "(ucast (first :: byte) :: u32) AND drop_bit k 0x100 \<noteq> 0 \<longleftrightarrow> bit first (8 - k)"
proof -
  have "drop_bit k (0x100 :: u32) = push_bit (8 - k) 1"
    using assms by - (rule bit_eqI, auto simp: bit_simps)
  then have "(ucast first :: u32) AND drop_bit k 0x100 \<noteq> 0 \<longleftrightarrow> bit (ucast first :: u32) (8 - k)"
    by (simp only: bit_iff_and_push_bit_not_eq_0)
  then show ?thesis using assms by (auto simp: bit_simps)
qed

lemma prefix_length_from:
  assumes "1 \<le> k" "k \<le> L" "L \<le> 9" "\<forall>i. k \<le> i \<and> i < L \<longrightarrow> bit first (8 - i)" "L < 9 \<longrightarrow> \<not> bit first (8 - L)"
  shows "prefix_length first k = L"
  using assms
proof (induction "L - k" arbitrary: k)
  case 0
  then show ?case
    by (subst prefix_length.simps) (cases "L < 9"; use prefix_bit [of L first] in auto)
next
  case (Suc n)
  then have "(ucast first :: u32) AND drop_bit k 0x100 \<noteq> 0"
    by (subst prefix_bit) auto
  with Suc show ?case by (subst prefix_length.simps) auto
qed

lemma prefix_length_first_byte: "prefix_length (first_byte (varint_size v) v) 1 = varint_size v"
proof (rule prefix_length_from)
  let ?L = "varint_size v"
  show "1 \<le> ?L" "?L \<le> 9" by (rule varint_size_bounds)+
  show "\<forall>i. 1 \<le> i \<and> i < ?L \<longrightarrow> bit (first_byte ?L v) (8 - i)"
    using varint_size_bounds [of v]
    by (cases "?L = 9") (simp add: first_byte_def bit_simps, auto simp: bit_first_byte)
  show "?L < 9 \<longrightarrow> \<not> bit (first_byte ?L v) (8 - ?L)"
    using varint_size_bounds [of v] varint_size_bit [of v "8 * (?L - 1) + (8 - ?L)"]
    by (auto simp: bit_first_byte)
qed simp

lemma first_byte_value:
  assumes "varint_size v < 9"
  shows "ucast (first_byte (varint_size v) v AND ucast (drop_bit (varint_size v) (0xff :: u32)))
     = drop_bit (8 * (varint_size v - 1)) v"
proof (rule bit_eqI)
  fix n
  show "bit (ucast (first_byte (varint_size v) v AND ucast (drop_bit (varint_size v) (0xff :: u32))) :: u64) n
      = bit (drop_bit (8 * (varint_size v - 1)) v) n"
    using varint_size_bit [OF assms, of "8 * (varint_size v - 1) + n"] varint_size_bounds [of v] assms
    by (cases "n < 8") (auto simp: bit_simps bit_first_byte)
qed

lemma length_write_varint [simp]: "length (write_varint out v) = length out + varint_size v"
  using varint_size_bounds [of v] by (simp add: write_varint_eq)

lemma write_varint_append [wire_simps]: "out \<noteq> [] \<Longrightarrow> write_varint out v = out @ write_varint [] v"
  by (simp add: write_varint_eq)

section \<open>The reader stands on a suffix of its buffer\<close>

lemma read_varint_append: "read_varint (pre @ xs) (length pre) = read_varint xs 0"
  by (simp add: read_varint_def nth_append Let_def)

lemma read_varint_drop: "offset \<le> length data \<Longrightarrow> read_varint data offset = read_varint (drop offset data) 0"
  using read_varint_append [of "take offset data" "drop offset data"] by simp

lemma prefix_length_bounds: "1 \<le> k \<Longrightarrow> k \<le> 9 \<Longrightarrow> k \<le> prefix_length b k \<and> prefix_length b k \<le> 9"
  by (induction b k rule: prefix_length.induct) (subst (1 2) prefix_length.simps, auto)

lemma prefix_length_pos: "0 < prefix_length b 1" "prefix_length b 1 \<le> 9"
  using prefix_length_bounds [of 1 b] by simp_all

lemmas prefix_length_pos_Suc [simp] = prefix_length_pos [simplified]

lemma read_varint_Done_bounds:
  "vr_status (read_varint data offset) = Done \<Longrightarrow>
     offset + vr_bytes (read_varint data offset) \<le> length data
     \<and> 1 \<le> vr_bytes (read_varint data offset) \<and> vr_bytes (read_varint data offset) \<le> 9"
  using prefix_length_pos [of "data ! offset"]
  by (auto simp: read_varint_def no_varint_def Let_def Suc_le_eq split: if_splits)

lemma read_varint_not_Error [simp]: "vr_status (read_varint data offset) \<noteq> Error"
  by (simp add: read_varint_def no_varint_def Let_def)

text \<open>The reader at the head of a list.\<close>

definition head_value :: "byte \<Rightarrow> nat \<Rightarrow> u64" where
  "head_value b len = (if len = 9 then 0 else ucast (b AND ucast (drop_bit len (0xff :: u32))))"

lemma read_varint_Nil [simp]: "read_varint [] 0 = no_varint"
  by (simp add: read_varint_def)

lemma read_varint_Cons:
  "read_varint (b # xs) 0 =
     (if prefix_length b 1 > Suc (length xs) then no_varint
      else \<lparr>vr_status = Done,
            vr_value = foldl (\<lambda>acc b. push_bit 8 acc OR ucast b) (head_value b (prefix_length b 1))
                         (take (prefix_length b 1 - 1) xs),
            vr_bytes = prefix_length b 1\<rparr>)"
proof -
  have "map (\<lambda>i. (b # xs) ! i) [1 ..< n] = take (n - 1) xs" if "n \<le> Suc (length xs)" for n
    using that by (auto intro!: nth_equalityI)
  then show ?thesis
    by (simp add: read_varint_def head_value_def Let_def)
qed

lemma no_varint_status [simp]: "vr_status no_varint = NeedMoreData"
  by (simp add: no_varint_def)

text \<open>More bytes behind a complete integer do not change it.\<close>

lemma read_varint_extend:
  "vr_status (read_varint xs 0) = Done \<Longrightarrow> read_varint (xs @ ys) 0 = read_varint xs 0"
  by (cases xs) (auto simp: read_varint_Cons split: if_splits)

section \<open>Round trip\<close>

lemma head_value_accumulates:
  "push_bit (8 * (varint_size v - 1)) (head_value (first_byte (varint_size v) v) (varint_size v))
     OR take_bit (8 * (varint_size v - 1)) v = v"
proof (cases "varint_size v = 9")
  case True
  then show ?thesis by (simp add: head_value_def take_bit_word_eq_self)
next
  case False
  then have "varint_size v < 9" using varint_size_bounds [of v] by simp
  then have "head_value (first_byte (varint_size v) v) (varint_size v) = drop_bit (8 * (varint_size v - 1)) v"
    using first_byte_value False by (simp add: head_value_def)
  then show ?thesis by (simp only:) (rule bit_eqI, auto simp: bit_simps)
qed

lemma read_write_varint_0:
  "read_varint (write_varint [] v @ rest) 0 = \<lparr>vr_status = Done, vr_value = v, vr_bytes = varint_size v\<rparr>"
  using varint_size_bounds [of v] head_value_accumulates [of v]
  by (simp add: write_varint_eq read_varint_Cons prefix_length_first_byte [simplified] foldl_push_tail)

lemma read_varint_truncated:
  assumes "n < varint_size v"
  shows "read_varint (take n (write_varint [] v)) 0 = no_varint"
  using assms varint_size_bounds [of v]
  by (cases n) (simp_all add: write_varint_eq read_varint_Cons prefix_length_first_byte [simplified])

lemma bit_foldl_accumulate:
  "(\<And>i. bit acc i \<Longrightarrow> i < n) \<Longrightarrow>
     bit (foldl (\<lambda>acc b. push_bit 8 acc OR ucast (b :: byte)) acc bs :: u64) i \<Longrightarrow> i < n + 8 * length bs"
proof (induction bs arbitrary: acc n)
  case Nil
  then show ?case by simp
next
  case (Cons b bs)
  have "j < n + 8" if "bit (push_bit 8 acc OR ucast b :: u64) j" for j
    using that Cons.prems(1) [of "j - 8"] by (auto simp: bit_simps dest: bit_imp_le_length)
  then show ?case using Cons.IH [of _ "n + 8"] Cons.prems(2) by fastforce
qed

lemma head_value_bit: "bit (head_value b n) i \<Longrightarrow> n \<noteq> 9 \<and> i < 8 - n"
  by (auto simp: head_value_def bit_simps split: if_splits)

lemma bits_le_mask: "(\<And>i. bit (v :: u64) i \<Longrightarrow> i < n) \<Longrightarrow> v \<le> mask n"
proof -
  assume "\<And>i. bit v i \<Longrightarrow> i < n"
  then have "v = v AND mask n" by - (rule bit_eqI, auto simp: bit_simps dest: bit_imp_le_length)
  then show ?thesis by (metis word_and_le1)
qed

lemma mask_mono_u64: "m \<le> n \<Longrightarrow> mask m \<le> (mask n :: u64)"
  by (rule bits_le_mask) (auto simp: bit_mask_iff)

lemma read_varint_value_bound:
  assumes "read_varint xs 0 = \<lparr>vr_status = Done, vr_value = v, vr_bytes = n\<rparr>" "n < 9"
  shows "v \<le> mask (7 * n)"
proof -
  from assms obtain b ys where xs: "xs = b # ys" and n: "n = prefix_length b 1" "n \<le> Suc (length ys)"
    and v: "v = foldl (\<lambda>acc b. push_bit 8 acc OR ucast b) (head_value b n) (take (n - 1) ys)"
    by (cases xs) (auto simp: read_varint_Cons no_varint_def split: if_splits)
  have "0 < n" using n by simp
  have "i < 7 * n" if "bit v i" for i
  proof -
    have "i < 8 - n + 8 * length (take (n - 1) ys)"
      using that head_value_bit v by (blast intro: bit_foldl_accumulate)
    then show ?thesis using n(2) \<open>0 < n\<close> assms(2) by simp
  qed
  then show ?thesis by (rule bits_le_mask)
qed

text \<open>
  C33: an integer written anywhere in a buffer is read back exactly, whatever bytes stand
  before and after it, and the reader consumes exactly the bytes the writer appended.
\<close>

theorem varint_roundtrip:
  "read_varint (write_varint out v @ rest) (length out)
     = \<lparr>vr_status = Done, vr_value = v, vr_bytes = length (write_varint out v) - length out\<rparr>"
proof -
  have "write_varint out v @ rest = out @ (write_varint [] v @ rest)"
    by (simp add: write_varint_eq)
  then show ?thesis
    by (simp only: read_varint_append read_write_varint_0) simp
qed

text \<open>
  C34: the reader asks for more data on every proper prefix of a written integer, so a
  split receive never yields a wrong value.
\<close>

theorem varint_prefix_incomplete:
  assumes "n < length (write_varint [] v)"
  shows "read_varint (take n (write_varint [] v)) 0 = no_varint"
  using assms by (simp add: read_varint_truncated)

theorem varint_prefix_incomplete_witness:
  "2 < length (write_varint [] 0x123456) \<and> read_varint (take 2 (write_varint [] 0x123456)) 0 = no_varint"
proof -
  have "2 < length (write_varint [] 0x123456)" by code_simp
  with varint_prefix_incomplete [OF this] show ?thesis by simp
qed

text \<open>
  C35: the writer uses the shortest form the reader accepts: any bytes that read as
  \<open>v\<close> are at least as long as \<open>write_varint\<close> makes them, and nine bytes are always enough.
\<close>

theorem write_varint_shortest:
  assumes "read_varint xs 0 = \<lparr>vr_status = Done, vr_value = v, vr_bytes = n\<rparr>"
  shows "length (write_varint [] v) \<le> n \<and> n \<le> 9"
proof -
  have n9: "n \<le> 9" using read_varint_Done_bounds [of xs 0] assms by simp
  have "varint_size v \<le> n"
  proof (rule ccontr)
    assume "\<not> varint_size v \<le> n"
    then have L: "n < varint_size v" by simp
    with varint_size_bounds [of v] have "v \<le> mask (7 * n)"
      by (intro read_varint_value_bound [OF assms]) simp
    also have "\<dots> \<le> mask (7 * (varint_size v - 1))" using L by (intro mask_mono_u64) simp
    finally have "varint_size v = 1" using varint_size_lower [of v] by auto
    moreover have "1 \<le> n" using read_varint_Done_bounds [of xs 0] assms by simp
    ultimately show False using L by simp
  qed
  with n9 show ?thesis by simp
qed

theorem write_varint_shortest_witness:
  "read_varint [0x80, 5] 0 = \<lparr>vr_status = Done, vr_value = 5, vr_bytes = 2\<rparr>
     \<and> length (write_varint [] 5) \<le> 2 \<and> (2 :: nat) \<le> 9"
proof -
  have "read_varint [0x80, 5] 0 = \<lparr>vr_status = Done, vr_value = 5, vr_bytes = 2\<rparr>" by code_simp
  with write_varint_shortest [OF this] show ?thesis by simp
qed

end
