(* ===== verification/Codec_Reader.thy ===== *)
theory Codec_Reader
  imports Codec_Varint
begin

text \<open>
  \<^verbatim>\<open>src/codec/codec_internal.h\<close>: the \<open>Cursor\<close> over a byte buffer, the
  \<open>Reader\<close> of framed control messages built on it, the message parameters, and the
  matching writers of \<^verbatim>\<open>src/codec/codec.cpp\<close>. A \<open>Reader\<close> throws
  only \<^verbatim>\<open>std::invalid_argument\<close>, so its error is the message of that exception.
\<close>

section \<open>Cursor\<close>

record Cursor =
  cur_bytes :: ByteBuffer
  cur_offset :: nat

definition remaining :: "Cursor \<Rightarrow> nat" where
  "remaining c = length (cur_bytes c) - cur_offset c"

text \<open>The \<^verbatim>\<open>bool\<close> readers with an out-parameter return an option; on \<open>None\<close> the cursor has not moved.\<close>

definition read_byte :: "Cursor \<Rightarrow> (byte \<times> Cursor) option" where
  "read_byte c =
     (if cur_offset c < length (cur_bytes c)
      then Some (cur_bytes c ! cur_offset c, c\<lparr>cur_offset := cur_offset c + 1\<rparr>) else None)"

definition cursor_varint :: "Cursor \<Rightarrow> (u64 \<times> Cursor) option" where
  "cursor_varint c =
     (let parsed = read_varint (cur_bytes c) (cur_offset c)
      in if vr_status parsed \<noteq> Done then None
         else Some (vr_value parsed, c\<lparr>cur_offset := cur_offset c + vr_bytes parsed\<rparr>))"

definition read_view :: "nat \<Rightarrow> Cursor \<Rightarrow> (ByteBuffer \<times> Cursor) option" where
  "read_view sz c =
     (if sz > remaining c then None
      else Some (take sz (drop (cur_offset c) (cur_bytes c)), c\<lparr>cur_offset := cur_offset c + sz\<rparr>))"

definition read_string :: "nat \<Rightarrow> Cursor \<Rightarrow> (string \<times> Cursor) option" where
  "read_string sz c =
     (case read_view sz c of None \<Rightarrow> None | Some (view, c') \<Rightarrow> Some (string_of_bytes view, c'))"

section \<open>Reader\<close>

type_synonym 'a reader = "Cursor \<Rightarrow> string + ('a \<times> Cursor)"

definition rreturn :: "'a \<Rightarrow> 'a reader" where
  "rreturn x c = Inr (x, c)"

definition rbind :: "'a reader \<Rightarrow> ('a \<Rightarrow> 'b reader) \<Rightarrow> 'b reader" where
  "rbind m f c = (case m c of Inl e \<Rightarrow> Inl e | Inr (x, c') \<Rightarrow> f x c')"

definition require :: "bool \<Rightarrow> string \<Rightarrow> unit reader" where
  "require valid message c = (if valid then Inr ((), c) else Inl message)"

definition of_option :: "string \<Rightarrow> (Cursor \<Rightarrow> ('a \<times> Cursor) option) \<Rightarrow> 'a reader" where
  "of_option message f c = (case f c of None \<Rightarrow> Inl message | Some r \<Rightarrow> Inr r)"

definition rremaining :: "nat reader" where
  "rremaining c = Inr (remaining c, c)"

definition roffset :: "nat reader" where
  "roffset c = Inr (cur_offset c, c)"

text \<open>\<^verbatim>\<open>ByteBuffer(bytes.begin() + start, bytes.begin() + offset)\<close>\<close>

definition rslice :: "nat \<Rightarrow> ByteBuffer reader" where
  "rslice start c = Inr (take (cur_offset c - start) (drop start (cur_bytes c)), c)"

definition Reader_varint :: "u64 reader" where
  "Reader_varint = of_option ''truncated varint'' cursor_varint"

definition Reader_byte :: "byte reader" where
  "Reader_byte = of_option ''truncated byte'' read_byte"

definition Reader_view :: "nat \<Rightarrow> ByteBuffer reader" where
  "Reader_view len = of_option ''truncated bytes'' (read_view len)"

definition Reader_string :: "nat \<Rightarrow> string reader" where
  "Reader_string limit =
     rbind Reader_varint (\<lambda>sz.
     rbind (require (unat sz \<le> limit) ''string exceeds length limit'') (\<lambda>_.
     of_option ''truncated string'' (read_string (unat sz))))"

fun namespace_fields :: "nat \<Rightarrow> nat \<Rightarrow> TrackNamespace \<Rightarrow> TrackNamespace reader" where
  "namespace_fields 0 total_size names = rreturn names"
| "namespace_fields (Suc n) total_size names =
     rbind (Reader_string 4096) (\<lambda>field.
     rbind (require (field \<noteq> [] \<and> total_size + length field \<le> 4096) ''invalid namespace field'') (\<lambda>_.
     namespace_fields n (total_size + length field) (names @ [field])))"

definition Reader_track_namespace :: "TrackNamespace reader" where
  "Reader_track_namespace =
     rbind Reader_varint (\<lambda>count.
     rbind (require (count \<le> 32) ''too many namespace fields'') (\<lambda>_.
     namespace_fields (unat count) 0 []))"

section \<open>Message parameters\<close>

record Parameter =
  par_type :: u64
  par_value :: ByteBuffer

datatype ParameterEncoding = Uint8 | Varint | LocationValue | LengthPrefixed | NamespaceValue

definition parameter_encoding :: "u64 \<Rightarrow> ParameterEncoding option" where
  "parameter_encoding type =
     (if type = 0x02 \<or> type = 0x04 \<or> type = 0x06 \<or> type = 0x08 \<or> type = 0x0a \<or> type = 0x32 then Some Varint
      else if type = 0x03 \<or> type = 0x21 then Some LengthPrefixed
      else if type = 0x09 then Some LocationValue
      else if type = 0x10 \<or> type = 0x20 \<or> type = 0x22 then Some Uint8
      else if type = 0x34 then Some NamespaceValue
      else None)"

text \<open>The \<^verbatim>\<open>switch\<close> that steps over one parameter value.\<close>

fun skip_value :: "ParameterEncoding \<Rightarrow> unit reader" where
  "skip_value Uint8 = rbind Reader_byte (\<lambda>_. rreturn ())"
| "skip_value Varint = rbind Reader_varint (\<lambda>_. rreturn ())"
| "skip_value LocationValue = rbind Reader_varint (\<lambda>_. rbind Reader_varint (\<lambda>_. rreturn ()))"
| "skip_value LengthPrefixed =
     rbind Reader_varint (\<lambda>sz.
     rbind (require (sz \<le> 65535) ''message parameter exceeds length limit'') (\<lambda>_.
     rbind (Reader_view (unat sz)) (\<lambda>_. rreturn ())))"
| "skip_value NamespaceValue = rbind Reader_track_namespace (\<lambda>_. rreturn ())"

fun parameter_loop :: "nat \<Rightarrow> nat \<Rightarrow> u64 \<Rightarrow> Parameter list \<Rightarrow> Parameter list reader" where
  "parameter_loop 0 i type out = rreturn out"
| "parameter_loop (Suc n) i type out =
     rbind Reader_varint (\<lambda>delta.
     rbind (require (delta \<le> u64_max - type \<and> (i = 0 \<or> delta \<noteq> 0)) ''invalid message parameter type delta'') (\<lambda>_.
     (case parameter_encoding (type + delta) of
        None \<Rightarrow> (\<lambda>c. Inl ''unknown message parameter'')
      | Some encoding \<Rightarrow>
          rbind roffset (\<lambda>start.
          rbind (skip_value encoding) (\<lambda>_.
          rbind (rslice start) (\<lambda>v.
          parameter_loop n (i + 1) (type + delta)
            (out @ [\<lparr>par_type = type + delta, par_value = v\<rparr>])))))))"

definition Reader_parameters :: "Parameter list reader" where
  "Reader_parameters = rbind Reader_varint (\<lambda>count. parameter_loop (unat count) 0 0 [])"

text \<open>The template \<^verbatim>\<open>decode<T>\<close>: parse, insist on the end of the payload, catch the exception.\<close>

definition decode :: "'a reader \<Rightarrow> ByteBuffer \<Rightarrow> string + 'a" where
  "decode parse payload =
     (case parse \<lparr>cur_bytes = payload, cur_offset = 0\<rparr> of
        Inl e \<Rightarrow> Inl e
      | Inr (v, c) \<Rightarrow> if remaining c = 0 then Inr v else Inl ''trailing control message bytes'')"

section \<open>Writers\<close>

definition ebind :: "exn + 'a \<Rightarrow> ('a \<Rightarrow> exn + 'b) \<Rightarrow> exn + 'b" where
  "ebind m f = (case m of Inl e \<Rightarrow> Inl e | Inr x \<Rightarrow> f x)"

fun write_fields :: "ByteBuffer \<Rightarrow> nat \<Rightarrow> TrackNamespace \<Rightarrow> exn + ByteBuffer" where
  "write_fields out total_size [] = Inr out"
| "write_fields out total_size (field # names) =
     (if field = [] \<or> total_size + length field > 4096
      then Inl (invalid_argument ''invalid MOQT track namespace field'')
      else write_fields (write_varint out (word_of_nat (length field)) @ bytes_of_string field)
             (total_size + length field) names)"

definition write_track_namespace :: "ByteBuffer \<Rightarrow> TrackNamespace \<Rightarrow> exn + ByteBuffer" where
  "write_track_namespace out name_space =
     (if length name_space > 32
      then Inl (invalid_argument ''MOQT track namespace has more than 32 fields'')
      else write_fields (write_varint out (word_of_nat (length name_space))) 0 name_space)"

fun encode_parameter_loop :: "ByteBuffer \<Rightarrow> u64 \<Rightarrow> Parameter list \<Rightarrow> exn + ByteBuffer" where
  "encode_parameter_loop payload previous [] = Inr payload"
| "encode_parameter_loop payload previous (parameter # ps) =
     (if (previous \<noteq> 0 \<and> par_type parameter \<le> previous) \<or> parameter_encoding (par_type parameter) = None
      then Inl (invalid_argument ''unsupported or duplicate message parameter'')
      else encode_parameter_loop
             (write_varint payload (par_type parameter - previous) @ par_value parameter)
             (par_type parameter) ps)"

definition encode_parameters :: "ByteBuffer \<Rightarrow> Parameter list \<Rightarrow> exn + ByteBuffer" where
  "encode_parameters payload parameters =
     (let sorted_parameters = sort_key par_type parameters
      in encode_parameter_loop (write_varint payload (word_of_nat (length sorted_parameters))) 0 sorted_parameters)"

text \<open>The factory functions \<^verbatim>\<open>Parameter::uint8\<close>, \<open>varint\<close>, \<open>location\<close>, \<open>length_prefixed\<close>, \<open>track_namespace\<close>.\<close>

definition Parameter_uint8 :: "u64 \<Rightarrow> byte \<Rightarrow> Parameter" where
  "Parameter_uint8 type v = \<lparr>par_type = type, par_value = [v]\<rparr>"

definition Parameter_varint :: "u64 \<Rightarrow> u64 \<Rightarrow> Parameter" where
  "Parameter_varint type v = \<lparr>par_type = type, par_value = write_varint [] v\<rparr>"

definition Parameter_location :: "u64 \<Rightarrow> Location \<Rightarrow> Parameter" where
  "Parameter_location type v =
     \<lparr>par_type = type, par_value = write_varint (write_varint [] (loc_group v)) (loc_object v)\<rparr>"

definition Parameter_length_prefixed :: "u64 \<Rightarrow> ByteBuffer \<Rightarrow> Parameter" where
  "Parameter_length_prefixed type v =
     \<lparr>par_type = type, par_value = write_varint [] (word_of_nat (length v)) @ v\<rparr>"

definition Parameter_track_namespace :: "u64 \<Rightarrow> TrackNamespace \<Rightarrow> exn + Parameter" where
  "Parameter_track_namespace type v =
     ebind (write_track_namespace [] v) (\<lambda>bytes. Inr \<lparr>par_type = type, par_value = bytes\<rparr>)"

section \<open>A cursor that stands between two byte lists\<close>

definition standing :: "ByteBuffer \<Rightarrow> ByteBuffer \<Rightarrow> Cursor" where
  "standing pre xs = \<lparr>cur_bytes = pre @ xs, cur_offset = length pre\<rparr>"

lemma standing_start: "\<lparr>cur_bytes = xs, cur_offset = 0\<rparr> = standing [] xs"
  by (simp add: standing_def)

lemma standing_surj: "cur_offset c \<le> length (cur_bytes c) \<Longrightarrow>
    c = standing (take (cur_offset c) (cur_bytes c)) (drop (cur_offset c) (cur_bytes c))"
  by (simp add: standing_def)

lemma remaining_standing [simp]: "remaining (standing pre xs) = length xs"
  by (simp add: remaining_def standing_def)

lemma cur_offset_standing [simp]: "cur_offset (standing pre xs) = length pre"
  by (simp add: standing_def)

lemma rreturn_standing [simp]: "rreturn x c = Inr (x, c)"
  by (simp add: rreturn_def)

lemma rbind_Inr [simp]: "m c = Inr (x, c') \<Longrightarrow> rbind m f c = f x c'"
  by (simp add: rbind_def)

lemma rbind_Inl [simp]: "m c = Inl e \<Longrightarrow> rbind m f c = Inl e"
  by (simp add: rbind_def)

lemma require_True [simp]: "b \<Longrightarrow> require b e c = Inr ((), c)"
  by (simp add: require_def)

lemma require_False [simp]: "\<not> b \<Longrightarrow> require b e c = Inl e"
  by (simp add: require_def)

lemma rremaining_standing [simp]: "rremaining (standing pre xs) = Inr (length xs, standing pre xs)"
  by (simp add: rremaining_def)

lemma roffset_standing [simp]: "roffset (standing pre xs) = Inr (length pre, standing pre xs)"
  by (simp add: roffset_def)

lemma rslice_standing [simp]: "rslice (length pre) (standing (pre @ v) xs) = Inr (v, standing (pre @ v) xs)"
  by (simp add: rslice_def standing_def)

lemma cursor_varint_standing:
  "cursor_varint (standing pre xs) =
     (if vr_status (read_varint xs 0) = Done
      then Some (vr_value (read_varint xs 0),
             standing (pre @ take (vr_bytes (read_varint xs 0)) xs) (drop (vr_bytes (read_varint xs 0)) xs))
      else None)"
  using read_varint_Done_bounds [of xs 0]
  by (auto simp: cursor_varint_def standing_def read_varint_append Let_def min_def)

lemma read_byte_standing:
  "read_byte (standing pre xs) = (case xs of [] \<Rightarrow> None | b # ys \<Rightarrow> Some (b, standing (pre @ [b]) ys))"
  by (cases xs) (simp_all add: read_byte_def standing_def)

lemma read_view_standing:
  "read_view n (standing pre xs) =
     (if n \<le> length xs then Some (take n xs, standing (pre @ take n xs) (drop n xs)) else None)"
  by (auto simp: read_view_def remaining_def standing_def)

section \<open>Reading what was written\<close>

text \<open>
  A field format: a writer, the reader of the same field, and the values it carries. The law
  says that the reader, standing anywhere in front of a written value, returns the value and
  stops right behind it.
\<close>

locale wire_format =
  fixes wr :: "'a \<Rightarrow> ByteBuffer" and rd :: "'a reader" and ok :: "'a \<Rightarrow> bool"
  assumes rd_wr: "ok x \<Longrightarrow> rd (standing pre (wr x @ rest)) = Inr (x, standing (pre @ wr x) rest)"
begin

lemma rd_end: "ok x \<Longrightarrow> rd (standing pre (wr x)) = Inr (x, standing (pre @ wr x) [])"
  using rd_wr [of x pre "[]"] by simp

lemma wr_uniquely_decodable: "ok x \<Longrightarrow> ok y \<Longrightarrow> wr x @ r = wr y @ s \<Longrightarrow> x = y \<and> r = s"
  using rd_wr [of x "[]" r] rd_wr [of y "[]" s] by (simp add: standing_def)

lemma wr_inj: "ok x \<Longrightarrow> ok y \<Longrightarrow> wr x = wr y \<Longrightarrow> x = y"
  using wr_uniquely_decodable [of x y "[]" "[]"] by simp

lemma decode_wr: "ok x \<Longrightarrow> decode rd (wr x) = Inr x"
  by (simp add: decode_def standing_start rd_end)

lemma decode_trailing: "ok x \<Longrightarrow> rest \<noteq> [] \<Longrightarrow> decode rd (wr x @ rest) = Inl ''trailing control message bytes''"
  by (simp add: decode_def standing_start rd_wr)

end

interpretation varint_format: wire_format "write_varint []" Reader_varint "\<lambda>_. True"
  by unfold_locales
    (simp add: Reader_varint_def of_option_def cursor_varint_standing read_write_varint_0)

interpretation byte_format: wire_format "\<lambda>b. [b]" Reader_byte "\<lambda>_. True"
  by unfold_locales (simp add: Reader_byte_def of_option_def read_byte_standing)

definition write_string :: "string \<Rightarrow> ByteBuffer" where
  "write_string s = write_varint [] (word_of_nat (length s)) @ bytes_of_string s"

interpretation string_format: wire_format write_string "Reader_string limit" "\<lambda>s. length s \<le> limit \<and> length s < 2 ^ 64"
  by unfold_locales
    (simp add: write_string_def Reader_string_def varint_format.rd_wr unat_of_nat_u64
      of_option_def read_string_def read_view_standing)

subsection \<open>Track namespaces\<close>

text \<open>The namespaces both sides accept: at most 32 non-empty fields, 4096 bytes in all.\<close>

fun fields_ok :: "nat \<Rightarrow> TrackNamespace \<Rightarrow> bool" where
  "fields_ok total_size [] = True"
| "fields_ok total_size (f # fs) = (f \<noteq> [] \<and> total_size + length f \<le> 4096 \<and> fields_ok (total_size + length f) fs)"

definition namespace_ok :: "TrackNamespace \<Rightarrow> bool" where
  "namespace_ok ns = (length ns \<le> 32 \<and> fields_ok 0 ns)"

definition namespace_bytes :: "TrackNamespace \<Rightarrow> ByteBuffer" where
  "namespace_bytes ns = write_varint [] (word_of_nat (length ns)) @ concat (map write_string ns)"

lemma write_varint_snoc: "write_varint out v = out @ write_varint [] v"
  by (simp add: write_varint_eq)

lemma write_fields_eq:
  "write_fields out t ns =
     (if fields_ok t ns then Inr (out @ concat (map write_string ns))
      else Inl (invalid_argument ''invalid MOQT track namespace field''))"
  by (induction ns arbitrary: out t)
    (auto simp: write_string_def write_varint_snoc [of "_ @ _"] write_varint_snoc [of "_ # _"]
       write_varint_eq not_less)

lemma write_track_namespace_ok: "namespace_ok ns \<Longrightarrow> write_track_namespace out ns = Inr (out @ namespace_bytes ns)"
  by (simp add: namespace_ok_def write_track_namespace_def write_fields_eq namespace_bytes_def write_varint_eq)

lemma write_track_namespace_eq_Inr:
  "write_track_namespace out ns = Inr bs \<longleftrightarrow> namespace_ok ns \<and> bs = out @ namespace_bytes ns"
  by (auto simp: namespace_ok_def write_track_namespace_def write_fields_eq namespace_bytes_def write_varint_eq
      split: if_splits)

lemma namespace_fields_written:
  "fields_ok t ns \<Longrightarrow> namespace_fields (length ns) t acc (standing pre (concat (map write_string ns) @ rest))
     = Inr (acc @ ns, standing (pre @ concat (map write_string ns)) rest)"
proof (induction ns arbitrary: t acc pre)
  case Nil
  then show ?case by simp
next
  case (Cons f ns)
  then have "length f \<le> 4096 \<and> length f < 2 ^ 64" by simp
  from string_format.rd_wr [OF this, of pre "concat (map write_string ns) @ rest"] Cons
  show ?case by simp
qed

interpretation namespace_format: wire_format namespace_bytes Reader_track_namespace namespace_ok
  by unfold_locales
    (simp add: namespace_bytes_def Reader_track_namespace_def namespace_ok_def varint_format.rd_wr
      unat_of_nat_u64 word_le_nat_alt namespace_fields_written)

section \<open>Readers that do not look behind their field\<close>

definition local_reader :: "'a reader \<Rightarrow> bool" where
  "local_reader rd \<longleftrightarrow> (\<forall>pre xs x c. rd (standing pre xs) = Inr (x, c) \<longrightarrow>
     (\<exists>us ws. xs = us @ ws \<and> (\<forall>pre' ys. rd (standing pre' (xs @ ys)) = Inr (x, standing (pre' @ us) (ws @ ys)))))"

lemma local_readerI:
  "(\<And>pre xs x c. rd (standing pre xs) = Inr (x, c) \<Longrightarrow>
     \<exists>us ws. xs = us @ ws \<and> (\<forall>pre' ys. rd (standing pre' (xs @ ys)) = Inr (x, standing (pre' @ us) (ws @ ys))))
   \<Longrightarrow> local_reader rd"
  by (simp add: local_reader_def)

lemma local_readerE:
  assumes "local_reader rd" "rd (standing pre xs) = Inr (x, c)"
  obtains us ws where "xs = us @ ws" "c = standing (pre @ us) ws"
    "\<forall>pre' ys. rd (standing pre' (xs @ ys)) = Inr (x, standing (pre' @ us) (ws @ ys))"
proof -
  from assms(1) [unfolded local_reader_def, rule_format, OF assms(2)]
  obtain us ws where e: "xs = us @ ws \<and>
      (\<forall>pre' ys. rd (standing pre' (xs @ ys)) = Inr (x, standing (pre' @ us) (ws @ ys)))"
    by (elim exE)
  note * = conjunct1 [OF e] conjunct2 [OF e]
  have "rd (standing pre xs) = Inr (x, standing (pre @ us) ws)"
    using *(2) [rule_format, of pre "[]"] by simp
  with assms(2) have "c = standing (pre @ us) ws" by simp
  from that [OF *(1) this *(2)] show ?thesis .
qed

lemma local_bind [intro]:
  assumes m: "local_reader m" and f: "\<And>x. local_reader (f x)"
  shows "local_reader (rbind m f)"
proof (rule local_readerI)
  fix pre xs y c
  assume "rbind m f (standing pre xs) = Inr (y, c)"
  then obtain x c1 where 1: "m (standing pre xs) = Inr (x, c1)" and 2: "f x c1 = Inr (y, c)"
    by (auto simp: rbind_def split: sum.splits)
  from m 1 obtain us ws where a: "xs = us @ ws" "c1 = standing (pre @ us) ws"
    "\<forall>pre' ys. m (standing pre' (xs @ ys)) = Inr (x, standing (pre' @ us) (ws @ ys))"
    by (elim local_readerE)
  from f [of x] 2 [unfolded a(2)] obtain vs zs where b: "ws = vs @ zs"
    "\<forall>pre' ys. f x (standing pre' (ws @ ys)) = Inr (y, standing (pre' @ vs) (zs @ ys))"
    by (elim local_readerE)
  have "rbind m f (standing pre' (xs @ ys)) = Inr (y, standing (pre' @ us @ vs) (zs @ ys))" for pre' ys
    using a(3) b(2) by simp
  with a(1) b(1) show "\<exists>us ws. xs = us @ ws \<and>
      (\<forall>pre' ys. rbind m f (standing pre' (xs @ ys)) = Inr (y, standing (pre' @ us) (ws @ ys)))"
    by (intro exI [of _ "us @ vs"] exI [of _ zs]) simp
qed

lemma local_return [intro]: "local_reader (rreturn x)"
  by (rule local_readerI) (auto intro: exI [of _ "[]"])

lemma local_require [intro]: "local_reader (require b e)"
  by (rule local_readerI) (auto simp: require_def split: if_splits intro: exI [of _ "[]"])

lemma local_varint [intro]: "local_reader Reader_varint"
proof (rule local_readerI)
  fix pre xs x c
  assume "Reader_varint (standing pre xs) = Inr (x, c)"
  then have d: "vr_status (read_varint xs 0) = Done" and x: "x = vr_value (read_varint xs 0)"
    by (auto simp: Reader_varint_def of_option_def cursor_varint_standing split: option.splits if_splits)
  let ?n = "vr_bytes (read_varint xs 0)"
  have "?n \<le> length xs" using read_varint_Done_bounds [OF d] by simp
  then have "Reader_varint (standing pre' (xs @ ys)) = Inr (x, standing (pre' @ take ?n xs) (drop ?n xs @ ys))" for pre' ys
    using d x by (simp add: Reader_varint_def of_option_def cursor_varint_standing read_varint_extend)
  then show "\<exists>us ws. xs = us @ ws \<and>
      (\<forall>pre' ys. Reader_varint (standing pre' (xs @ ys)) = Inr (x, standing (pre' @ us) (ws @ ys)))"
    by (intro exI [of _ "take ?n xs"] exI [of _ "drop ?n xs"]) simp
qed

lemma local_byte [intro]: "local_reader Reader_byte"
proof (rule local_readerI)
  fix pre xs x c
  assume "Reader_byte (standing pre xs) = Inr (x, c)"
  then obtain ys where "xs = x # ys"
    by (auto simp: Reader_byte_def of_option_def read_byte_standing split: list.splits)
  then show "\<exists>us ws. xs = us @ ws \<and>
      (\<forall>pre' ys. Reader_byte (standing pre' (xs @ ys)) = Inr (x, standing (pre' @ us) (ws @ ys)))"
    by (intro exI [of _ "[x]"] exI [of _ ys])
      (simp add: Reader_byte_def of_option_def read_byte_standing)
qed

lemma local_view [intro]: "local_reader (Reader_view n)"
proof (rule local_readerI)
  fix pre xs x c
  assume "Reader_view n (standing pre xs) = Inr (x, c)"
  then have "n \<le> length xs" "x = take n xs"
    by (auto simp: Reader_view_def of_option_def read_view_standing split: option.splits if_splits)
  then show "\<exists>us ws. xs = us @ ws \<and>
      (\<forall>pre' ys. Reader_view n (standing pre' (xs @ ys)) = Inr (x, standing (pre' @ us) (ws @ ys)))"
    by (intro exI [of _ "take n xs"] exI [of _ "drop n xs"])
      (simp add: Reader_view_def of_option_def read_view_standing)
qed

lemma of_option_string_eq:
  "of_option ''truncated string'' (read_string n) c =
     (case Reader_view n c of Inl _ \<Rightarrow> Inl ''truncated string'' | Inr (v, c') \<Rightarrow> Inr (string_of_bytes v, c'))"
  by (simp add: of_option_def read_string_def Reader_view_def split: option.splits)

lemma local_read_string [intro]: "local_reader (of_option ''truncated string'' (read_string n))"
proof (rule local_readerI)
  fix pre xs x c
  assume "of_option ''truncated string'' (read_string n) (standing pre xs) = Inr (x, c)"
  then obtain v where v: "Reader_view n (standing pre xs) = Inr (v, c)" "x = string_of_bytes v"
    by (auto simp: of_option_string_eq split: sum.splits)
  from local_view [of n] v(1) obtain us ws where "xs = us @ ws"
    "\<forall>pre' ys. Reader_view n (standing pre' (xs @ ys)) = Inr (v, standing (pre' @ us) (ws @ ys))"
    by (elim local_readerE)
  then show "\<exists>us ws. xs = us @ ws \<and> (\<forall>pre' ys.
      of_option ''truncated string'' (read_string n) (standing pre' (xs @ ys)) = Inr (x, standing (pre' @ us) (ws @ ys)))"
    by (intro exI [of _ us] exI [of _ ws]) (simp add: of_option_string_eq v(2))
qed

lemma local_string [intro]: "local_reader (Reader_string n)"
  unfolding Reader_string_def by (intro local_bind local_varint local_require local_read_string)

lemma local_namespace_fields [intro]: "local_reader (namespace_fields n t acc)"
  by (induction n arbitrary: t acc) (auto intro!: local_bind local_string local_require local_return)

lemma local_namespace [intro]: "local_reader Reader_track_namespace"
  unfolding Reader_track_namespace_def by (intro local_bind local_varint local_require local_namespace_fields)

lemma local_skip_value [intro]: "local_reader (skip_value e)"
  by (cases e) (auto intro!: local_bind local_varint local_byte local_require local_view local_namespace local_return)

lemma decode_local:
  assumes "local_reader rd" "decode rd xs = Inr x"
  shows "rd (standing pre (xs @ rest)) = Inr (x, standing (pre @ xs) rest)"
proof -
  from assms(2) obtain c where 1: "rd (standing [] xs) = Inr (x, c)" "remaining c = 0"
    by (auto simp: decode_def standing_start split: sum.splits if_splits)
  from assms(1) 1(1) obtain us ws where 2: "xs = us @ ws" "c = standing ([] @ us) ws"
    "\<forall>pre' ys. rd (standing pre' (xs @ ys)) = Inr (x, standing (pre' @ us) (ws @ ys))"
    by (elim local_readerE)
  with 1(2) have "ws = []" by simp
  with 2 show ?thesis by simp
qed

end
