(* ===== verification/Codec_Parameters.thy ===== *)
theory Codec_Parameters
  imports Codec_Reader
begin

text \<open>
  Message parameters: what \<open>encode_parameters\<close> accepts, that \<open>Reader::parameters\<close>
  reads its output back in ascending order of type, and that whatever the reader accepts has
  strictly increasing, known types.
\<close>

section \<open>Well-formed parameters\<close>

definition wf_parameter :: "Parameter \<Rightarrow> bool" where
  "wf_parameter p =
     (case parameter_encoding (par_type p) of
        None \<Rightarrow> False
      | Some e \<Rightarrow> decode (skip_value e) (par_value p) = Inr ())"

lemma parameter_encoding_0 [simp]: "parameter_encoding 0 = None"
  by (simp add: parameter_encoding_def)

lemma skip_wf_parameter:
  assumes "parameter_encoding (par_type p) = Some e" "wf_parameter p"
  shows "skip_value e (standing pre (par_value p @ rest)) = Inr ((), standing (pre @ par_value p) rest)"
  using assms decode_local [OF local_skip_value] by (simp add: wf_parameter_def)

section \<open>The bytes of a parameter list\<close>

fun parameter_bytes :: "u64 \<Rightarrow> Parameter list \<Rightarrow> ByteBuffer" where
  "parameter_bytes previous [] = []"
| "parameter_bytes previous (p # ps) =
     write_varint [] (par_type p - previous) @ par_value p @ parameter_bytes (par_type p) ps"

text \<open>The order check of the encoder, on its own.\<close>

fun types_ascend :: "u64 \<Rightarrow> Parameter list \<Rightarrow> bool" where
  "types_ascend previous [] = True"
| "types_ascend previous (p # ps) =
     (previous < par_type p \<and> parameter_encoding (par_type p) \<noteq> None \<and> types_ascend (par_type p) ps)"

lemma encode_parameter_loop_eq:
  "encode_parameter_loop payload previous ps =
     (if types_ascend previous ps then Inr (payload @ parameter_bytes previous ps)
      else Inl (invalid_argument ''unsupported or duplicate message parameter''))"
proof (induction ps arbitrary: payload previous)
  case Nil
  then show ?case by simp
next
  case (Cons p ps)
  have "previous < par_type p \<longleftrightarrow> \<not> (previous \<noteq> 0 \<and> par_type p \<le> previous)"
    if "parameter_encoding (par_type p) \<noteq> None"
  proof -
    have "par_type p \<noteq> 0" using that by auto
    then show ?thesis by (auto simp: word_neq_0_conv not_le)
  qed
  then show ?case by (auto simp: Cons.IH write_varint_snoc [of payload])
qed

lemma types_ascend_iff:
  "types_ascend previous ps \<longleftrightarrow>
     sorted (map par_type ps) \<and> distinct (map par_type ps)
     \<and> (\<forall>p \<in> set ps. previous < par_type p \<and> parameter_encoding (par_type p) \<noteq> None)"
  by (induction ps arbitrary: previous) (auto simp: less_le order.strict_trans1 dest: order.strict_trans)

text \<open>Acceptance by the encoder, for the list as the caller gave it.\<close>

definition parameters_ok :: "Parameter list \<Rightarrow> bool" where
  "parameters_ok ps =
     (distinct (map par_type ps) \<and> (\<forall>p \<in> set ps. parameter_encoding (par_type p) \<noteq> None))"

lemma types_ascend_sort_key: "types_ascend 0 (sort_key par_type ps) = parameters_ok ps"
proof -
  have "0 < par_type p" if "parameter_encoding (par_type p) \<noteq> None" for p :: Parameter
    using that by (auto simp: word_neq_0_conv [symmetric])
  moreover have "distinct (map par_type (sort_key par_type ps)) = distinct (map par_type ps)"
    by (simp add: distinct_map)
  ultimately show ?thesis by (auto simp: types_ascend_iff parameters_ok_def)
qed

lemma encode_parameters_eq:
  "encode_parameters payload ps =
     (if parameters_ok ps
      then Inr (payload @ write_varint [] (word_of_nat (length ps)) @ parameter_bytes 0 (sort_key par_type ps))
      else Inl (invalid_argument ''unsupported or duplicate message parameter''))"
  by (simp add: encode_parameters_def encode_parameter_loop_eq types_ascend_sort_key Let_def
      write_varint_snoc [of payload])

section \<open>Reading a parameter list\<close>

lemma parameter_loop_written:
  assumes "types_ascend previous ps" "\<forall>p \<in> set ps. wf_parameter p"
  shows "parameter_loop (length ps) i previous out (standing pre (parameter_bytes previous ps @ rest))
     = Inr (out @ ps, standing (pre @ parameter_bytes previous ps) rest)"
  using assms
proof (induction ps arbitrary: i previous out pre)
  case Nil
  then show ?case by simp
next
  case (Cons p ps)
  let ?d = "par_type p - previous" and ?w = "write_varint [] (par_type p - previous)"
  from Cons.prems obtain e where e: "parameter_encoding (par_type p) = Some e" by auto
  from Cons.prems have lt: "previous < par_type p" by simp
  have sum: "previous + ?d = par_type p" by simp
  have p: "\<lparr>par_type = par_type p, par_value = par_value p\<rparr> = p" by simp
  have "?d \<le> u64_max - previous"
    using lt by (intro u64_diff_le_max_minus) simp
  moreover have "?d \<noteq> 0" using lt by auto
  moreover have "Reader_varint (standing pre (?w @ par_value p @ parameter_bytes (par_type p) ps @ rest))
      = Inr (?d, standing (pre @ ?w) (par_value p @ parameter_bytes (par_type p) ps @ rest))"
    by (rule varint_format.rd_wr) simp
  moreover have "skip_value e (standing (pre @ ?w) (par_value p @ parameter_bytes (par_type p) ps @ rest))
      = Inr ((), standing ((pre @ ?w) @ par_value p) (parameter_bytes (par_type p) ps @ rest))"
    using Cons.prems by (intro skip_wf_parameter e) simp
  moreover have "rslice (length (pre @ ?w)) (standing ((pre @ ?w) @ par_value p) (parameter_bytes (par_type p) ps @ rest))
      = Inr (par_value p, standing ((pre @ ?w) @ par_value p) (parameter_bytes (par_type p) ps @ rest))"
    by (rule rslice_standing)
  ultimately show ?case
    using Cons.IH [of "par_type p" "i + 1" "out @ [p]" "(pre @ ?w) @ par_value p"] Cons.prems e
    by (simp add: sum p)
qed

definition parameters_bytes :: "Parameter list \<Rightarrow> ByteBuffer" where
  "parameters_bytes ps = write_varint [] (word_of_nat (length ps)) @ parameter_bytes 0 ps"

definition parameters_wire_ok :: "Parameter list \<Rightarrow> bool" where
  "parameters_wire_ok ps = (types_ascend 0 ps \<and> (\<forall>p \<in> set ps. wf_parameter p) \<and> length ps < 2 ^ 64)"

interpretation parameters_format: wire_format parameters_bytes Reader_parameters parameters_wire_ok
  by unfold_locales
    (simp add: parameters_bytes_def parameters_wire_ok_def Reader_parameters_def varint_format.rd_wr
      unat_of_nat_u64 parameter_loop_written)

section \<open>What the reader accepts\<close>

lemma rbind_eq_Inr: "rbind m f c = Inr r \<longleftrightarrow> (\<exists>x c'. m c = Inr (x, c') \<and> f x c' = Inr r)"
  by (auto simp: rbind_def split: sum.splits)

lemma require_eq_Inr [simp]: "require b e c = Inr (u, c') \<longleftrightarrow> b \<and> c' = c"
  by (auto simp: require_def)

lemma roffset_eq_Inr [simp]: "roffset c = Inr (n, c') \<longleftrightarrow> n = cur_offset c \<and> c' = c"
  by (auto simp: roffset_def)

lemma rslice_eq_Inr [simp]:
  "rslice start c = Inr (v, c') \<longleftrightarrow> v = take (cur_offset c - start) (drop start (cur_bytes c)) \<and> c' = c"
  by (auto simp: rslice_def)

lemma u64_less_add:
  assumes "delta \<le> u64_max - type" "delta \<noteq> 0"
  shows "type < type + (delta :: u64)"
proof -
  have "unat delta + unat type < 2 ^ 64" using assms(1) by (simp only: u64_max_add)
  then have "unat (type + delta) = unat type + unat delta"
    by (intro unat_add_no_wrap) simp
  moreover have "0 < unat delta" using assms(2) by (simp add: unat_gt_0)
  ultimately show ?thesis by (simp add: word_less_nat_alt)
qed

lemma parameter_loop_ascends:
  "parameter_loop n i type out c = Inr (ps, c') \<Longrightarrow> (i = 0 \<longrightarrow> type = 0) \<Longrightarrow>
     \<exists>qs. ps = out @ qs \<and> length qs = n \<and> types_ascend type qs"
proof (induction n arbitrary: i type out c)
  case 0
  then show ?case by simp
next
  case (Suc n)
  from Suc.prems(1) obtain delta c1 e c2 v where
    d: "delta \<le> u64_max - type" "i = 0 \<or> delta \<noteq> 0"
    and e: "parameter_encoding (type + delta) = Some e"
    and rest: "parameter_loop n (i + 1) (type + delta)
        (out @ [\<lparr>par_type = type + delta, par_value = v\<rparr>]) c2 = Inr (ps, c')"
    by (auto simp: rbind_eq_Inr split: option.splits)
  from Suc.IH [OF rest] obtain qs where
    "ps = (out @ [\<lparr>par_type = type + delta, par_value = v\<rparr>]) @ qs" "length qs = n" "types_ascend (type + delta) qs"
    by auto
  moreover have "type < type + delta"
    using u64_less_add [OF d(1)] d(2) Suc.prems(2) e by (cases "delta = 0") auto
  ultimately show ?case using e
    by (intro exI [of _ "\<lparr>par_type = type + delta, par_value = v\<rparr> # qs"]) simp
qed

lemma Reader_parameters_ascends: "Reader_parameters c = Inr (ps, c') \<Longrightarrow> types_ascend 0 ps"
  using parameter_loop_ascends [of _ 0 0 "[]"]
  by (fastforce simp: Reader_parameters_def rbind_eq_Inr)

section \<open>Factories\<close>

lemma wf_Parameter_uint8:
  "parameter_encoding type = Some Uint8 \<Longrightarrow> wf_parameter (Parameter_uint8 type v)"
  using byte_format.rd_end [of "[]" v]
  by (simp add: wf_parameter_def Parameter_uint8_def decode_def standing_start)

lemma wf_Parameter_varint:
  "parameter_encoding type = Some Varint \<Longrightarrow> wf_parameter (Parameter_varint type v)"
  using varint_format.rd_end [of "[]" v]
  by (simp add: wf_parameter_def Parameter_varint_def decode_def standing_start)

lemma wf_Parameter_location:
  "parameter_encoding type = Some LocationValue \<Longrightarrow> wf_parameter (Parameter_location type v)"
  using varint_format.rd_wr [of "[]" "loc_group v" "write_varint [] (loc_object v)"]
    varint_format.rd_end [of "write_varint [] (loc_group v)" "loc_object v"]
  by (simp add: wf_parameter_def Parameter_location_def decode_def standing_start
      write_varint_snoc [of "write_varint [] (loc_group v)"])

lemma wf_Parameter_length_prefixed:
  "parameter_encoding type = Some LengthPrefixed \<Longrightarrow> length v \<le> 65535 \<Longrightarrow>
     wf_parameter (Parameter_length_prefixed type v)"
  using varint_format.rd_wr [of "[]" "word_of_nat (length v)" v]
  by (simp add: wf_parameter_def Parameter_length_prefixed_def decode_def standing_start
      word_le_nat_alt unat_of_nat_u64 Reader_view_def of_option_def read_view_standing)

lemma wf_Parameter_track_namespace:
  "parameter_encoding type = Some NamespaceValue \<Longrightarrow> Parameter_track_namespace type ns = Inr p \<Longrightarrow> wf_parameter p"
  using namespace_format.rd_end [of ns "[]"]
  by (auto simp: wf_parameter_def Parameter_track_namespace_def ebind_def write_track_namespace_eq_Inr
      decode_def standing_start split: sum.splits)

lemmas wf_factories = wf_Parameter_uint8 wf_Parameter_varint wf_Parameter_location
  wf_Parameter_length_prefixed wf_Parameter_track_namespace

end
