(* ===== verification/Codec_Control.thy ===== *)
theory Codec_Control
  imports Codec_Parameters
begin

text \<open>
  Control messages: the frame of \<^verbatim>\<open>src/codec/codec.cpp\<close>
  (\<open>encode_control_message\<close>, \<open>read_control_message\<close>) and the message codecs of
  \<^verbatim>\<open>src/codec/control.cpp\<close>. The lemmas show that a frame is read back
  wherever it starts a buffer, that a proper prefix of a frame is not a frame, and that each
  decoder returns what its encoder was given.
\<close>

section \<open>Constants of \<open>include/moq/codec.h\<close> and \<open>errors.h\<close>\<close>

abbreviation (input) kSetupStreamType :: u64 where "kSetupStreamType \<equiv> 0x2f00"
abbreviation (input) kFetchStreamType :: u64 where "kFetchStreamType \<equiv> 0x05"
abbreviation (input) kPaddingStreamType :: u64 where "kPaddingStreamType \<equiv> 0x132b3e28"
abbreviation (input) kPaddingDatagramType :: u64 where "kPaddingDatagramType \<equiv> 0x132b3e29"

abbreviation (input) kMessageRequestUpdate :: u64 where "kMessageRequestUpdate \<equiv> 0x02"
abbreviation (input) kMessageSubscribe :: u64 where "kMessageSubscribe \<equiv> 0x03"
abbreviation (input) kMessageSubscribeOk :: u64 where "kMessageSubscribeOk \<equiv> 0x04"
abbreviation (input) kMessageRequestError :: u64 where "kMessageRequestError \<equiv> 0x05"
abbreviation (input) kMessageRequestOk :: u64 where "kMessageRequestOk \<equiv> 0x07"
abbreviation (input) kMessagePublishDone :: u64 where "kMessagePublishDone \<equiv> 0x0b"
abbreviation (input) kMessageGoAway :: u64 where "kMessageGoAway \<equiv> 0x10"
abbreviation (input) kMessagePublish :: u64 where "kMessagePublish \<equiv> 0x1d"
abbreviation (input) kMessageSetup :: u64 where "kMessageSetup \<equiv> 0x2f00"
abbreviation (input) kMessagePublishNamespace :: u64 where "kMessagePublishNamespace \<equiv> 0x06"
abbreviation (input) kMessageTrackStatus :: u64 where "kMessageTrackStatus \<equiv> 0x0d"
abbreviation (input) kMessageFetch :: u64 where "kMessageFetch \<equiv> 0x16"
abbreviation (input) kMessageSubscribeNamespace :: u64 where "kMessageSubscribeNamespace \<equiv> 0x50"
abbreviation (input) kMessageSubscribeTracks :: u64 where "kMessageSubscribeTracks \<equiv> 0x51"

abbreviation (input) kParameterObjectDeliveryTimeout :: u64 where "kParameterObjectDeliveryTimeout \<equiv> 0x02"
abbreviation (input) kParameterSubgroupDeliveryTimeout :: u64 where "kParameterSubgroupDeliveryTimeout \<equiv> 0x06"
abbreviation (input) kParameterLargestObject :: u64 where "kParameterLargestObject \<equiv> 0x09"
abbreviation (input) kParameterForward :: u64 where "kParameterForward \<equiv> 0x10"
abbreviation (input) kParameterSubscriptionFilter :: u64 where "kParameterSubscriptionFilter \<equiv> 0x21"
abbreviation (input) kParameterGroupOrder :: u64 where "kParameterGroupOrder \<equiv> 0x22"

abbreviation (input) kFilterNextGroupStart :: u64 where "kFilterNextGroupStart \<equiv> 0x1"
abbreviation (input) kFilterLargestObject :: u64 where "kFilterLargestObject \<equiv> 0x2"
abbreviation (input) kFilterAbsoluteStart :: u64 where "kFilterAbsoluteStart \<equiv> 0x3"
abbreviation (input) kFilterAbsoluteRange :: u64 where "kFilterAbsoluteRange \<equiv> 0x4"

text \<open>
  The error enumerations have a fixed underlying type and are filled from the wire by
  \<^verbatim>\<open>static_cast\<close>, so any 64-bit value is one of their values; the named
  codes are constants.
\<close>

type_synonym RequestErrorCode = u64

abbreviation (input) RequestError_InternalError :: RequestErrorCode where "RequestError_InternalError \<equiv> 0x0"
abbreviation (input) RequestError_NotSupported :: RequestErrorCode where "RequestError_NotSupported \<equiv> 0x3"
abbreviation (input) RequestError_ExcessiveLoad :: RequestErrorCode where "RequestError_ExcessiveLoad \<equiv> 0x9"
abbreviation (input) RequestError_DoesNotExist :: RequestErrorCode where "RequestError_DoesNotExist \<equiv> 0x10"
abbreviation (input) RequestError_InvalidRange :: RequestErrorCode where "RequestError_InvalidRange \<equiv> 0x11"
abbreviation (input) RequestError_Uninterested :: RequestErrorCode where "RequestError_Uninterested \<equiv> 0x20"
abbreviation (input) RequestError_Redirect :: RequestErrorCode where "RequestError_Redirect \<equiv> 0x34"

section \<open>Frames\<close>

record ControlMessage =
  cm_type :: u64
  cm_payload :: ByteBuffer

record ControlMessageResult =
  cmr_status :: DecodeStatus
  cmr_message :: ControlMessage
  cmr_bytes :: nat

definition no_message :: ControlMessageResult where
  "no_message = \<lparr>cmr_status = NeedMoreData, cmr_message = \<lparr>cm_type = 0, cm_payload = []\<rparr>, cmr_bytes = 0\<rparr>"

definition encode_control_message :: "u64 \<Rightarrow> ByteBuffer \<Rightarrow> exn + ByteBuffer" where
  "encode_control_message type payload =
     (if length payload > 65535
      then Inl (length_error ''MOQT control message payload exceeds 65535 bytes'')
      else Inr (write_varint [] type
             @ [ucast (drop_bit 8 (word_of_nat (length payload) :: u64)), ucast (word_of_nat (length payload) :: u64)]
             @ payload))"

definition read_control_message :: "ByteBuffer \<Rightarrow> nat \<Rightarrow> ControlMessageResult" where
  "read_control_message bytes offset =
     (let type = read_varint bytes offset
      in if vr_status type \<noteq> Done \<or> length bytes - offset < vr_bytes type + 2 then no_message
         else let length_offset = offset + vr_bytes type;
                  len = (push_bit 8 (ucast (bytes ! length_offset)) OR ucast (bytes ! (length_offset + 1)) :: u16);
                  frame_size = vr_bytes type + 2 + unat len
           in if length bytes - offset < frame_size then no_message
              else \<lparr>cmr_status = Done,
                    cmr_message = \<lparr>cm_type = vr_value type,
                                   cm_payload = take (unat len) (drop (length_offset + 2) bytes)\<rparr>,
                    cmr_bytes = frame_size\<rparr>)"

section \<open>SETUP\<close>

datatype SetupOption = Path | Authority | MoqtImplementation

fun setup_option_type :: "SetupOption \<Rightarrow> u64" where
  "setup_option_type Path = 0x01"
| "setup_option_type Authority = 0x05"
| "setup_option_type MoqtImplementation = 0x07"

fun encode_setup_loop :: "ByteBuffer \<Rightarrow> u64 \<Rightarrow> (SetupOption \<times> string) list \<Rightarrow> ByteBuffer" where
  "encode_setup_loop payload previous [] = payload"
| "encode_setup_loop payload previous ((option, text) # options) =
     (if text = [] then encode_setup_loop payload previous options
      else encode_setup_loop
             (write_varint (write_varint payload (setup_option_type option - previous))
                (word_of_nat (length text)) @ bytes_of_string text)
             (setup_option_type option) options)"

definition encode_setup :: "string \<Rightarrow> string \<Rightarrow> exn + ByteBuffer" where
  "encode_setup authority path =
     encode_control_message kMessageSetup
       (encode_setup_loop [] 0
          [(Path, path), (Authority, authority), (MoqtImplementation, ''kota-moqtopus'')])"

lemma Reader_varint_decreases: "Reader_varint c = Inr (x, c') \<Longrightarrow> remaining c' < remaining c"
  using read_varint_Done_bounds [of "cur_bytes c" "cur_offset c"]
  by (auto simp: Reader_varint_def of_option_def cursor_varint_def remaining_def Let_def
      split: option.splits if_splits)

lemma Reader_string_decreases: "Reader_string n c = Inr (x, c') \<Longrightarrow> remaining c' < remaining c"
proof -
  assume "Reader_string n c = Inr (x, c')"
  then obtain sz c1 where 1: "Reader_varint c = Inr (sz, c1)" and 2: "read_string (unat sz) c1 = Some (x, c')"
    by (auto simp: Reader_string_def rbind_eq_Inr of_option_def split: option.splits)
  from 2 have "remaining c' \<le> remaining c1"
    by (auto simp: read_string_def read_view_def remaining_def split: option.splits if_splits)
  with Reader_varint_decreases [OF 1] show ?thesis by simp
qed

text \<open>The loop \<^verbatim>\<open>while (reader.remaining())\<close> of \<open>decode_setup\<close>.\<close>

function decode_setup_loop :: "u64 \<Rightarrow> unit reader" where
  "decode_setup_loop type c =
     (if remaining c = 0 then Inr ((), c)
      else case Reader_varint c of
        Inl e \<Rightarrow> Inl e
      | Inr (delta, c1) \<Rightarrow>
          if \<not> delta \<le> u64_max - type then Inl ''SETUP option type overflow''
          else if (type + delta) AND 1 \<noteq> 0
          then (case Reader_string 65535 c1 of Inl e \<Rightarrow> Inl e | Inr (_, c2) \<Rightarrow> decode_setup_loop (type + delta) c2)
          else (case Reader_varint c1 of Inl e \<Rightarrow> Inl e | Inr (_, c2) \<Rightarrow> decode_setup_loop (type + delta) c2))"
  by pat_completeness auto
termination
  by (relation "measure (\<lambda>(type, c). remaining c)")
    (auto dest!: Reader_varint_decreases Reader_string_decreases)

declare decode_setup_loop.simps [simp del]

definition decode_setup :: "ByteBuffer \<Rightarrow> string + unit" where
  "decode_setup payload = decode (decode_setup_loop 0) payload"

section \<open>Requests and responses\<close>

record SubscribeRequest =
  sr_namespace :: TrackNamespace
  sr_name :: TrackName
  sr_parameters :: "Parameter list"

record Subscribe =
  sub_request_id :: RequestId
  sub_namespace :: TrackNamespace
  sub_name :: TrackName
  sub_parameters :: "Parameter list"

record SubscribeOk =
  ok_track_alias :: TrackAlias
  ok_parameters :: "Parameter list"
  ok_properties :: ObjectProperties

record RequestUpdateMessage =
  rum_request_id :: RequestId
  rum_parameters :: "Parameter list"

record RequestOk =
  rok_parameters :: "Parameter list"
  rok_properties :: ObjectProperties

record RequestError =
  re_code :: RequestErrorCode
  re_retry_interval :: u64
  re_reason :: string

record PublishDone =
  pd_status_code :: u64
  pd_stream_count :: u64
  pd_reason :: string

definition encode_subscribe :: "RequestId \<Rightarrow> SubscribeRequest \<Rightarrow> exn + ByteBuffer" where
  "encode_subscribe request_id request =
     ebind (write_track_namespace (write_varint [] request_id) (sr_namespace request)) (\<lambda>payload.
     ebind (encode_parameters
              (write_varint payload (word_of_nat (length (sr_name request))) @ bytes_of_string (sr_name request))
              (sr_parameters request)) (\<lambda>payload.
     encode_control_message kMessageSubscribe payload))"

definition parse_subscribe :: "Subscribe reader" where
  "parse_subscribe =
     rbind Reader_varint (\<lambda>request_id.
     rbind Reader_track_namespace (\<lambda>track_namespace.
     rbind (Reader_string 4096) (\<lambda>track_name.
     rbind Reader_parameters (\<lambda>parameters.
     rreturn \<lparr>sub_request_id = request_id, sub_namespace = track_namespace, sub_name = track_name,
              sub_parameters = parameters\<rparr>))))"

definition decode_subscribe :: "ByteBuffer \<Rightarrow> string + Subscribe" where
  "decode_subscribe payload = decode parse_subscribe payload"

text \<open>\<^verbatim>\<open>reader.view(reader.remaining())\<close>: the rest of the payload.\<close>

definition Reader_rest :: "ByteBuffer reader" where
  "Reader_rest = rbind rremaining Reader_view"

definition parse_subscribe_ok :: "SubscribeOk reader" where
  "parse_subscribe_ok =
     rbind Reader_varint (\<lambda>track_alias.
     rbind Reader_parameters (\<lambda>parameters.
     rbind Reader_rest (\<lambda>track_properties.
     rreturn \<lparr>ok_track_alias = track_alias, ok_parameters = parameters, ok_properties = track_properties\<rparr>)))"

definition decode_subscribe_ok :: "ByteBuffer \<Rightarrow> string + SubscribeOk" where
  "decode_subscribe_ok payload = decode parse_subscribe_ok payload"

definition encode_subscribe_ok :: "TrackAlias \<Rightarrow> Parameter list \<Rightarrow> ObjectProperties \<Rightarrow> exn + ByteBuffer" where
  "encode_subscribe_ok track_alias parameters track_properties =
     ebind (encode_parameters (write_varint [] track_alias) parameters) (\<lambda>payload.
     encode_control_message kMessageSubscribeOk (payload @ track_properties))"

definition encode_request_update :: "RequestId \<Rightarrow> Parameter list \<Rightarrow> exn + ByteBuffer" where
  "encode_request_update request_id parameters =
     ebind (encode_parameters (write_varint [] request_id) parameters) (\<lambda>payload.
     encode_control_message kMessageRequestUpdate payload)"

definition parse_request_update :: "RequestUpdateMessage reader" where
  "parse_request_update =
     rbind Reader_varint (\<lambda>request_id.
     rbind Reader_parameters (\<lambda>parameters.
     rreturn \<lparr>rum_request_id = request_id, rum_parameters = parameters\<rparr>))"

definition decode_request_update :: "ByteBuffer \<Rightarrow> string + RequestUpdateMessage" where
  "decode_request_update payload = decode parse_request_update payload"

definition parse_request_ok :: "RequestOk reader" where
  "parse_request_ok =
     rbind Reader_parameters (\<lambda>parameters.
     rbind Reader_rest (\<lambda>track_properties.
     rreturn \<lparr>rok_parameters = parameters, rok_properties = track_properties\<rparr>))"

definition decode_request_ok :: "ByteBuffer \<Rightarrow> string + RequestOk" where
  "decode_request_ok payload = decode parse_request_ok payload"

definition encode_request_ok :: "Parameter list \<Rightarrow> exn + ByteBuffer" where
  "encode_request_ok parameters =
     ebind (encode_parameters [] parameters) (\<lambda>payload. encode_control_message kMessageRequestOk payload)"

definition encode_request_error :: "RequestErrorCode \<Rightarrow> string \<Rightarrow> u64 \<Rightarrow> exn + ByteBuffer" where
  "encode_request_error code reason retry_interval =
     encode_control_message kMessageRequestError
       (write_varint (write_varint (write_varint [] code) retry_interval) (word_of_nat (length reason))
          @ bytes_of_string reason)"

definition parse_request_error :: "RequestError reader" where
  "parse_request_error =
     rbind Reader_varint (\<lambda>code.
     rbind Reader_varint (\<lambda>retry_interval.
     rbind (Reader_string 1024) (\<lambda>reason.
     rbind (if code = RequestError_Redirect then rbind Reader_rest (\<lambda>_. rreturn ()) else rreturn ()) (\<lambda>_.
     rreturn \<lparr>re_code = code, re_retry_interval = retry_interval, re_reason = reason\<rparr>))))"

definition decode_request_error :: "ByteBuffer \<Rightarrow> string + RequestError" where
  "decode_request_error payload = decode parse_request_error payload"

definition parse_publish_done :: "PublishDone reader" where
  "parse_publish_done =
     rbind Reader_varint (\<lambda>status_code.
     rbind Reader_varint (\<lambda>stream_count.
     rbind (Reader_string 1024) (\<lambda>reason.
     rreturn \<lparr>pd_status_code = status_code, pd_stream_count = stream_count, pd_reason = reason\<rparr>)))"

definition decode_publish_done :: "ByteBuffer \<Rightarrow> string + PublishDone" where
  "decode_publish_done payload = decode parse_publish_done payload"

definition encode_publish_done :: "u64 \<Rightarrow> u64 \<Rightarrow> string \<Rightarrow> exn + ByteBuffer" where
  "encode_publish_done status_code stream_count reason =
     encode_control_message kMessagePublishDone
       (write_varint (write_varint (write_varint [] status_code) stream_count) (word_of_nat (length reason))
          @ bytes_of_string reason)"

definition encode_publish_namespace :: "RequestId \<Rightarrow> TrackNamespace \<Rightarrow> exn + ByteBuffer" where
  "encode_publish_namespace request_id track_namespace =
     ebind (write_track_namespace (write_varint [] request_id) track_namespace) (\<lambda>payload.
     encode_control_message kMessagePublishNamespace (write_varint payload 0))"

section \<open>Subscription options\<close>

record SubscriptionFilter =
  sf_filter_type :: u64
  sf_start :: Location
  sf_end_group_delta :: u64

record SubscriptionOptions =
  so_forward :: "byte option"
  so_filter :: "SubscriptionFilter option"
  so_subgroup_delivery_timeout :: "u64 option"
  so_object_delivery_timeout :: "u64 option"

definition no_options :: SubscriptionOptions where
  "no_options = \<lparr>so_forward = None, so_filter = None, so_subgroup_delivery_timeout = None,
     so_object_delivery_timeout = None\<rparr>"

definition parse_filter :: "SubscriptionFilter reader" where
  "parse_filter =
     rbind Reader_varint (\<lambda>sz.
     rbind rremaining (\<lambda>left.
     rbind (require (unat sz = left) ''invalid SUBSCRIPTION_FILTER length'') (\<lambda>_.
     rbind Reader_varint (\<lambda>filter_type.
     rbind (require (filter_type \<ge> kFilterNextGroupStart \<and> filter_type \<le> kFilterAbsoluteRange)
              ''unknown subscription filter type'') (\<lambda>_.
     rbind (if filter_type \<ge> kFilterAbsoluteStart
            then rbind Reader_varint (\<lambda>g. rbind Reader_varint (\<lambda>ob. rreturn \<lparr>loc_group = g, loc_object = ob\<rparr>))
            else rreturn \<lparr>loc_group = 0, loc_object = 0\<rparr>) (\<lambda>start.
     rbind (if filter_type = kFilterAbsoluteRange then Reader_varint else rreturn 0) (\<lambda>end_group_delta.
     rbind (require (end_group_delta \<le> u64_max - loc_group start) ''SUBSCRIPTION_FILTER End Group overflows'') (\<lambda>_.
     rreturn \<lparr>sf_filter_type = filter_type, sf_start = start, sf_end_group_delta = end_group_delta\<rparr>))))))))"

definition parse_option :: "Parameter \<Rightarrow> SubscriptionOptions \<Rightarrow> SubscriptionOptions reader" where
  "parse_option parameter options =
     (if par_type parameter = kParameterForward then
        rbind Reader_byte (\<lambda>forward.
        rbind (require (forward \<le> 1) ''invalid FORWARD parameter'') (\<lambda>_.
        rreturn (options\<lparr>so_forward := Some forward\<rparr>)))
      else if par_type parameter = kParameterGroupOrder then
        rbind Reader_byte (\<lambda>order.
        rbind (require (order = 1 \<or> order = 2) ''invalid GROUP_ORDER parameter'') (\<lambda>_.
        rreturn options))
      else if par_type parameter = kParameterSubscriptionFilter then
        rbind parse_filter (\<lambda>filter. rreturn (options\<lparr>so_filter := Some filter\<rparr>))
      else if par_type parameter = kParameterSubgroupDeliveryTimeout then
        rbind Reader_varint (\<lambda>t. rreturn (options\<lparr>so_subgroup_delivery_timeout := Some t\<rparr>))
      else if par_type parameter = kParameterObjectDeliveryTimeout then
        rbind Reader_varint (\<lambda>t. rreturn (options\<lparr>so_object_delivery_timeout := Some t\<rparr>))
      else rbind Reader_rest (\<lambda>_. rreturn options))"

text \<open>
  The callers discard the out-parameter when the function returns \<^verbatim>\<open>false\<close>, so a
  failure is just the error text.
\<close>

fun decode_subscription_options :: "Parameter list \<Rightarrow> SubscriptionOptions \<Rightarrow> string + SubscriptionOptions" where
  "decode_subscription_options [] options = Inr options"
| "decode_subscription_options (parameter # parameters) options =
     (case decode (parse_option parameter options) (par_value parameter) of
        Inl e \<Rightarrow> Inl e
      | Inr options' \<Rightarrow> decode_subscription_options parameters options')"

end
