(* ===== verification/Transport.thy ===== *)
theory Transport
  imports Codec_Control
begin

text \<open>
  The transport layer: \<^verbatim>\<open>src/stream_context.cpp\<close> and the part of
  \<^verbatim>\<open>src/msquic_transport_adapter.cpp\<close> the sessions call. MsQuic itself is a
  parameter: \<open>tp_answer n\<close> says whether the \<open>n\<close>-th call that can fail succeeds, and
  \<open>tp_status n\<close> is the text of its status. Everything the code asks of MsQuic or of the
  application is appended to a log, in order.
\<close>

section \<open>Streams and the log\<close>

type_synonym stream_ref = nat

text \<open>
  \<^verbatim>\<open>std::shared_ptr<StreamSink>\<close>: the sinks the code installs on a stream.
  There is at most one receiver, gate or request per stream, so a sink is named by its kind and
  its state is kept by the component that owns it, under the stream or the Request ID.
\<close>

datatype sink =
    PeerStreamGateSink
  | SubgroupReceiverSink
  | SubscriberRequestSink RequestId
  | PublisherRequestSink RequestId
  | AnnouncementSink string

record StreamContext =
  sc_handle :: bool
  sc_unidirectional :: bool
  sc_id :: u64
  sc_sink :: "sink option"

datatype DeliveryKind = SubgroupStream | Datagram | FetchStream

record Object =
  obj_request_id :: RequestId
  obj_track_alias :: TrackAlias
  obj_group_id :: GroupId
  obj_subgroup_id :: "SubgroupId option"
  obj_object_id :: ObjectId
  obj_publisher_priority :: byte
  obj_status :: "ObjectStatusCode option"
  obj_properties :: ByteBuffer
  obj_payload :: ByteBuffer
  obj_delivery_kind :: DeliveryKind
  obj_stream_id :: u64

text \<open>
  Beside calls and callbacks the log records what the language leaves undefined or fatal:
  \<open>StdTerminate\<close> is an exception nobody catches, \<open>DanglingRead\<close> a read of a
  subscription that has been erased.
\<close>

datatype effect =
    StreamOpened stream_ref bool
  | StreamSent stream_ref ByteBuffer bool
  | AbortedReceive stream_ref u64
  | AbortedSend stream_ref u64
  | FinishedSend stream_ref
  | StreamClosed stream_ref
  | DatagramSent ByteBuffer
  | ConnectionShutdown u64
  | OnObject Object
  | OnPublishDone RequestId PublishDone
  | OnError RequestId string
  | StdTerminate
  | DanglingRead RequestId

record transport =
  tp_answer :: "nat \<Rightarrow> bool"
  tp_status :: "nat \<Rightarrow> string"
  tp_calls :: nat
  tp_streams :: "stream_ref \<rightharpoonup> StreamContext"
  tp_next_stream :: stream_ref
  tp_registered :: "stream_ref list"
  tp_alive :: bool
  tp_shutdown_requested :: bool
  tp_log :: "effect list"

definition emit :: "effect \<Rightarrow> 'a transport_scheme \<Rightarrow> 'a transport_scheme" where
  "emit e w = w\<lparr>tp_log := tp_log w @ [e]\<rparr>"

text \<open>One call into MsQuic that may fail.\<close>

definition quic_call :: "'a transport_scheme \<Rightarrow> bool \<times> 'a transport_scheme" where
  "quic_call w = (tp_answer w (tp_calls w), w\<lparr>tp_calls := tp_calls w + 1\<rparr>)"

definition quic_status :: "'a transport_scheme \<Rightarrow> string" where
  "quic_status w = tp_status w (tp_calls w)"

definition has_handle :: "'a transport_scheme \<Rightarrow> stream_ref \<Rightarrow> bool" where
  "has_handle w st = (case tp_streams w st of None \<Rightarrow> False | Some c \<Rightarrow> sc_handle c)"

definition stream_id :: "'a transport_scheme \<Rightarrow> stream_ref \<Rightarrow> u64" where
  "stream_id w st = (case tp_streams w st of None \<Rightarrow> 0 | Some c \<Rightarrow> sc_id c)"

definition unidirectional :: "'a transport_scheme \<Rightarrow> stream_ref \<Rightarrow> bool" where
  "unidirectional w st = (case tp_streams w st of None \<Rightarrow> False | Some c \<Rightarrow> sc_unidirectional c)"

section \<open>StreamContext\<close>

definition set_sink :: "stream_ref \<Rightarrow> sink option \<Rightarrow> 'a transport_scheme \<Rightarrow> 'a transport_scheme" where
  "set_sink st k w = w\<lparr>tp_streams := (tp_streams w)(st := map_option (\<lambda>c. c\<lparr>sc_sink := k\<rparr>) (tp_streams w st))\<rparr>"

definition send :: "stream_ref \<Rightarrow> ByteBuffer \<Rightarrow> bool \<Rightarrow> 'a transport_scheme \<Rightarrow> bool \<times> 'a transport_scheme" where
  "send st bytes fin w =
     (if \<not> has_handle w st then (False, w)
      else case quic_call w of (ok, w) \<Rightarrow>
        if \<not> ok then (False, w) else (True, emit (StreamSent st bytes fin) w))"

definition abort_receive :: "stream_ref \<Rightarrow> u64 \<Rightarrow> 'a transport_scheme \<Rightarrow> 'a transport_scheme" where
  "abort_receive st error_code w = (if has_handle w st then emit (AbortedReceive st error_code) w else w)"

definition finish_send :: "stream_ref \<Rightarrow> 'a transport_scheme \<Rightarrow> bool \<times> 'a transport_scheme" where
  "finish_send st w =
     (if \<not> has_handle w st then (False, w)
      else case quic_call w of (ok, w) \<Rightarrow>
        if \<not> ok then (False, w) else (True, emit (FinishedSend st) w))"

definition abort_send :: "stream_ref \<Rightarrow> u64 \<Rightarrow> 'a transport_scheme \<Rightarrow> 'a transport_scheme" where
  "abort_send st error_code w = (if has_handle w st then emit (AbortedSend st error_code) w else w)"

section \<open>MsQuicTransportAdapter\<close>

definition remove_stream :: "stream_ref \<Rightarrow> 'a transport_scheme \<Rightarrow> 'a transport_scheme" where
  "remove_stream st w = w\<lparr>tp_registered := removeAll st (tp_registered w)\<rparr>"

text \<open>The stream the constructor \<^verbatim>\<open>StreamContext(adapter, handle, unidirectional)\<close> makes, entered in \<open>streams_\<close>.\<close>

definition new_stream :: "bool \<Rightarrow> u64 \<Rightarrow> 'a transport_scheme \<Rightarrow> stream_ref \<times> 'a transport_scheme" where
  "new_stream uni sid w =
     (tp_next_stream w,
      w\<lparr>tp_streams := (tp_streams w)(tp_next_stream w \<mapsto>
            \<lparr>sc_handle = True, sc_unidirectional = uni, sc_id = sid, sc_sink = None\<rparr>),
        tp_next_stream := tp_next_stream w + 1,
        tp_registered := tp_next_stream w # tp_registered w\<rparr>)"

definition close_handle :: "stream_ref \<Rightarrow> 'a transport_scheme \<Rightarrow> 'a transport_scheme" where
  "close_handle st w =
     emit (StreamClosed st)
       (w\<lparr>tp_streams := (tp_streams w)(st := map_option (\<lambda>c. c\<lparr>sc_handle := False\<rparr>) (tp_streams w st))\<rparr>)"

definition open_stream :: "bool \<Rightarrow> 'a transport_scheme \<Rightarrow> (exn + stream_ref) \<times> 'a transport_scheme" where
  "open_stream uni w =
     (let text = quic_status w in
      case quic_call w of (opened, w) \<Rightarrow>
        if \<not> opened then (Inl (runtime_error (''StreamOpen failed: '' @ text)), w)
        else case new_stream uni 0 w of (st, w) \<Rightarrow>
          let text = quic_status w in
          case quic_call w of (started, w) \<Rightarrow>
            if \<not> started
            then (Inl (runtime_error (''StreamStart failed: '' @ text)), close_handle st (remove_stream st w))
            else (Inr st, emit (StreamOpened st uni) w))"

definition send_datagram :: "ByteBuffer \<Rightarrow> 'a transport_scheme \<Rightarrow> bool \<times> 'a transport_scheme" where
  "send_datagram bytes w =
     (case quic_call w of (ok, w) \<Rightarrow> if \<not> ok then (False, w) else (True, emit (DatagramSent bytes) w))"

definition shutdown :: "u64 \<Rightarrow> 'a transport_scheme \<Rightarrow> 'a transport_scheme" where
  "shutdown error_code w = emit (ConnectionShutdown error_code) (w\<lparr>tp_shutdown_requested := True\<rparr>)"

end
