(* ===== verification/Codec_Objects.thy ===== *)
theory Codec_Objects
  imports Codec_Control
begin

text \<open>
  The data plane's wire format of \<^verbatim>\<open>src/codec/codec.cpp\<close>: object datagrams,
  the header of a subgroup stream and the objects on it. A \<^verbatim>\<open>BytesView\<close> is the list
  of the bytes it shows.
\<close>

abbreviation (input) kObjectStatusNormal :: u64 where "kObjectStatusNormal \<equiv> 0x0"
abbreviation (input) kObjectStatusEndOfGroup :: u64 where "kObjectStatusEndOfGroup \<equiv> 0x3"
abbreviation (input) kObjectStatusEndOfTrack :: u64 where "kObjectStatusEndOfTrack \<equiv> 0x4"

definition is_subgroup_stream_type :: "u64 \<Rightarrow> bool" where
  "is_subgroup_stream_type type =
     (if type AND 0x10 = 0 \<or> type > 0x7f then False
      else drop_bit 1 (type AND 0x06) \<noteq> 0x03)"

definition datagram_type :: "ByteBuffer \<Rightarrow> ObjectStatusCode option \<Rightarrow> bool \<Rightarrow> ObjectId \<Rightarrow> u64" where
  "datagram_type properties status end_of_group object_id =
     (let type = (0 :: u64);
          type = (if properties \<noteq> [] then type OR 0x01 else type);
          type = (if status \<noteq> None then type OR 0x20 else if end_of_group then type OR 0x02 else type)
      in if object_id = 0 then type OR 0x04 else type)"

definition encode_object_datagram ::
  "TrackAlias \<Rightarrow> GroupId \<Rightarrow> ObjectId \<Rightarrow> byte \<Rightarrow> ByteBuffer \<Rightarrow> ObjectStatusCode option \<Rightarrow> ByteBuffer \<Rightarrow> bool \<Rightarrow> ByteBuffer" where
  "encode_object_datagram track_alias group_id object_id priority properties status payload end_of_group =
     (let out = write_varint [] (datagram_type properties status end_of_group object_id);
          out = write_varint out track_alias;
          out = write_varint out group_id;
          out = (if object_id \<noteq> 0 then write_varint out object_id else out);
          out = out @ [priority];
          out = (if properties \<noteq> [] then write_varint out (word_of_nat (length properties)) @ properties else out)
      in case status of Some s \<Rightarrow> write_varint out s | None \<Rightarrow> out @ payload)"

definition encode_subgroup_header :: "ByteBuffer \<Rightarrow> TrackAlias \<Rightarrow> GroupId \<Rightarrow> SubgroupId \<Rightarrow> byte \<Rightarrow> ByteBuffer" where
  "encode_subgroup_header out track_alias group_id subgroup_id priority =
     (let subgroup_id_mode = (if subgroup_id = 0 then 0x0 else 0x2 :: u64);
          type = 0x10 OR 0x01 OR push_bit 1 subgroup_id_mode;
          out = write_varint out type;
          out = write_varint out track_alias;
          out = write_varint out group_id;
          out = (if subgroup_id \<noteq> 0 then write_varint out subgroup_id else out)
      in out @ [priority])"

definition encode_subgroup_object ::
  "ByteBuffer \<Rightarrow> u64 \<Rightarrow> ByteBuffer \<Rightarrow> ObjectStatusCode option \<Rightarrow> ByteBuffer \<Rightarrow> ByteBuffer" where
  "encode_subgroup_object out object_id_delta properties status payload =
     (let out = write_varint out object_id_delta;
          out = write_varint out (word_of_nat (length properties)) @ properties
      in if status \<noteq> None \<or> payload = []
         then write_varint (write_varint out 0) (case status of Some s \<Rightarrow> s | None \<Rightarrow> kObjectStatusNormal)
         else write_varint out (word_of_nat (length payload)) @ payload)"

end
