(* ===== verification/Session.thy ===== *)
theory Session
  imports Transport Codec_Objects
begin

text \<open>
  \<^verbatim>\<open>src/session.cpp\<close>: the connection lifetime shared by publisher and subscriber.
  The virtual functions of the class are arguments of the definitions that call them, collected
  in the record \<open>role\<close>; \<open>Subscriber\<close> and \<open>Publisher\<close> supply them. Every
  member function runs under the session lock, so each is one atomic state change.
\<close>

section \<open>State\<close>

datatype SessionPhase = Init | SetupInProgress | Ready | Closing | Closed

fun phase_rank :: "SessionPhase \<Rightarrow> nat" where
  "phase_rank Init = 0"
| "phase_rank SetupInProgress = 1"
| "phase_rank Ready = 2"
| "phase_rank Closing = 3"
| "phase_rank Closed = 4"

text \<open>The enumeration is compared with \<^verbatim>\<open>>=\<close>, in the order of its declaration.\<close>

instantiation SessionPhase :: linorder
begin

definition less_eq_SessionPhase :: "SessionPhase \<Rightarrow> SessionPhase \<Rightarrow> bool" where
  "less_eq_SessionPhase a b = (phase_rank a \<le> phase_rank b)"

definition less_SessionPhase :: "SessionPhase \<Rightarrow> SessionPhase \<Rightarrow> bool" where
  "less_SessionPhase a b = (phase_rank a < phase_rank b)"

instance
proof
  fix a b c :: SessionPhase
  show "(a < b) = (a \<le> b \<and> \<not> b \<le> a)" by (auto simp: less_eq_SessionPhase_def less_SessionPhase_def)
  show "a \<le> a" by (simp add: less_eq_SessionPhase_def)
  show "a \<le> b \<Longrightarrow> b \<le> c \<Longrightarrow> a \<le> c" by (simp add: less_eq_SessionPhase_def)
  show "a \<le> b \<Longrightarrow> b \<le> a \<Longrightarrow> a = b" by (cases a; cases b) (simp_all add: less_eq_SessionPhase_def)
  show "a \<le> b \<or> b \<le> a" by (auto simp: less_eq_SessionPhase_def)
qed

end

lemmas phase_order = less_eq_SessionPhase_def less_SessionPhase_def

abbreviation (input) Close_NoError :: u64 where "Close_NoError \<equiv> 0x0"
abbreviation (input) Close_InternalError :: u64 where "Close_InternalError \<equiv> 0x1"
abbreviation (input) Close_ProtocolViolation :: u64 where "Close_ProtocolViolation \<equiv> 0x3"
abbreviation (input) Close_InvalidRequestId :: u64 where "Close_InvalidRequestId \<equiv> 0x4"
abbreviation (input) Close_DuplicateTrackAlias :: u64 where "Close_DuplicateTrackAlias \<equiv> 0x5"

text \<open>Promises: each has a number; a promise is settled once, by a value or an exception.\<close>

type_synonym promise = nat

datatype promise_error = PError string | PRejected RequestError

datatype promise_value = ReadyValue | SubscriptionValue RequestId TrackAlias | UpdateValue RequestOk

datatype promise_state = Pending | Fulfilled promise_value | Failed promise_error

datatype GateMode = Classify | GateDone | Padding

record PeerStreamGate =
  g_mode :: GateMode
  g_bytes :: ByteBuffer

text \<open>The idle timeout is a number of milliseconds.\<close>

record MsQuicClientConfig =
  cfg_host :: string
  cfg_port :: u16
  cfg_server_name :: string
  cfg_authority :: string
  cfg_path :: string
  cfg_disable_certificate_validation :: bool
  cfg_idle_timeout :: int

record session = transport +
  se_config :: MsQuicClientConfig
  se_phase :: SessionPhase
  se_local_setup_sent :: bool
  se_peer_setup_received :: bool
  se_negotiated_version :: "string option"
  se_close_reason :: "(u64 \<times> string) option"
  se_next_request_id :: RequestId
  se_promises :: "promise \<rightharpoonup> promise_state"
  se_next_promise :: promise
  se_ready_waiters :: "promise list"
  se_gates :: "stream_ref \<rightharpoonup> PeerStreamGate"

text \<open>The default member initialisers of \<^verbatim>\<open>MsQuicClientConfig\<close>.\<close>

definition default_config :: MsQuicClientConfig where
  "default_config = \<lparr>cfg_host = [], cfg_port = 0, cfg_server_name = [], cfg_authority = [], cfg_path = ''/'',
     cfg_disable_certificate_validation = True, cfg_idle_timeout = 30000\<rparr>"

lemma default_config_path [simp]: "cfg_path default_config = ''/''"
  by (simp add: default_config_def)

section \<open>Promises\<close>

definition new_promise :: "'a session_scheme \<Rightarrow> promise \<times> 'a session_scheme" where
  "new_promise w =
     (se_next_promise w,
      w\<lparr>se_promises := (se_promises w)(se_next_promise w \<mapsto> Pending), se_next_promise := se_next_promise w + 1\<rparr>)"

text \<open>
  \<^verbatim>\<open>set_value\<close> on a settled promise throws \<^verbatim>\<open>std::future_error\<close>; none
  of its call sites catches it, so the process ends.
\<close>

definition set_value :: "promise \<Rightarrow> promise_value \<Rightarrow> 'a session_scheme \<Rightarrow> 'a session_scheme" where
  "set_value p v w =
     (if se_promises w p = Some Pending then w\<lparr>se_promises := (se_promises w)(p \<mapsto> Fulfilled v)\<rparr>
      else emit StdTerminate w)"

text \<open>\<open>Session::fail\<close> swallows the \<^verbatim>\<open>std::future_error\<close> of a settled promise.\<close>

definition fail :: "promise \<Rightarrow> promise_error \<Rightarrow> 'a session_scheme \<Rightarrow> 'a session_scheme" where
  "fail p e w =
     (if se_promises w p = Some Pending then w\<lparr>se_promises := (se_promises w)(p \<mapsto> Failed e)\<rparr> else w)"

section \<open>Closing\<close>

fun fail_all :: "promise list \<Rightarrow> promise_error \<Rightarrow> 'a session_scheme \<Rightarrow> 'a session_scheme" where
  "fail_all [] e w = w"
| "fail_all (p # ps) e w = fail_all ps e (fail p e w)"

fun set_all :: "promise list \<Rightarrow> promise_value \<Rightarrow> 'a session_scheme \<Rightarrow> 'a session_scheme" where
  "set_all [] v w = w"
| "set_all (p # ps) v w = set_all ps v (set_value p v w)"

definition fail_ready_waiters :: "string \<Rightarrow> 'a session_scheme \<Rightarrow> 'a session_scheme" where
  "fail_ready_waiters reason w =
     (fail_all (se_ready_waiters w) (PError reason) w)\<lparr>se_ready_waiters := []\<rparr>"

definition begin_close ::
  "(string \<Rightarrow> 'a session_scheme \<Rightarrow> 'a session_scheme) \<Rightarrow> u64 \<Rightarrow> string \<Rightarrow> 'a session_scheme \<Rightarrow> 'a session_scheme" where
  "begin_close terminate_subscriptions code reason w =
     (if se_phase w \<ge> Closing then w
      else
        let w = w\<lparr>se_phase := Closing, se_close_reason := Some (code, reason)\<rparr>;
            w = fail_ready_waiters (if reason = [] then ''MOQT session closing'' else reason) w;
            w = terminate_subscriptions reason w
        in if tp_alive w then shutdown code w else w)"

definition protocol_violation ::
  "(string \<Rightarrow> 'a session_scheme \<Rightarrow> 'a session_scheme) \<Rightarrow> string \<Rightarrow> 'a session_scheme \<Rightarrow> 'a session_scheme" where
  "protocol_violation terminate_subscriptions error w =
     begin_close terminate_subscriptions Close_ProtocolViolation error w"

definition close ::
  "(string \<Rightarrow> 'a session_scheme \<Rightarrow> 'a session_scheme) \<Rightarrow> u64 \<Rightarrow> 'a session_scheme \<Rightarrow> 'a session_scheme" where
  "close terminate_subscriptions error w = begin_close terminate_subscriptions error ''local close'' w"

text \<open>
  \<open>close_and_wait\<close>: the adapter is moved out of the session; draining it ends in the
  \<open>shutdown_complete\<close> callback, which is a separate step.
\<close>

definition close_and_wait ::
  "(string \<Rightarrow> 'a session_scheme \<Rightarrow> 'a session_scheme) \<Rightarrow> 'a session_scheme \<Rightarrow> 'a session_scheme" where
  "close_and_wait terminate_subscriptions w =
     (begin_close terminate_subscriptions Close_NoError ''local close'' w)\<lparr>tp_alive := False\<rparr>"

section \<open>Setup\<close>

definition kAlpn :: string where
  "kAlpn = ''moqt-18''"

definition ready :: "'a session_scheme \<Rightarrow> promise \<times> 'a session_scheme" where
  "ready w =
     (case new_promise w of (p, w) \<Rightarrow>
        (p, if se_phase w = Ready then set_value p ReadyValue w
            else if se_phase w \<ge> Closing then fail p (PError ''MOQT session closed before SETUP completed'') w
            else w\<lparr>se_ready_waiters := se_ready_waiters w @ [p]\<rparr>))"

definition maybe_ready :: "('a session_scheme \<Rightarrow> 'a session_scheme) \<Rightarrow> 'a session_scheme \<Rightarrow> 'a session_scheme" where
  "maybe_ready on_ready w =
     (if \<not> se_local_setup_sent w \<or> \<not> se_peer_setup_received w \<or> se_phase w \<ge> Ready then w
      else
        let w = w\<lparr>se_phase := Ready, se_negotiated_version := Some kAlpn\<rparr>;
            w = (set_all (se_ready_waiters w) ReadyValue w)\<lparr>se_ready_waiters := []\<rparr>
        in on_ready w)"

definition handle_peer_setup :: "('a session_scheme \<Rightarrow> 'a session_scheme) \<Rightarrow> 'a session_scheme \<Rightarrow> 'a session_scheme" where
  "handle_peer_setup on_ready w = maybe_ready on_ready (w\<lparr>se_peer_setup_received := True\<rparr>)"

definition exn_what :: "exn \<Rightarrow> string" where
  "exn_what e = (case e of invalid_argument m \<Rightarrow> m | length_error m \<Rightarrow> m | out_of_range m \<Rightarrow> m | overflow_error m \<Rightarrow> m
     | runtime_error m \<Rightarrow> m | future_error \<Rightarrow> ''std::future_error'')"

definition setup_authority :: "MsQuicClientConfig \<Rightarrow> string" where
  "setup_authority c =
     (if cfg_authority c = [] then cfg_host c @ '':'' @ to_string (unat (cfg_port c)) else cfg_authority c)"

text \<open>The callback \<^verbatim>\<open>connected\<close>; an exception on the way closes the session.\<close>

definition connected ::
  "(string \<Rightarrow> 'a session_scheme \<Rightarrow> 'a session_scheme) \<Rightarrow> ('a session_scheme \<Rightarrow> 'a session_scheme)
     \<Rightarrow> 'a session_scheme \<Rightarrow> 'a session_scheme" where
  "connected terminate_subscriptions on_ready w =
     (if se_phase w \<noteq> Init then w
      else
        let w = w\<lparr>se_phase := SetupInProgress\<rparr> in
        case open_stream True w of
          (Inl e, w) \<Rightarrow> begin_close terminate_subscriptions Close_InternalError (exn_what e) w
        | (Inr st, w) \<Rightarrow>
            (case encode_setup (setup_authority (se_config w)) (cfg_path (se_config w)) of
               Inl e \<Rightarrow> begin_close terminate_subscriptions Close_InternalError (exn_what e) w
             | Inr bytes \<Rightarrow>
                 (case send st bytes False w of
                    (False, w) \<Rightarrow>
                      begin_close terminate_subscriptions Close_InternalError ''StreamSend failed for SETUP'' w
                  | (True, w) \<Rightarrow> maybe_ready on_ready (w\<lparr>se_local_setup_sent := True\<rparr>))))"

definition transport_error ::
  "(string \<Rightarrow> 'a session_scheme \<Rightarrow> 'a session_scheme) \<Rightarrow> string \<Rightarrow> 'a session_scheme \<Rightarrow> 'a session_scheme" where
  "transport_error terminate_subscriptions error w =
     begin_close terminate_subscriptions Close_InternalError error w"

definition shutdown_complete :: "bool \<Rightarrow> 'a session_scheme \<Rightarrow> 'a session_scheme" where
  "shutdown_complete handshake_completed w =
     (let w = (if \<not> handshake_completed \<and> se_close_reason w = None
               then w\<lparr>se_close_reason := Some (Close_InternalError, ''QUIC handshake did not complete'')\<rparr> else w)
      in fail_ready_waiters ''MOQT session closed'' (w\<lparr>se_phase := Closed\<rparr>))"

section \<open>Request IDs\<close>

definition allocate_request_id :: "'a session_scheme \<Rightarrow> (exn + RequestId) \<times> 'a session_scheme" where
  "allocate_request_id w =
     (if se_next_request_id w > u64_max - 2
      then (Inl (overflow_error ''MOQT Request ID space exhausted''), w)
      else (Inr (se_next_request_id w), w\<lparr>se_next_request_id := se_next_request_id w + 2\<rparr>))"

definition known_peer_request_type :: "u64 \<Rightarrow> bool" where
  "known_peer_request_type type =
     (type = kMessageSubscribe \<or> type = kMessagePublish \<or> type = kMessagePublishNamespace
      \<or> type = kMessageTrackStatus \<or> type = kMessageFetch \<or> type = kMessageSubscribeNamespace
      \<or> type = kMessageSubscribeTracks)"

section \<open>The gate of peer streams\<close>

record 'w role =
  role_terminate :: "string \<Rightarrow> 'w \<Rightarrow> 'w"
  role_on_ready :: "'w \<Rightarrow> 'w"
  role_data_stream :: "u64 \<Rightarrow> stream_ref \<Rightarrow> ByteBuffer \<Rightarrow> bool \<Rightarrow> 'w \<Rightarrow> 'w"
  role_peer_request :: "ControlMessage \<Rightarrow> stream_ref \<Rightarrow> ByteBuffer \<Rightarrow> bool \<Rightarrow> 'w \<Rightarrow> 'w"

definition on_peer_stream_started :: "stream_ref \<Rightarrow> 'a session_scheme \<Rightarrow> 'a session_scheme" where
  "on_peer_stream_started st w =
     set_sink st (Some PeerStreamGateSink)
       (w\<lparr>se_gates := (se_gates w)(st \<mapsto> \<lparr>g_mode = Classify, g_bytes = []\<rparr>)\<rparr>)"

definition all_zero :: "ByteBuffer \<Rightarrow> bool" where
  "all_zero bytes = list_all (\<lambda>b. b = 0) bytes"

definition put_gate :: "stream_ref \<Rightarrow> GateMode \<Rightarrow> ByteBuffer \<Rightarrow> 'a session_scheme \<Rightarrow> 'a session_scheme" where
  "put_gate st mode bytes w = w\<lparr>se_gates := (se_gates w)(st \<mapsto> \<lparr>g_mode = mode, g_bytes = bytes\<rparr>)\<rparr>"

text \<open>The part of \<open>on_receive\<close> after the type of a unidirectional stream is known to be SETUP, and for bidirectional streams.\<close>

definition gate_first_message ::
  "('a session_scheme) role \<Rightarrow> stream_ref \<Rightarrow> ByteBuffer \<Rightarrow> bool \<Rightarrow> 'a session_scheme \<Rightarrow> 'a session_scheme" where
  "gate_first_message role st bytes fin w =
     (let frame = read_control_message bytes 0
      in if cmr_status frame \<noteq> Done
         then if fin then protocol_violation (role_terminate role) ''peer stream ended before first message'' w else w
         else if unidirectional w st
         then (let w = put_gate st GateDone bytes w in
               case decode_setup (cm_payload (cmr_message frame)) of
                 Inl e \<Rightarrow> protocol_violation (role_terminate role) e w
               | Inr _ \<Rightarrow> handle_peer_setup (role_on_ready role) (put_gate st GateDone [] w))
         else role_peer_request role (cmr_message frame) st (drop (cmr_bytes frame) bytes) fin
                (put_gate st GateDone [] w))"

definition gate_classify ::
  "('a session_scheme) role \<Rightarrow> stream_ref \<Rightarrow> ByteBuffer \<Rightarrow> bool \<Rightarrow> 'a session_scheme \<Rightarrow> 'a session_scheme" where
  "gate_classify role st bytes fin w =
     (if unidirectional w st
      then let type = read_varint bytes 0
        in if vr_status type \<noteq> Done
           then if fin then protocol_violation (role_terminate role) ''peer unidirectional stream ended before type'' w
                else w
           else if vr_value type = kPaddingStreamType
           then if \<not> all_zero (drop (vr_bytes type) bytes)
                then protocol_violation (role_terminate role) ''padding stream contains non-zero bytes''
                       (put_gate st Padding bytes w)
                else put_gate st Padding [] w
           else if vr_value type \<noteq> kSetupStreamType
           then if vr_value type = kFetchStreamType \<or> is_subgroup_stream_type (vr_value type)
                then role_data_stream role (vr_value type) st bytes fin (put_gate st GateDone [] w)
                else protocol_violation (role_terminate role)
                       (''unknown peer unidirectional stream type '' @ to_string (unat (vr_value type)))
                       (put_gate st GateDone bytes w)
           else gate_first_message role st bytes fin w
      else gate_first_message role st bytes fin w)"

definition gate_on_receive ::
  "('a session_scheme) role \<Rightarrow> stream_ref \<Rightarrow> ByteBuffer list \<Rightarrow> bool \<Rightarrow> 'a session_scheme \<Rightarrow> 'a session_scheme" where
  "gate_on_receive role st chunks fin w =
     (case se_gates w st of
        None \<Rightarrow> w
      | Some gate \<Rightarrow>
          if g_mode gate = GateDone then w
          else if g_mode gate = Padding
          then if list_all all_zero chunks then w
               else protocol_violation (role_terminate role) ''padding stream contains non-zero bytes'' w
          else let bytes = g_bytes gate @ concat chunks
               in gate_classify role st bytes fin (put_gate st Classify bytes w))"

end
