(* ===== verification/Send_Plane.thy ===== *)
theory Send_Plane
  imports Session
begin

text \<open>
  The send side, \<^verbatim>\<open>src/send_data_plane.cpp\<close>: the registered tracks, the state of
  every subscription that is served, its open subgroup streams, and what goes on the wire for a
  published object. The callbacks of the class are arguments, collected in the record
  \<open>send_callbacks\<close>; \<open>Publisher\<close> supplies them.
\<close>

section \<open>State\<close>

record PublishedTrack =
  pt_namespace :: TrackNamespace
  pt_name :: TrackName
  pt_properties :: ObjectProperties

record PublishedObject =
  po_namespace :: TrackNamespace
  po_name :: TrackName
  po_group_id :: GroupId
  po_subgroup_id :: SubgroupId
  po_object_id :: ObjectId
  po_publisher_priority :: byte
  po_properties :: ObjectProperties
  po_payload :: ByteBuffer
  po_status :: "ObjectStatusCode option"
  po_delivery_kind :: DeliveryKind
  po_end_of_subgroup :: bool
  po_end_of_group :: bool

type_synonym TrackKey = "TrackNamespace \<times> TrackName"

text \<open>The set of subscriptions of a track is walked; its order is taken to be that of insertion.\<close>

record TrackEntry =
  te_track :: PublishedTrack
  te_largest :: "Location option"
  te_subscriptions :: "RequestId list"

record OpenSubgroupStream =
  os_stream :: stream_ref
  os_last_object_id :: "ObjectId option"

text \<open>\<^verbatim>\<open>std::map\<close> from group and subgroup: an association list in the order of the keys.\<close>

type_synonym stream_map = "((GroupId \<times> SubgroupId) \<times> OpenSubgroupStream) list"

record SubscriptionSend =
  ss_request_id :: RequestId
  ss_track_alias :: TrackAlias
  ss_track_key :: TrackKey
  ss_forward :: bool
  ss_start :: Location
  ss_end_group :: "GroupId option"
  ss_stream_count :: u64
  ss_streams :: stream_map

record sender = session +
  sp_tracks :: "(TrackKey \<times> TrackEntry) list"
  sp_subscriptions :: "RequestId \<rightharpoonup> SubscriptionSend"

text \<open>\<open>subscription_complete\<close> may leave with an exception.\<close>

record 'w send_callbacks =
  scb_open_data_stream :: "'w \<Rightarrow> stream_ref option \<times> 'w"
  scb_send_datagram :: "ByteBuffer \<Rightarrow> 'w \<Rightarrow> bool \<times> 'w"
  scb_subscription_complete :: "RequestId \<Rightarrow> u64 \<Rightarrow> string \<Rightarrow> 'w \<Rightarrow> exn option \<times> 'w"

section \<open>Ordered maps\<close>

definition key_less :: "GroupId \<times> SubgroupId \<Rightarrow> GroupId \<times> SubgroupId \<Rightarrow> bool" where
  "key_less a b = (fst a < fst b \<or> (fst a = fst b \<and> snd a < snd b))"

text \<open>\<^verbatim>\<open>operator[]\<close> and \<^verbatim>\<open>emplace\<close> of a key that is not there; the value of one that is is replaced.\<close>

fun stream_put :: "GroupId \<times> SubgroupId \<Rightarrow> OpenSubgroupStream \<Rightarrow> stream_map \<Rightarrow> stream_map" where
  "stream_put k v [] = [(k, v)]"
| "stream_put k v ((k', v') # m) =
     (if k = k' then (k, v) # m
      else if key_less k k' then (k, v) # (k', v') # m
      else (k', v') # stream_put k v m)"

definition stream_erase :: "GroupId \<times> SubgroupId \<Rightarrow> stream_map \<Rightarrow> stream_map" where
  "stream_erase k m = filter (\<lambda>e. fst e \<noteq> k) m"

section \<open>Tracks\<close>

definition put_track :: "TrackKey \<Rightarrow> TrackEntry \<Rightarrow> 'a sender_scheme \<Rightarrow> 'a sender_scheme" where
  "put_track key entry w = w\<lparr>sp_tracks := map (\<lambda>e. if fst e = key then (key, entry) else e) (sp_tracks w)\<rparr>"

definition register_track :: "PublishedTrack \<Rightarrow> 'a sender_scheme \<Rightarrow> bool \<times> 'a sender_scheme" where
  "register_track track w =
     (let key = (pt_namespace track, pt_name track)
      in if map_of (sp_tracks w) key \<noteq> None then (False, w)
         else (True, w\<lparr>sp_tracks := sp_tracks w @
                [(key, \<lparr>te_track = track, te_largest = None, te_subscriptions = []\<rparr>)]\<rparr>))"

definition unregister_track :: "TrackKey \<Rightarrow> 'a sender_scheme \<Rightarrow> bool \<times> 'a sender_scheme" where
  "unregister_track key w =
     (map_of (sp_tracks w) key \<noteq> None, w\<lparr>sp_tracks := filter (\<lambda>e. fst e \<noteq> key) (sp_tracks w)\<rparr>)"

definition find_track :: "TrackKey \<Rightarrow> 'a sender_scheme \<Rightarrow> TrackEntry option" where
  "find_track key w = map_of (sp_tracks w) key"

definition has_track_in_namespace :: "TrackNamespace \<Rightarrow> 'a sender_scheme \<Rightarrow> bool" where
  "has_track_in_namespace track_namespace w =
     list_ex (\<lambda>e. pt_namespace (te_track (snd e)) = track_namespace) (sp_tracks w)"

section \<open>Filters\<close>

definition location_less :: "Location \<Rightarrow> Location \<Rightarrow> bool" where
  "location_less left right =
     (loc_group left < loc_group right \<or> (loc_group left = loc_group right \<and> loc_object left < loc_object right))"

text \<open>The sums wrap around at \<^verbatim>\<open>UINT64_MAX\<close>.\<close>

definition resolve_filter :: "SubscriptionFilter \<Rightarrow> Location option \<Rightarrow> Location \<times> GroupId option" where
  "resolve_filter f largest =
     (let type = sf_filter_type f; origin = \<lparr>loc_group = 0, loc_object = 0\<rparr>
      in if type = kFilterLargestObject
         then (case largest of None \<Rightarrow> (origin, None)
               | Some l \<Rightarrow> (\<lparr>loc_group = loc_group l, loc_object = loc_object l + 1\<rparr>, None))
         else if type = kFilterNextGroupStart
         then (case largest of None \<Rightarrow> (origin, None)
               | Some l \<Rightarrow> (\<lparr>loc_group = loc_group l + 1, loc_object = 0\<rparr>, None))
         else if type = kFilterAbsoluteStart then (sf_start f, None)
         else if type = kFilterAbsoluteRange
         then (sf_start f, Some (loc_group (sf_start f) + sf_end_group_delta f))
         else (origin, None))"

definition passes_filter :: "SubscriptionSend \<Rightarrow> GroupId \<Rightarrow> ObjectId \<Rightarrow> bool" where
  "passes_filter subscription group_id object_id =
     (if location_less \<lparr>loc_group = group_id, loc_object = object_id\<rparr> (ss_start subscription) then False
      else case ss_end_group subscription of None \<Rightarrow> True | Some e \<Rightarrow> group_id \<le> e)"

section \<open>Subscriptions\<close>

definition put_subscription :: "RequestId \<Rightarrow> SubscriptionSend \<Rightarrow> 'a sender_scheme \<Rightarrow> 'a sender_scheme" where
  "put_subscription request_id s w = w\<lparr>sp_subscriptions := (sp_subscriptions w)(request_id \<mapsto> s)\<rparr>"

definition nonzero :: "u64 option \<Rightarrow> bool" where
  "nonzero v = (case v of None \<Rightarrow> False | Some x \<Rightarrow> x \<noteq> 0)"

abbreviation (input) RequestError_DoesNotExist :: u64 where "RequestError_DoesNotExist \<equiv> 0x10"
abbreviation (input) RequestError_InvalidRange :: u64 where "RequestError_InvalidRange \<equiv> 0x11"
abbreviation (input) RequestError_ExcessiveLoad :: u64 where "RequestError_ExcessiveLoad \<equiv> 0x9"

definition rejection :: "RequestErrorCode \<Rightarrow> string \<Rightarrow> RequestError" where
  "rejection code reason = \<lparr>re_code = code, re_retry_interval = 0, re_reason = reason\<rparr>"

text \<open>The range of a filter lies behind what has been published already.\<close>

definition range_published :: "GroupId option \<Rightarrow> Location option \<Rightarrow> bool" where
  "range_published end_group largest =
     (case (end_group, largest) of (Some e, Some l) \<Rightarrow> loc_group l > e | _ \<Rightarrow> False)"

definition attach_subscription ::
  "RequestId \<Rightarrow> TrackAlias \<Rightarrow> TrackKey \<Rightarrow> SubscriptionOptions \<Rightarrow> 'a sender_scheme \<Rightarrow> RequestError option \<times> 'a sender_scheme" where
  "attach_subscription request_id track_alias key options w =
     (if nonzero (so_subgroup_delivery_timeout options) \<or> nonzero (so_object_delivery_timeout options)
      then (Some (rejection RequestError_NotSupported ''delivery timeouts are not supported''), w)
      else case map_of (sp_tracks w) key of
        None \<Rightarrow> (Some (rejection RequestError_DoesNotExist ''track is not registered''), w)
      | Some entry \<Rightarrow>
          (let resolved = (case so_filter options of
                             None \<Rightarrow> (\<lparr>loc_group = 0, loc_object = 0\<rparr>, None)
                           | Some f \<Rightarrow> resolve_filter f (te_largest entry))
           in if so_filter options \<noteq> None \<and> range_published (snd resolved) (te_largest entry)
              then (Some (rejection RequestError_InvalidRange ''requested range was already published''), w)
              else
                (let w = put_track key (entry\<lparr>te_subscriptions := (if request_id \<in> set (te_subscriptions entry)
                           then te_subscriptions entry else te_subscriptions entry @ [request_id])\<rparr>) w
                 in (None,
                     if sp_subscriptions w request_id \<noteq> None then w
                     else put_subscription request_id
                       \<lparr>ss_request_id = request_id, ss_track_alias = track_alias, ss_track_key = key,
                        ss_forward = (case so_forward options of None \<Rightarrow> True | Some f \<Rightarrow> f \<noteq> 0),
                        ss_start = fst resolved, ss_end_group = snd resolved, ss_stream_count = 0, ss_streams = []\<rparr> w))))"

definition update_subscription ::
  "RequestId \<Rightarrow> SubscriptionOptions \<Rightarrow> 'a sender_scheme \<Rightarrow> RequestError option \<times> 'a sender_scheme" where
  "update_subscription request_id options w =
     (case sp_subscriptions w request_id of
        None \<Rightarrow> (Some (rejection RequestError_DoesNotExist ''subscription is not established''), w)
      | Some subscription \<Rightarrow>
          if nonzero (so_subgroup_delivery_timeout options) \<or> nonzero (so_object_delivery_timeout options)
          then (Some (rejection RequestError_NotSupported ''delivery timeouts are not supported''), w)
          else
            (let largest = (case map_of (sp_tracks w) (ss_track_key subscription) of None \<Rightarrow> None | Some t \<Rightarrow> te_largest t);
                 forward = (case so_forward options of None \<Rightarrow> ss_forward subscription | Some f \<Rightarrow> f \<noteq> 0)
             in case so_filter options of
                  None \<Rightarrow> (None, put_subscription request_id (subscription\<lparr>ss_forward := forward\<rparr>) w)
                | Some f \<Rightarrow>
                    (case resolve_filter f largest of (start, end_group) \<Rightarrow>
                       if range_published end_group largest
                       then (Some (rejection RequestError_InvalidRange ''requested range was already published''), w)
                       else (None, put_subscription request_id
                               (subscription\<lparr>ss_start := start, ss_end_group := end_group, ss_forward := forward\<rparr>) w))))"

text \<open>The loop of \<open>detach_subscription\<close> over the open streams.\<close>

fun end_streams :: "stream_map \<Rightarrow> u64 option \<Rightarrow> 'a transport_scheme \<Rightarrow> 'a transport_scheme" where
  "end_streams [] reset_error w = w"
| "end_streams ((k, s) # m) reset_error w =
     end_streams m reset_error
       (case reset_error of Some e \<Rightarrow> abort_send (os_stream s) e w
        | None \<Rightarrow> snd (finish_send (os_stream s) w))"

definition detach_subscription :: "RequestId \<Rightarrow> u64 option \<Rightarrow> 'a sender_scheme \<Rightarrow> u64 \<times> 'a sender_scheme" where
  "detach_subscription request_id reset_error w =
     (case sp_subscriptions w request_id of
        None \<Rightarrow> (0, w)
      | Some subscription \<Rightarrow>
          (let w = end_streams (ss_streams subscription) reset_error w;
               w = (case map_of (sp_tracks w) (ss_track_key subscription) of
                      None \<Rightarrow> w
                    | Some entry \<Rightarrow> put_track (ss_track_key subscription)
                        (entry\<lparr>te_subscriptions := removeAll request_id (te_subscriptions entry)\<rparr>) w)
           in (ss_stream_count subscription, w\<lparr>sp_subscriptions := (sp_subscriptions w)(request_id := None)\<rparr>)))"

section \<open>Publishing\<close>

definition valid_publish_status :: "PublishedObject \<Rightarrow> bool" where
  "valid_publish_status object =
     (case po_status object of
        None \<Rightarrow> True
      | Some s \<Rightarrow>
          if s \<noteq> kObjectStatusNormal \<and> s \<noteq> kObjectStatusEndOfGroup \<and> s \<noteq> kObjectStatusEndOfTrack then False
          else s = kObjectStatusNormal \<or> po_payload object = [])"

abbreviation (input) StreamReset_InternalError :: u64 where "StreamReset_InternalError \<equiv> 0x0"

text \<open>Properties travel with objects of normal status only.\<close>

definition sent_properties :: "ObjectStatusCode option \<Rightarrow> ByteBuffer \<Rightarrow> ByteBuffer" where
  "sent_properties status properties =
     (case status of None \<Rightarrow> properties | Some s \<Rightarrow> if s \<noteq> kObjectStatusNormal then [] else properties)"

definition object_abnormal :: "PublishedObject \<Rightarrow> bool" where
  "object_abnormal object = (case po_status object of None \<Rightarrow> False | Some s \<Rightarrow> s \<noteq> kObjectStatusNormal)"

text \<open>What \<open>send_on_subgroup_stream\<close> appends to \<open>bytes\<close> for the object, and whether the stream ends with it.\<close>

definition subgroup_bytes :: "ByteBuffer \<Rightarrow> ObjectId option \<Rightarrow> PublishedObject \<Rightarrow> ByteBuffer" where
  "subgroup_bytes bytes last_object_id object =
     (let delta = (case last_object_id of Some l \<Rightarrow> po_object_id object - l - 1 | None \<Rightarrow> po_object_id object);
          bytes = encode_subgroup_object bytes delta (sent_properties (po_status object) (po_properties object))
                    (po_status object) (po_payload object)
      in if po_end_of_group object \<and> \<not> object_abnormal object
         then encode_subgroup_object bytes 0 [] (Some kObjectStatusEndOfGroup) [] else bytes)"

definition closes_stream :: "PublishedObject \<Rightarrow> bool" where
  "closes_stream object = (po_end_of_subgroup object \<or> po_end_of_group object \<or> object_abnormal object)"

text \<open>The stream for the object: an open one that the object follows, or a new one with its header.\<close>

definition ready_stream ::
  "('a sender_scheme) send_callbacks \<Rightarrow> RequestId \<Rightarrow> SubscriptionSend \<Rightarrow> PublishedObject \<Rightarrow> 'a sender_scheme
     \<Rightarrow> (SubscriptionSend \<times> OpenSubgroupStream \<times> ByteBuffer) option \<times> 'a sender_scheme" where
  "ready_stream cb request_id subscription object w =
     (let key = (po_group_id object, po_subgroup_id object);
          stale = (case map_of (ss_streams subscription) key of
                     None \<Rightarrow> None
                   | Some s \<Rightarrow> (case os_last_object_id s of
                       None \<Rightarrow> None | Some l \<Rightarrow> if po_object_id object \<le> l then Some s else None));
          w = (case stale of None \<Rightarrow> w | Some s \<Rightarrow> abort_send (os_stream s) StreamReset_InternalError w);
          subscription = (case stale of None \<Rightarrow> subscription
                          | Some _ \<Rightarrow> subscription\<lparr>ss_streams := stream_erase key (ss_streams subscription)\<rparr>);
          w = (case stale of None \<Rightarrow> w | Some _ \<Rightarrow> put_subscription request_id subscription w)
      in case map_of (ss_streams subscription) key of
           Some s \<Rightarrow> (Some (subscription, s, []), w)
         | None \<Rightarrow>
             (case scb_open_data_stream cb w of
                (None, w) \<Rightarrow> (None, w)
              | (Some st, w) \<Rightarrow>
                  (let s = \<lparr>os_stream = st, os_last_object_id = None\<rparr>
                   in (Some (subscription\<lparr>ss_stream_count := ss_stream_count subscription + 1,
                               ss_streams := stream_put key s (ss_streams subscription)\<rparr>, s,
                        encode_subgroup_header [] (ss_track_alias subscription) (po_group_id object)
                          (po_subgroup_id object) (po_publisher_priority object)), w))))"

definition send_on_subgroup_stream ::
  "('a sender_scheme) send_callbacks \<Rightarrow> RequestId \<Rightarrow> SubscriptionSend \<Rightarrow> PublishedObject \<Rightarrow> 'a sender_scheme \<Rightarrow> 'a sender_scheme" where
  "send_on_subgroup_stream cb request_id subscription object w =
     (case ready_stream cb request_id subscription object w of
        (None, w) \<Rightarrow> w
      | (Some (subscription, s, bytes), w) \<Rightarrow>
          (let key = (po_group_id object, po_subgroup_id object);
               bytes = subgroup_bytes bytes (os_last_object_id s) object;
               w = snd (send (os_stream s) bytes (closes_stream object) w);
               streams = stream_put key (s\<lparr>os_last_object_id := Some (po_object_id object)\<rparr>) (ss_streams subscription)
           in put_subscription request_id
                (subscription\<lparr>ss_streams := (if closes_stream object then stream_erase key streams else streams)\<rparr>) w))"

definition send_datagram_object ::
  "('a sender_scheme) send_callbacks \<Rightarrow> SubscriptionSend \<Rightarrow> PublishedObject \<Rightarrow> 'a sender_scheme \<Rightarrow> 'a sender_scheme" where
  "send_datagram_object cb subscription object w =
     (let status = (if po_status object = None \<and> po_payload object = [] then Some kObjectStatusNormal else po_status object)
      in snd (scb_send_datagram cb
           (encode_object_datagram (ss_track_alias subscription) (po_group_id object) (po_object_id object)
              (po_publisher_priority object) (sent_properties status (po_properties object)) status (po_payload object)
              (po_end_of_group object)) w))"

abbreviation (input) PublishDone_TrackEnded :: u64 where "PublishDone_TrackEnded \<equiv> 0x2"
abbreviation (input) PublishDone_SubscriptionEnded :: u64 where "PublishDone_SubscriptionEnded \<equiv> 0x3"

text \<open>
  One round of the loop of \<open>publish\<close>. When the data stream could not be opened the session
  is closing and the subscription has been erased while \<^verbatim>\<open>subscription\<close> still refers
  to it: the read that follows is recorded and nothing is said about the rest.
\<close>

datatype round_result = NextRound | Stopped "exn option"

definition publish_round ::
  "('a sender_scheme) send_callbacks \<Rightarrow> TrackKey \<Rightarrow> PublishedObject \<Rightarrow> RequestId \<Rightarrow> 'a sender_scheme
     \<Rightarrow> round_result \<times> 'a sender_scheme" where
  "publish_round cb key object request_id w =
     (let complete = (\<lambda>code reason w. case scb_subscription_complete cb request_id code reason w of
            (None, w) \<Rightarrow> (NextRound, w) | (Some e, w) \<Rightarrow> (Stopped (Some e), w));
          beyond = (\<lambda>s. case ss_end_group s of None \<Rightarrow> False | Some e \<Rightarrow> po_group_id object > e);
          at_end = (\<lambda>s. ss_end_group s = Some (po_group_id object)
            \<and> (po_end_of_group object \<or> po_status object = Some kObjectStatusEndOfGroup))
      in case sp_subscriptions w request_id of
        None \<Rightarrow>
          (NextRound, case map_of (sp_tracks w) key of None \<Rightarrow> w
             | Some entry \<Rightarrow> put_track key (entry\<lparr>te_subscriptions := removeAll request_id (te_subscriptions entry)\<rparr>) w)
      | Some subscription \<Rightarrow>
          if beyond subscription then complete PublishDone_SubscriptionEnded ''end of subscription range'' w
          else
            (let w = (if ss_forward subscription \<and> passes_filter subscription (po_group_id object) (po_object_id object)
                      then if po_delivery_kind object = Datagram then send_datagram_object cb subscription object w
                           else send_on_subgroup_stream cb request_id subscription object w
                      else w)
             in case sp_subscriptions w request_id of
                  None \<Rightarrow> (Stopped None, emit (DanglingRead request_id) w)
                | Some subscription \<Rightarrow>
                    if po_status object = Some kObjectStatusEndOfTrack then complete PublishDone_TrackEnded ''end of track'' w
                    else if at_end subscription
                    then complete PublishDone_SubscriptionEnded ''end of subscription range'' w
                    else (NextRound, w)))"

fun publish_rounds ::
  "('a sender_scheme) send_callbacks \<Rightarrow> TrackKey \<Rightarrow> PublishedObject \<Rightarrow> RequestId list \<Rightarrow> 'a sender_scheme
     \<Rightarrow> exn option \<times> 'a sender_scheme" where
  "publish_rounds cb key object [] w = (None, w)"
| "publish_rounds cb key object (request_id # request_ids) w =
     (case publish_round cb key object request_id w of
        (NextRound, w) \<Rightarrow> publish_rounds cb key object request_ids w
      | (Stopped e, w) \<Rightarrow> (e, w))"

definition plane_publish ::
  "('a sender_scheme) send_callbacks \<Rightarrow> PublishedObject \<Rightarrow> 'a sender_scheme \<Rightarrow> exn option \<times> 'a sender_scheme" where
  "plane_publish cb object w =
     (let key = (po_namespace object, po_name object)
      in case map_of (sp_tracks w) key of
        None \<Rightarrow> (None, w)
      | Some entry \<Rightarrow>
          if \<not> valid_publish_status object \<or> po_delivery_kind object = FetchStream then (None, w)
          else
            (let location = \<lparr>loc_group = po_group_id object, loc_object = po_object_id object\<rparr>;
                 entry = (case te_largest entry of
                            None \<Rightarrow> entry\<lparr>te_largest := Some location\<rparr>
                          | Some l \<Rightarrow> if location_less l location then entry\<lparr>te_largest := Some location\<rparr> else entry);
                 w = put_track key entry w
             in publish_rounds cb key object (te_subscriptions entry) w))"

end
