(* ===== verification/Adapter.thy ===== *)
theory Adapter
  imports Session
begin

text \<open>
  The event side of the transport: \<open>StreamContext::stream_callback\<close> of
  \<^verbatim>\<open>src/stream_context.cpp\<close> and \<open>connection_callback\<close> of
  \<^verbatim>\<open>src/msquic_transport_adapter.cpp\<close>. An event is a value; the sink a stream
  event goes to and the session callbacks of a connection event are arguments.
\<close>

section \<open>Stream events\<close>

text \<open>The virtual functions of \<^verbatim>\<open>StreamSink\<close>, for every kind of sink a session installs.\<close>

record 'w sink_handlers =
  on_sink_receive :: "sink \<Rightarrow> stream_ref \<Rightarrow> ByteBuffer list \<Rightarrow> bool \<Rightarrow> 'w \<Rightarrow> 'w"
  on_sink_send_aborted :: "sink \<Rightarrow> stream_ref \<Rightarrow> u64 \<Rightarrow> 'w \<Rightarrow> 'w"
  on_sink_receive_aborted :: "sink \<Rightarrow> stream_ref \<Rightarrow> u64 \<Rightarrow> 'w \<Rightarrow> 'w"
  on_sink_closed :: "sink \<Rightarrow> stream_ref \<Rightarrow> 'w \<Rightarrow> 'w"

text \<open>\<open>START_COMPLETE\<close> carries the stream's id and, when it failed, the text of its status.\<close>

datatype stream_event =
    StartComplete u64 "string option"
  | Receive "ByteBuffer list" bool
  | PeerSendShutdown
  | SendComplete
  | PeerSendAborted u64
  | PeerReceiveAborted u64
  | StreamShutdownComplete

definition stream_sink :: "'a transport_scheme \<Rightarrow> stream_ref \<Rightarrow> sink option" where
  "stream_sink w st = (case tp_streams w st of None \<Rightarrow> None | Some c \<Rightarrow> sc_sink c)"

definition set_stream_id :: "stream_ref \<Rightarrow> u64 \<Rightarrow> 'a transport_scheme \<Rightarrow> 'a transport_scheme" where
  "set_stream_id st sid w = w\<lparr>tp_streams := (tp_streams w)(st := map_option (\<lambda>c. c\<lparr>sc_id := sid\<rparr>) (tp_streams w st))\<rparr>"

text \<open>The sink is looked up once, before the event is handled: it may replace itself on the way.\<close>

definition stream_callback ::
  "('a session_scheme) sink_handlers \<Rightarrow> (string \<Rightarrow> 'a session_scheme \<Rightarrow> 'a session_scheme)
     \<Rightarrow> stream_ref \<Rightarrow> stream_event \<Rightarrow> 'a session_scheme \<Rightarrow> 'a session_scheme" where
  "stream_callback h on_transport_error st event w =
     (let sink = stream_sink w st in
      case event of
        StartComplete sid failure \<Rightarrow>
          (let w = set_stream_id st sid w
           in case failure of None \<Rightarrow> w | Some text \<Rightarrow> on_transport_error (''StreamStart failed: '' @ text) w)
      | Receive chunks fin \<Rightarrow> (case sink of None \<Rightarrow> w | Some k \<Rightarrow> on_sink_receive h k st chunks fin w)
      | PeerSendShutdown \<Rightarrow> (case sink of None \<Rightarrow> w | Some k \<Rightarrow> on_sink_receive h k st [] True w)
      | SendComplete \<Rightarrow> w
      | PeerSendAborted code \<Rightarrow> (case sink of None \<Rightarrow> w | Some k \<Rightarrow> on_sink_send_aborted h k st code w)
      | PeerReceiveAborted code \<Rightarrow> (case sink of None \<Rightarrow> w | Some k \<Rightarrow> on_sink_receive_aborted h k st code w)
      | StreamShutdownComplete \<Rightarrow>
          (let w = (if has_handle w st then close_handle st w else w);
               w = set_sink st None w;
               w = (case sink of None \<Rightarrow> w | Some k \<Rightarrow> on_sink_closed h k st w)
           in remove_stream st w))"

section \<open>Connection events\<close>

datatype connection_event =
    Connected
  | PeerStreamStarted bool u64
  | DatagramReceived ByteBuffer
  | DatagramSendStateChanged
  | ShutdownInitiatedByTransport string u64 u64
  | ShutdownInitiatedByPeer u64
  | ShutdownComplete bool

record 'w session_callbacks =
  sc_connected :: "'w \<Rightarrow> 'w"
  sc_datagram_received :: "ByteBuffer \<Rightarrow> 'w \<Rightarrow> 'w"
  sc_transport_error :: "string \<Rightarrow> 'w \<Rightarrow> 'w"

text \<open>
  \<^verbatim>\<open>SHUTDOWN_INITIATED_BY_TRANSPORT\<close> carries the name of its status, the status and
  the error code. \<open>on_peer_stream_started\<close> and \<open>shutdown_complete\<close> are those of
  the session and the same for both roles.
\<close>

definition connection_callback ::
  "('a session_scheme) session_callbacks \<Rightarrow> connection_event \<Rightarrow> 'a session_scheme \<Rightarrow> 'a session_scheme" where
  "connection_callback callbacks event w =
     (case event of
        Connected \<Rightarrow> sc_connected callbacks w
      | PeerStreamStarted uni sid \<Rightarrow> (case new_stream uni sid w of (st, w) \<Rightarrow> on_peer_stream_started st w)
      | DatagramReceived bytes \<Rightarrow> sc_datagram_received callbacks bytes w
      | DatagramSendStateChanged \<Rightarrow> w
      | ShutdownInitiatedByTransport text status error_code \<Rightarrow>
          sc_transport_error callbacks
            (''Connection shutdown initiated by transport: status='' @ text @ '' ('' @ to_string (unat status)
              @ ''), error_code='' @ to_string (unat error_code)) w
      | ShutdownInitiatedByPeer error_code \<Rightarrow>
          sc_transport_error callbacks (''peer shutdown: error_code='' @ to_string (unat error_code)) w
      | ShutdownComplete handshake_completed \<Rightarrow> shutdown_complete handshake_completed w)"

end
