(* ===== verification/Control_Frames.thy ===== *)
theory Control_Frames
  imports Codec_Control
begin

text \<open>
  Frames on a byte stream: \<open>read_control_message\<close> returns the frame that
  \<open>encode_control_message\<close> wrote, never a prefix of it, and is not changed by bytes that
  arrive later. The receive loops of the request streams (\<open>Subscriber::SubscriptionRequest\<close>,
  \<open>Publisher::SubscriptionRequest\<close>, \<open>NamespaceAnnouncementFSM\<close>) share one shape,
  modelled here as \<open>control_loop\<close>; a locale shows that such a loop does not depend on how
  the bytes were split into receives.
\<close>

section \<open>Bounds and stability of the frame reader\<close>

lemma read_control_message_append: "read_control_message (pre @ xs) (length pre) = read_control_message xs 0"
  by (simp add: read_control_message_def read_varint_append Let_def nth_append)

lemma no_message_status [simp]: "cmr_status no_message = NeedMoreData"
  by (simp add: no_message_def)

lemma read_control_message_not_Done:
  "cmr_status (read_control_message xs n) \<noteq> Done \<Longrightarrow> read_control_message xs n = no_message"
  by (auto simp: read_control_message_def Let_def split: if_splits)

lemma read_control_message_bounds:
  "cmr_status (read_control_message xs 0) = Done \<Longrightarrow>
     3 \<le> cmr_bytes (read_control_message xs 0) \<and> cmr_bytes (read_control_message xs 0) \<le> length xs"
  using read_varint_Done_bounds [of xs 0]
  by (auto simp: read_control_message_def no_message_def Let_def split: if_splits)

lemma read_control_message_extend:
  assumes "cmr_status (read_control_message xs 0) = Done"
  shows "read_control_message (xs @ ys) 0 = read_control_message xs 0"
proof -
  from assms have d: "vr_status (read_varint xs 0) = Done"
    and l: "vr_bytes (read_varint xs 0) + 2 \<le> length xs"
    by (auto simp: read_control_message_def no_message_def Let_def not_less split: if_splits)
  from assms have f: "\<not> length xs < vr_bytes (read_varint xs 0) + 2 + unat
     (push_bit 8 (ucast (xs ! vr_bytes (read_varint xs 0)))
        OR ucast (xs ! (vr_bytes (read_varint xs 0) + 1)) :: u16)"
    using d l by (auto simp: read_control_message_def no_message_def Let_def split: if_splits)
  show ?thesis
    using d l f by (simp add: read_control_message_def read_varint_extend Let_def nth_append not_less)
qed

section \<open>Frames that were written\<close>

definition frame_bytes :: "u64 \<Rightarrow> ByteBuffer \<Rightarrow> ByteBuffer" where
  "frame_bytes type payload =
     write_varint [] type
       @ [ucast (drop_bit 8 (word_of_nat (length payload) :: u64)), ucast (word_of_nat (length payload) :: u64)]
       @ payload"

lemma encode_control_message_eq:
  "encode_control_message type payload =
     (if length payload \<le> 65535 then Inr (frame_bytes type payload)
      else Inl (length_error ''MOQT control message payload exceeds 65535 bytes''))"
  by (simp add: encode_control_message_def frame_bytes_def)

lemma length_frame_bytes [simp]: "length (frame_bytes type payload) = varint_size type + 2 + length payload"
  by (simp add: frame_bytes_def)

lemma length_field_roundtrip:
  assumes "n \<le> 65535"
  shows "unat (push_bit 8 (ucast (ucast (drop_bit 8 (word_of_nat n :: u64)) :: byte))
     OR ucast (ucast (word_of_nat n :: u64) :: byte) :: u16) = n"
proof -
  have "push_bit 8 (ucast (ucast (drop_bit 8 (word_of_nat n :: u64)) :: byte))
      OR ucast (ucast (word_of_nat n :: u64) :: byte) = (ucast (word_of_nat n :: u64) :: u16)"
    by (rule bit_eqI) (auto simp: bit_simps)
  then show ?thesis
    using assms by (simp only:) (simp add: unsigned_ucast_eq unsigned_of_nat take_bit_nat_eq_self)
qed

lemma read_frame:
  assumes "length payload \<le> 65535"
  shows "read_control_message (frame_bytes type payload @ rest) 0 =
     \<lparr>cmr_status = Done, cmr_message = \<lparr>cm_type = type, cm_payload = payload\<rparr>,
      cmr_bytes = length (frame_bytes type payload)\<rparr>"
proof -
  let ?h = "ucast (drop_bit 8 (word_of_nat (length payload) :: u64)) :: byte"
  let ?l = "ucast (word_of_nat (length payload) :: u64) :: byte"
  let ?x = "frame_bytes type payload @ rest" and ?n = "varint_size type"
  have x: "?x = write_varint [] type @ ?h # ?l # payload @ rest" by (simp add: frame_bytes_def)
  have v: "read_varint ?x 0 = \<lparr>vr_status = Done, vr_value = type, vr_bytes = ?n\<rparr>"
    unfolding x by (rule read_write_varint_0)
  have n: "?x ! ?n = ?h" "?x ! Suc ?n = ?l" by (simp_all add: x nth_append)
  have d: "drop (Suc (Suc ?n)) (frame_bytes type payload) = payload" by (simp add: frame_bytes_def)
  show ?thesis
    using assms
    by (simp add: read_control_message_def v n d Let_def length_field_roundtrip [simplified])
qed

lemma read_frame_prefix:
  assumes "length payload \<le> 65535" "n < length (frame_bytes type payload)"
  shows "read_control_message (take n (frame_bytes type payload)) 0 = no_message"
proof (rule read_control_message_not_Done, rule notI)
  let ?t = "take n (frame_bytes type payload)"
  assume d: "cmr_status (read_control_message ?t 0) = Done"
  have "read_control_message (?t @ drop n (frame_bytes type payload)) 0 = read_control_message ?t 0"
    using d by (rule read_control_message_extend)
  moreover have "cmr_bytes (read_control_message ?t 0) \<le> n"
    using read_control_message_bounds [OF d] by simp
  ultimately show False
    using read_frame [OF assms(1), of type "[]"] assms(2) by simp
qed

lemma read_encoded_message:
  "encode_control_message type payload = Inr frame \<Longrightarrow>
     read_control_message (pre @ frame @ rest) (length pre) =
       \<lparr>cmr_status = Done, cmr_message = \<lparr>cm_type = type, cm_payload = payload\<rparr>, cmr_bytes = length frame\<rparr>"
  using read_frame by (auto simp: encode_control_message_eq read_control_message_append split: if_splits)

text \<open>
  C36: whatever follows it, an encoded control message is read back with its type and
  payload, exactly its own bytes are consumed, and no proper prefix of it is taken for a message.
\<close>

theorem control_message_roundtrip:
  assumes "encode_control_message type payload = Inr frame"
  shows "read_control_message (pre @ frame @ rest) (length pre) =
       \<lparr>cmr_status = Done, cmr_message = \<lparr>cm_type = type, cm_payload = payload\<rparr>, cmr_bytes = length frame\<rparr>
     \<and> (\<forall>n < length frame. read_control_message (take n frame) 0 = no_message)"
  using read_encoded_message [OF assms] assms read_frame_prefix
  by (auto simp: encode_control_message_eq split: if_splits)

theorem control_message_roundtrip_witness:
  "encode_control_message 3 [7, 8, 9] = Inr [3, 0, 3, 7, 8, 9]
   \<and> read_control_message ([1] @ [3, 0, 3, 7, 8, 9] @ [5]) (length [1 :: byte]) =
       \<lparr>cmr_status = Done, cmr_message = \<lparr>cm_type = 3, cm_payload = [7, 8, 9]\<rparr>, cmr_bytes = 6\<rparr>"
proof -
  have "encode_control_message 3 [7, 8, 9] = Inr [3, 0, 3, 7, 8, 9]" by code_simp
  with control_message_roundtrip [OF this, of "[1]" "[5]"] show ?thesis by simp
qed

section \<open>Receive loops\<close>

text \<open>
  A receive loop takes complete items off the front of its buffer and changes its state with
  each. \<open>step s buf\<close> is one round: nothing (the item is not complete, or the loop has
  stopped), or the next state and the number of bytes taken. The laws are that a round takes
  some bytes of the buffer and that bytes which arrive later do not change a round.
\<close>

locale receive_loop =
  fixes step :: "'s \<Rightarrow> ByteBuffer \<Rightarrow> ('s \<times> nat) option"
  assumes step_progress: "step s xs = Some (s', n) \<Longrightarrow> 0 < n \<and> n \<le> length xs"
    and step_stable: "step s xs = Some (s', n) \<Longrightarrow> step s (xs @ ys) = Some (s', n)"
begin

inductive drains :: "'s \<Rightarrow> ByteBuffer \<Rightarrow> 's \<Rightarrow> ByteBuffer \<Rightarrow> bool" where
  drains_stop: "step s xs = None \<Longrightarrow> drains s xs s xs"
| drains_step: "step s xs = Some (s1, n) \<Longrightarrow> drains s1 (drop n xs) s' r \<Longrightarrow> drains s xs s' r"

lemma drains_total: "\<exists>s' r. drains s xs s' r"
proof (induction xs arbitrary: s rule: length_induct)
  case (1 xs)
  show ?case
  proof (cases "step s xs")
    case None
    then show ?thesis by (blast intro: drains_stop)
  next
    case (Some p)
    obtain s1 n where p: "p = (s1, n)" by (cases p)
    have "length (drop n xs) < length xs"
      using step_progress [of s xs s1 n] Some p by auto
    with "1.IH" obtain s' r where "drains s1 (drop n xs) s' r" by blast
    with Some p show ?thesis by (blast intro: drains_step)
  qed
qed

lemma drains_deterministic: "drains s xs s1 r1 \<Longrightarrow> drains s xs s2 r2 \<Longrightarrow> s2 = s1 \<and> r2 = r1"
proof (induction arbitrary: s2 r2 rule: drains.induct)
  case (drains_stop s xs)
  note none = drains_stop.hyps
  from drains_stop.prems show ?case
    by (cases rule: drains.cases) (simp_all add: none)
next
  case (drains_step s xs s1 n s' r)
  note some = drains_step.hyps(1) and IH = drains_step.IH
  from drains_step.prems show ?case
  proof (cases rule: drains.cases)
    case drains_stop
    with some show ?thesis by simp
  next
    case (drains_step t m)
    with some have "drains s1 (drop n xs) s2 r2" by simp
    then show ?thesis by (rule IH)
  qed
qed

lemma drains_append:
  "drains s xs s1 r \<Longrightarrow> drains s1 (r @ ys) s2 r2 \<Longrightarrow> drains s (xs @ ys) s2 r2"
proof (induction rule: drains.induct)
  case (drains_stop s xs)
  then show ?case by simp
next
  case (drains_step s xs s1 n s' r)
  then have "drop n (xs @ ys) = drop n xs @ ys" using step_progress by fastforce
  with drains_step show ?case
    by (intro drains.drains_step [OF step_stable]) auto
qed

text \<open>One receive after another, each appending its bytes to what was left over.\<close>

inductive receives :: "'s \<Rightarrow> ByteBuffer \<Rightarrow> ByteBuffer list \<Rightarrow> 's \<Rightarrow> ByteBuffer \<Rightarrow> bool" where
  receives_nil: "receives s r [] s r"
| receives_cons: "drains s (r @ c) s1 r1 \<Longrightarrow> receives s1 r1 cs s2 r2 \<Longrightarrow> receives s r (c # cs) s2 r2"

lemma drains_end: "drains s xs s' r \<Longrightarrow> drains s' r s' r"
  by (induction rule: drains.induct) (auto intro: drains_stop)

lemma receives_drains:
  "receives s r cs s' r' \<Longrightarrow> drains s r s r \<Longrightarrow> drains s (r @ concat cs) s' r'"
proof (induction rule: receives.induct)
  case (receives_nil s r)
  then show ?case by simp
next
  case (receives_cons s r c s1 r1 cs s2 r2)
  then have "drains s1 (r1 @ concat cs) s2 r2" by (blast intro: drains_end)
  with receives_cons.hyps(1) have "drains s ((r @ c) @ concat cs) s2 r2" by (rule drains_append)
  then show ?case by simp
qed

end

text \<open>The loop of the request streams: it stops when \<open>stop\<close> holds or no complete message is left.\<close>

function control_loop :: "('s \<Rightarrow> bool) \<Rightarrow> (ControlMessage \<Rightarrow> 's \<Rightarrow> 's) \<Rightarrow> 's \<Rightarrow> ByteBuffer \<Rightarrow> 's \<times> ByteBuffer" where
  "control_loop stop handle s buf =
     (if stop s then (s, buf)
      else let parsed = read_control_message buf 0
        in if cmr_status parsed \<noteq> Done then (s, buf)
           else control_loop stop handle (handle (cmr_message parsed) s) (drop (cmr_bytes parsed) buf))"
  by pat_completeness auto
termination
  by (relation "measure (\<lambda>(stop, handle, s, buf). length buf)")
    (use read_control_message_bounds in fastforce)+

declare control_loop.simps [simp del]

definition control_step :: "('s \<Rightarrow> bool) \<Rightarrow> (ControlMessage \<Rightarrow> 's \<Rightarrow> 's) \<Rightarrow> 's \<Rightarrow> ByteBuffer \<Rightarrow> ('s \<times> nat) option" where
  "control_step stop handle s buf =
     (if stop s \<or> cmr_status (read_control_message buf 0) \<noteq> Done then None
      else Some (handle (cmr_message (read_control_message buf 0)) s, cmr_bytes (read_control_message buf 0)))"

interpretation control: receive_loop "control_step stop handle"
proof unfold_locales
  show "0 < n \<and> n \<le> length xs" if "control_step stop handle s xs = Some (s', n)" for s xs s' n
    using that read_control_message_bounds [of xs] by (auto simp: control_step_def split: if_splits)
  show "control_step stop handle s (xs @ ys) = Some (s', n)"
    if "control_step stop handle s xs = Some (s', n)" for s xs s' n ys
    using that read_control_message_extend [of xs ys] by (auto simp: control_step_def split: if_splits)
qed

lemma control_loop_stop:
  "stop s \<or> cmr_status (read_control_message buf 0) \<noteq> Done \<Longrightarrow> control_loop stop handle s buf = (s, buf)"
  by (subst control_loop.simps) (auto simp: Let_def)

lemma control_loop_step:
  "\<not> stop s \<Longrightarrow> cmr_status (read_control_message buf 0) = Done \<Longrightarrow>
     control_loop stop handle s buf =
       control_loop stop handle (handle (cmr_message (read_control_message buf 0)) s)
         (drop (cmr_bytes (read_control_message buf 0)) buf)"
  by (subst control_loop.simps) (simp add: Let_def)

lemma control_loop_drains:
  "control.drains stop handle s buf (fst (control_loop stop handle s buf)) (snd (control_loop stop handle s buf))"
proof (induction stop handle s buf rule: control_loop.induct)
  case (1 stop handle s buf)
  let ?p = "read_control_message buf 0"
  show ?case
  proof (cases "stop s \<or> cmr_status ?p \<noteq> Done")
    case True
    then have "control_step stop handle s buf = None" by (auto simp: control_step_def)
    with True show ?thesis by (auto simp: control_loop_stop intro: control.drains_stop)
  next
    case False
    then have "control_step stop handle s buf = Some (handle (cmr_message ?p) s, cmr_bytes ?p)"
      by (auto simp: control_step_def)
    moreover from False "1.IH" have "control.drains stop handle (handle (cmr_message ?p) s) (drop (cmr_bytes ?p) buf)
        (fst (control_loop stop handle s buf)) (snd (control_loop stop handle s buf))"
      by (simp add: control_loop_step)
    ultimately show ?thesis by (rule control.drains_step)
  qed
qed

lemma control_loop_eq: "control.drains stop handle s buf s' r \<longleftrightarrow> control_loop stop handle s buf = (s', r)"
  using control_loop_drains [of stop handle s buf] control.drains_deterministic
  by (metis prod.collapse prod.inject)

text \<open>The loop on a longer buffer is the loop on a part of it, continued with the rest.\<close>

lemma control_loop_append:
  "control_loop stop handle s (xs @ ys) =
     (case control_loop stop handle s xs of (s', r) \<Rightarrow> control_loop stop handle s' (r @ ys))"
proof -
  obtain s' r where 1: "control_loop stop handle s xs = (s', r)" by fastforce
  obtain s2 r2 where 2: "control_loop stop handle s' (r @ ys) = (s2, r2)" by fastforce
  from 1 2 have "control.drains stop handle s (xs @ ys) s2 r2"
    by (intro control.drains_append [of stop handle s xs s' r]) (simp_all add: control_loop_eq)
  then show ?thesis by (simp add: 1 2 control_loop_eq)
qed

text \<open>What the handler keeps, the loop keeps.\<close>

lemma control_loop_invariant:
  assumes "I s" and "\<And>m s. I s \<Longrightarrow> \<not> stop s \<Longrightarrow> I (handle m s)"
  shows "I (fst (control_loop stop handle s buf))"
  using assms
proof (induction stop handle s buf rule: control_loop.induct)
  case (1 stop handle s buf)
  show ?case
  proof (cases "stop s \<or> cmr_status (read_control_message buf 0) \<noteq> Done")
    case True
    with "1.prems" show ?thesis by (simp add: control_loop_stop)
  next
    case False
    with "1.IH" "1.prems" show ?thesis by (simp add: control_loop_step)
  qed
qed

text \<open>The loop ends because nothing is left to do.\<close>

lemma control_loop_result:
  "control_loop stop handle s buf = (s', r) \<Longrightarrow> stop s' \<or> cmr_status (read_control_message r 0) \<noteq> Done"
proof (induction stop handle s buf rule: control_loop.induct)
  case (1 stop handle s buf)
  show ?case
  proof (cases "stop s \<or> cmr_status (read_control_message buf 0) \<noteq> Done")
    case True
    with "1.prems" show ?thesis by (auto simp: control_loop_stop)
  next
    case False
    with "1.IH" "1.prems" show ?thesis by (simp add: control_loop_step)
  qed
qed

end
