(* ===== verification/Publisher.thy ===== *)
theory Publisher
  imports Send_Plane Adapter Control_Frames
begin

text \<open>
  \<^verbatim>\<open>src/publisher_session.cpp\<close>: the publisher role on top of the session and the
  send data plane. A \<open>SubscriptionRequest\<close> is named by its Request ID, which
  \<open>consume_peer_request_id\<close> keeps unique; it outlives its entry in
  \<open>subscriptions_\<close> because its stream keeps it as a sink. Log messages are left out.
\<close>

section \<open>State\<close>

record PubRequest =
  pq_namespace :: TrackNamespace
  pq_name :: TrackName
  pq_stream :: stream_ref
  pq_buffer :: ByteBuffer
  pq_terminated :: bool

text \<open>\<open>pb_announcement_buffers\<close> are the members \<open>buffer_\<close> of the announcement sinks, by stream.\<close>

record publisher = sender +
  pb_max_subscriptions :: nat
  pb_next_track_alias :: TrackAlias
  pb_peer_request_ids :: "RequestId set"
  pb_requests :: "RequestId \<rightharpoonup> PubRequest"
  pb_subscriptions :: "RequestId list"
  pb_pending_announcements :: "TrackNamespace list"
  pb_announced_namespaces :: "string \<rightharpoonup> stream_ref"
  pb_announcement_buffers :: "stream_ref \<rightharpoonup> ByteBuffer"

definition put_pub_request :: "RequestId \<Rightarrow> PubRequest \<Rightarrow> 'a publisher_scheme \<Rightarrow> 'a publisher_scheme" where
  "put_pub_request request_id rq w = w\<lparr>pb_requests := (pb_requests w)(request_id \<mapsto> rq)\<rparr>"

definition pub_terminated :: "RequestId \<Rightarrow> 'a publisher_scheme \<Rightarrow> bool" where
  "pub_terminated request_id w = (case pb_requests w request_id of None \<Rightarrow> True | Some rq \<Rightarrow> pq_terminated rq)"

definition reserved_namespace :: "TrackNamespace \<Rightarrow> bool" where
  "reserved_namespace track_namespace = (track_namespace \<noteq> [] \<and> hd track_namespace = ''.'')"

fun namespace_text_from :: "string \<Rightarrow> TrackNamespace \<Rightarrow> string" where
  "namespace_text_from text_so_far [] = text_so_far"
| "namespace_text_from text_so_far (field # names) =
     namespace_text_from ((if text_so_far \<noteq> [] then text_so_far @ ''/'' else text_so_far) @ field) names"

definition namespace_text :: "TrackNamespace \<Rightarrow> string" where
  "namespace_text track_namespace = namespace_text_from [] track_namespace"

section \<open>Ending a subscription\<close>

abbreviation (input) PubReset_Cancelled :: u64 where "PubReset_Cancelled \<equiv> 0x1"
abbreviation (input) PubReset_SessionClosed :: u64 where "PubReset_SessionClosed \<equiv> 0x3"
abbreviation (input) PublishDone_UpdateFailed :: u64 where "PublishDone_UpdateFailed \<equiv> 0x8"

text \<open>The last two statements of \<open>finish\<close> and \<open>cancel\<close>.\<close>

definition mark_terminated :: "RequestId \<Rightarrow> PubRequest \<Rightarrow> 'a publisher_scheme \<Rightarrow> 'a publisher_scheme" where
  "mark_terminated request_id rq w =
     (put_pub_request request_id (rq\<lparr>pq_terminated := True\<rparr>) w)
       \<lparr>pb_subscriptions := removeAll request_id (pb_subscriptions w)\<rparr>"

definition finish :: "RequestId \<Rightarrow> u64 \<Rightarrow> string \<Rightarrow> 'a publisher_scheme \<Rightarrow> exn option \<times> 'a publisher_scheme" where
  "finish request_id code reason w =
     (case pb_requests w request_id of
        None \<Rightarrow> (None, w)
      | Some rq \<Rightarrow>
          if pq_terminated rq then (None, w)
          else case detach_subscription request_id None w of (stream_count, w) \<Rightarrow>
            (case encode_publish_done code stream_count reason of
               Inl e \<Rightarrow> (Some e, w)
             | Inr bytes \<Rightarrow>
                 (None, mark_terminated request_id rq
                    (abort_receive (pq_stream rq) PubReset_Cancelled (snd (send (pq_stream rq) bytes True w))))))"

definition cancel :: "RequestId \<Rightarrow> u64 \<Rightarrow> 'a publisher_scheme \<Rightarrow> 'a publisher_scheme" where
  "cancel request_id reset_error_code w =
     (case pb_requests w request_id of
        None \<Rightarrow> w
      | Some rq \<Rightarrow>
          if pq_terminated rq then w
          else mark_terminated request_id rq
            (abort_receive (pq_stream rq) reset_error_code
              (abort_send (pq_stream rq) reset_error_code
                (snd (detach_subscription request_id (Some reset_error_code) w)))))"

fun cancel_all :: "RequestId list \<Rightarrow> u64 \<Rightarrow> 'a publisher_scheme \<Rightarrow> 'a publisher_scheme" where
  "cancel_all [] code w = w"
| "cancel_all (request_id # request_ids) code w = cancel_all request_ids code (cancel request_id code w)"

definition pub_terminate_subscriptions :: "string \<Rightarrow> 'a publisher_scheme \<Rightarrow> 'a publisher_scheme" where
  "pub_terminate_subscriptions reason w = cancel_all (pb_subscriptions w) PubReset_SessionClosed w"

definition complete_subscription :: "RequestId \<Rightarrow> u64 \<Rightarrow> string \<Rightarrow> 'a publisher_scheme \<Rightarrow> exn option \<times> 'a publisher_scheme" where
  "complete_subscription request_id code reason w =
     (if request_id \<in> set (pb_subscriptions w) then finish request_id code reason w else (None, w))"

definition open_data_stream :: "'a publisher_scheme \<Rightarrow> stream_ref option \<times> 'a publisher_scheme" where
  "open_data_stream w =
     (case open_stream True w of
        (Inr st, w) \<Rightarrow> (Some st, w)
      | (Inl e, w) \<Rightarrow> (None, begin_close pub_terminate_subscriptions Close_InternalError (exn_what e) w))"

text \<open>The lambdas the constructor hands to the send plane.\<close>

definition send_plane_callbacks :: "('a publisher_scheme) send_callbacks" where
  "send_plane_callbacks =
     \<lparr>scb_open_data_stream = open_data_stream,
      scb_send_datagram = (\<lambda>bytes w. if tp_alive w then send_datagram bytes w else (False, w)),
      scb_subscription_complete = complete_subscription\<rparr>"

section \<open>Announcements\<close>

text \<open>The body of the \<^verbatim>\<open>try\<close> block; an exception is only logged.\<close>

definition announce_namespace :: "TrackNamespace \<Rightarrow> 'a publisher_scheme \<Rightarrow> 'a publisher_scheme" where
  "announce_namespace track_namespace w =
     (let name = namespace_text track_namespace
      in if pb_announced_namespaces w name \<noteq> None then w
         else case open_stream False w of
           (Inl e, w) \<Rightarrow> w
         | (Inr st, w) \<Rightarrow>
             (let w = set_sink st (Some (AnnouncementSink name))
                        (w\<lparr>pb_announcement_buffers := (pb_announcement_buffers w)(st \<mapsto> [])\<rparr>)
              in case allocate_request_id w of
                   (Inl e, w) \<Rightarrow> w
                 | (Inr request_id, w) \<Rightarrow>
                     (case encode_publish_namespace request_id track_namespace of
                        Inl e \<Rightarrow> w
                      | Inr bytes \<Rightarrow>
                          (case send st bytes False w of
                             (False, w) \<Rightarrow> w
                           | (True, w) \<Rightarrow>
                               w\<lparr>pb_announced_namespaces := (pb_announced_namespaces w)(name \<mapsto> st)\<rparr>))))"

definition withdraw_namespace :: "TrackNamespace \<Rightarrow> 'a publisher_scheme \<Rightarrow> 'a publisher_scheme" where
  "withdraw_namespace track_namespace w =
     (let w = w\<lparr>pb_pending_announcements := removeAll track_namespace (pb_pending_announcements w)\<rparr>;
          name = namespace_text track_namespace
      in case pb_announced_namespaces w name of
           None \<Rightarrow> w
         | Some st \<Rightarrow>
             (abort_receive st PubReset_Cancelled (abort_send st PubReset_Cancelled w))
               \<lparr>pb_announced_namespaces := (pb_announced_namespaces w)(name := None)\<rparr>)"

fun announce_all :: "TrackNamespace list \<Rightarrow> 'a publisher_scheme \<Rightarrow> 'a publisher_scheme" where
  "announce_all [] w = w"
| "announce_all (n # ns) w = announce_all ns (announce_namespace n w)"

definition on_ready :: "'a publisher_scheme \<Rightarrow> 'a publisher_scheme" where
  "on_ready w = (announce_all (pb_pending_announcements w) w)\<lparr>pb_pending_announcements := []\<rparr>"

text \<open>\<open>NamespaceAnnouncementFSM::on_receive\<close>: the messages are taken off the buffer and logged.\<close>

definition announcement_on_receive :: "stream_ref \<Rightarrow> ByteBuffer list \<Rightarrow> 'a publisher_scheme \<Rightarrow> 'a publisher_scheme" where
  "announcement_on_receive st chunks w =
     (case pb_announcement_buffers w st of
        None \<Rightarrow> w
      | Some buffer \<Rightarrow>
          w\<lparr>pb_announcement_buffers := (pb_announcement_buffers w)
             (st \<mapsto> snd (control_loop (\<lambda>u. False) (\<lambda>message u. u) () (buffer @ concat chunks)))\<rparr>)"

section \<open>The interface of the application\<close>

definition pub_register_track :: "PublishedTrack \<Rightarrow> 'a publisher_scheme \<Rightarrow> 'a publisher_scheme" where
  "pub_register_track track w =
     (if reserved_namespace (pt_namespace track) then w
      else case register_track track w of
        (False, w) \<Rightarrow> w
      | (True, w) \<Rightarrow>
          if se_phase w = Ready then announce_namespace (pt_namespace track) w
          else w\<lparr>pb_pending_announcements := pb_pending_announcements w @ [pt_namespace track]\<rparr>)"

fun complete_all :: "RequestId list \<Rightarrow> u64 \<Rightarrow> string \<Rightarrow> 'a publisher_scheme \<Rightarrow> exn option \<times> 'a publisher_scheme" where
  "complete_all [] code reason w = (None, w)"
| "complete_all (request_id # request_ids) code reason w =
     (case complete_subscription request_id code reason w of
        (Some e, w) \<Rightarrow> (Some e, w)
      | (None, w) \<Rightarrow> complete_all request_ids code reason w)"

definition end_track :: "TrackKey \<Rightarrow> u64 \<Rightarrow> string \<Rightarrow> 'a publisher_scheme \<Rightarrow> exn option \<times> 'a publisher_scheme" where
  "end_track key code reason w =
     (case find_track key w of
        None \<Rightarrow> (None, w)
      | Some track \<Rightarrow> complete_all (te_subscriptions track) code reason w)"

definition pub_unregister_track :: "TrackKey \<Rightarrow> 'a publisher_scheme \<Rightarrow> exn option \<times> 'a publisher_scheme" where
  "pub_unregister_track key w =
     (case end_track key PublishDone_TrackEnded ''track unregistered'' w of
        (Some e, w) \<Rightarrow> (Some e, w)
      | (None, w) \<Rightarrow>
          (case unregister_track key w of (removed, w) \<Rightarrow>
             (None, if removed \<and> \<not> has_track_in_namespace (fst key) w then withdraw_namespace (fst key) w else w)))"

definition pub_publish :: "PublishedObject \<Rightarrow> 'a publisher_scheme \<Rightarrow> exn option \<times> 'a publisher_scheme" where
  "pub_publish object w =
     (if se_phase w \<noteq> Ready then (None, w) else plane_publish send_plane_callbacks object w)"

section \<open>Requests of the peer\<close>

text \<open>The result is the error, if any.\<close>

definition consume_peer_request_id :: "RequestId \<Rightarrow> 'a publisher_scheme \<Rightarrow> string option \<times> 'a publisher_scheme" where
  "consume_peer_request_id request_id w =
     (if request_id AND 1 = 0
      then (Some (''peer Request ID '' @ to_string (unat request_id) @ '' has client parity''), w)
      else if request_id \<in> pb_peer_request_ids w
      then (Some (''duplicate peer Request ID '' @ to_string (unat request_id)), w)
      else (None, w\<lparr>pb_peer_request_ids := insert request_id (pb_peer_request_ids w)\<rparr>))"

definition largest_parameters :: "TrackEntry option \<Rightarrow> Parameter list" where
  "largest_parameters track =
     (case track of None \<Rightarrow> []
      | Some t \<Rightarrow> (case te_largest t of None \<Rightarrow> [] | Some l \<Rightarrow> [Parameter_location kParameterLargestObject l]))"

abbreviation (input) pub_violation :: "string \<Rightarrow> 'a publisher_scheme \<Rightarrow> 'a publisher_scheme" where
  "pub_violation \<equiv> protocol_violation pub_terminate_subscriptions"

definition handle_request_update :: "RequestId \<Rightarrow> ControlMessage \<Rightarrow> 'a publisher_scheme \<Rightarrow> exn option \<times> 'a publisher_scheme" where
  "handle_request_update request_id message w =
     (case pb_requests w request_id of
        None \<Rightarrow> (None, w)
      | Some rq \<Rightarrow>
          (case decode_request_update (cm_payload message) of
             Inl e \<Rightarrow> (None, pub_violation e w)
           | Inr update \<Rightarrow>
               (case consume_peer_request_id (rum_request_id update) w of
                  (Some e, w) \<Rightarrow> (None, begin_close pub_terminate_subscriptions Close_InvalidRequestId e w)
                | (None, w) \<Rightarrow>
                    (case decode_subscription_options (rum_parameters update) no_options of
                       Inl e \<Rightarrow> (None, pub_violation e w)
                     | Inr options \<Rightarrow>
                         (case update_subscription request_id options w of
                            (Some rejected, w) \<Rightarrow>
                              (case encode_request_error (re_code rejected) (re_reason rejected) 0 of
                                 Inl e \<Rightarrow> (Some e, w)
                               | Inr bytes \<Rightarrow>
                                   finish request_id PublishDone_UpdateFailed (re_reason rejected)
                                     (snd (send (pq_stream rq) bytes False w)))
                          | (None, w) \<Rightarrow>
                              (case encode_request_ok (largest_parameters (find_track (pq_namespace rq, pq_name rq) w)) of
                                 Inl e \<Rightarrow> (Some e, w)
                               | Inr bytes \<Rightarrow> (None, snd (send (pq_stream rq) bytes False w))))))))"

function process_buffer ::
  "RequestId \<Rightarrow> bool \<Rightarrow> ByteBuffer \<Rightarrow> 'a publisher_scheme \<Rightarrow> exn option \<times> ByteBuffer \<times> 'a publisher_scheme" where
  "process_buffer request_id fin buffer w =
     (if pub_terminated request_id w then (None, buffer, w)
      else let parsed = read_control_message buffer 0
        in if cmr_status parsed \<noteq> Done
           then (None, buffer,
                 if fin \<and> buffer \<noteq> [] then pub_violation ''request stream ended mid-message'' w else w)
           else if cm_type (cmr_message parsed) = kMessageRequestUpdate
           then (case handle_request_update request_id (cmr_message parsed) w of
                   (Some e, w) \<Rightarrow> (Some e, drop (cmr_bytes parsed) buffer, w)
                 | (None, w) \<Rightarrow> process_buffer request_id fin (drop (cmr_bytes parsed) buffer) w)
           else (None, drop (cmr_bytes parsed) buffer,
                 pub_violation (''unexpected message '' @ to_string (unat (cm_type (cmr_message parsed)))
                   @ '' on SUBSCRIBE request stream'') w))"
  by pat_completeness auto
termination
  by (relation "measure (\<lambda>(request_id, fin, buffer, w). length buffer)")
    (use read_control_message_bounds in fastforce)+

declare process_buffer.simps [simp del]

text \<open>\<open>SubscriptionRequest::on_receive\<close>; an exception leaves it.\<close>

definition pub_request_on_receive ::
  "RequestId \<Rightarrow> ByteBuffer list \<Rightarrow> bool \<Rightarrow> 'a publisher_scheme \<Rightarrow> exn option \<times> 'a publisher_scheme" where
  "pub_request_on_receive request_id chunks fin w =
     (case pb_requests w request_id of
        None \<Rightarrow> (None, w)
      | Some rq \<Rightarrow>
          if pq_terminated rq then (None, w)
          else case process_buffer request_id fin (pq_buffer rq @ concat chunks) w of (e, buffer, w) \<Rightarrow>
            (e, w\<lparr>pb_requests := (pb_requests w)(request_id :=
                   map_option (\<lambda>rq. rq\<lparr>pq_buffer := buffer\<rparr>) (pb_requests w request_id))\<rparr>))"

definition reject_subscribe :: "stream_ref \<Rightarrow> RequestErrorCode \<Rightarrow> string \<Rightarrow> 'a publisher_scheme \<Rightarrow> exn option \<times> 'a publisher_scheme" where
  "reject_subscribe st code reason w =
     (case encode_request_error code reason 0 of
        Inl e \<Rightarrow> (Some e, w)
      | Inr bytes \<Rightarrow> (None, abort_receive st PubReset_Cancelled (snd (send st bytes True w))))"

text \<open>The end of \<open>accept_subscribe\<close>, once the subscription is attached.\<close>

definition accept_attached ::
  "Subscribe \<Rightarrow> TrackAlias \<Rightarrow> TrackEntry \<Rightarrow> stream_ref \<Rightarrow> ByteBuffer \<Rightarrow> bool \<Rightarrow> 'a publisher_scheme
     \<Rightarrow> exn option \<times> 'a publisher_scheme" where
  "accept_attached subscribe track_alias track st leftover fin w =
     (let request_id = sub_request_id subscribe;
          w = put_pub_request request_id
                \<lparr>pq_namespace = sub_namespace subscribe, pq_name = sub_name subscribe, pq_stream = st, pq_buffer = [],
                 pq_terminated = False\<rparr> w;
          w = set_sink st (Some (PublisherRequestSink request_id)) w;
          w = w\<lparr>pb_subscriptions := pb_subscriptions w @ [request_id]\<rparr>
      in case encode_subscribe_ok track_alias (largest_parameters (Some track)) (pt_properties (te_track track)) of
           Inl e \<Rightarrow> (Some e, w)
         | Inr bytes \<Rightarrow>
             (case send st bytes False w of
                (False, w) \<Rightarrow>
                  (None, begin_close pub_terminate_subscriptions Close_InternalError ''StreamSend failed for SUBSCRIBE_OK'' w)
              | (True, w) \<Rightarrow> pub_request_on_receive request_id [leftover] fin w))"

definition accept_subscribe ::
  "ByteBuffer \<Rightarrow> stream_ref \<Rightarrow> ByteBuffer \<Rightarrow> bool \<Rightarrow> 'a publisher_scheme \<Rightarrow> exn option \<times> 'a publisher_scheme" where
  "accept_subscribe payload st leftover fin w =
     (case decode_subscribe payload of
        Inl e \<Rightarrow> (None, begin_close pub_terminate_subscriptions Close_ProtocolViolation e w)
      | Inr subscribe \<Rightarrow>
          (case consume_peer_request_id (sub_request_id subscribe) w of
             (Some e, w) \<Rightarrow> (None, begin_close pub_terminate_subscriptions Close_InvalidRequestId e w)
           | (None, w) \<Rightarrow>
               (case decode_subscription_options (sub_parameters subscribe) no_options of
                  Inl e \<Rightarrow> (None, begin_close pub_terminate_subscriptions Close_ProtocolViolation e w)
                | Inr options \<Rightarrow>
                    if reserved_namespace (sub_namespace subscribe)
                    then reject_subscribe st RequestError_DoesNotExist ''reserved track namespace'' w
                    else if length (pb_subscriptions w) \<ge> pb_max_subscriptions w
                    then reject_subscribe st RequestError_ExcessiveLoad ''subscription limit reached'' w
                    else case find_track (sub_namespace subscribe, sub_name subscribe) w of
                      None \<Rightarrow> reject_subscribe st RequestError_DoesNotExist ''track is not published here'' w
                    | Some track \<Rightarrow>
                        (let track_alias = pb_next_track_alias w;
                             w = w\<lparr>pb_next_track_alias := pb_next_track_alias w + 1\<rparr>
                         in case attach_subscription (sub_request_id subscribe) track_alias
                                   (sub_namespace subscribe, sub_name subscribe) options w of
                              (Some rejected, w) \<Rightarrow> reject_subscribe st (re_code rejected) (re_reason rejected) w
                            | (None, w) \<Rightarrow> accept_attached subscribe track_alias track st leftover fin w))))"

definition pub_handle_data_stream :: "u64 \<Rightarrow> stream_ref \<Rightarrow> ByteBuffer \<Rightarrow> bool \<Rightarrow> 'a publisher_scheme \<Rightarrow> 'a publisher_scheme" where
  "pub_handle_data_stream type st prefix fin w = abort_receive st PubReset_Cancelled w"

definition pub_handle_peer_request ::
  "ControlMessage \<Rightarrow> stream_ref \<Rightarrow> ByteBuffer \<Rightarrow> bool \<Rightarrow> 'a publisher_scheme \<Rightarrow> 'a publisher_scheme" where
  "pub_handle_peer_request message st leftover fin w =
     (if se_phase w = Closing \<or> se_phase w = Closed then w
      else if se_phase w \<noteq> Ready
      then begin_close pub_terminate_subscriptions Close_ProtocolViolation ''peer request before SETUP completed'' w
      else
        (case (if cm_type message = kMessageSubscribe then accept_subscribe (cm_payload message) st leftover fin w
               else if \<not> known_peer_request_type (cm_type message)
               then (None, begin_close pub_terminate_subscriptions Close_ProtocolViolation
                       (''unknown peer request type '' @ to_string (unat (cm_type message))) w)
               else let publish = (cm_type message = kMessagePublish)
                 in reject_subscribe st (if publish then RequestError_Uninterested else RequestError_NotSupported)
                      (if publish then ''publisher is not accepting PUBLISH'' else ''publisher-only implementation'') w) of
           (None, w) \<Rightarrow> w
         | (Some e, w) \<Rightarrow> begin_close pub_terminate_subscriptions Close_InternalError (exn_what e) w))"

section \<open>The role\<close>

definition pub_role :: "('a publisher_scheme) role" where
  "pub_role =
     \<lparr>role_terminate = pub_terminate_subscriptions, role_on_ready = on_ready,
      role_data_stream = pub_handle_data_stream, role_peer_request = pub_handle_peer_request\<rparr>"

text \<open>Nothing catches an exception on a thread of the transport.\<close>

definition uncaught :: "exn option \<times> 'a transport_scheme \<Rightarrow> 'a transport_scheme" where
  "uncaught r = (case fst r of None \<Rightarrow> snd r | Some _ \<Rightarrow> emit StdTerminate (snd r))"

fun pub_sink_receive :: "sink \<Rightarrow> stream_ref \<Rightarrow> ByteBuffer list \<Rightarrow> bool \<Rightarrow> 'a publisher_scheme \<Rightarrow> 'a publisher_scheme" where
  "pub_sink_receive PeerStreamGateSink st chunks fin w = gate_on_receive pub_role st chunks fin w"
| "pub_sink_receive (PublisherRequestSink request_id) st chunks fin w =
     uncaught (pub_request_on_receive request_id chunks fin w)"
| "pub_sink_receive (AnnouncementSink name) st chunks fin w = announcement_on_receive st chunks w"
| "pub_sink_receive _ st chunks fin w = w"

fun pub_sink_cancelled :: "sink \<Rightarrow> stream_ref \<Rightarrow> 'a publisher_scheme \<Rightarrow> 'a publisher_scheme" where
  "pub_sink_cancelled (PublisherRequestSink request_id) st w = cancel request_id PubReset_Cancelled w"
| "pub_sink_cancelled _ st w = w"

definition pub_sinks :: "('a publisher_scheme) sink_handlers" where
  "pub_sinks =
     \<lparr>on_sink_receive = pub_sink_receive, on_sink_send_aborted = (\<lambda>k st code. pub_sink_cancelled k st),
      on_sink_receive_aborted = (\<lambda>k st code. pub_sink_cancelled k st), on_sink_closed = pub_sink_cancelled\<rparr>"

text \<open>A publisher does not override \<open>Session::on_datagram\<close>, which does nothing.\<close>

definition pub_callbacks :: "('a publisher_scheme) session_callbacks" where
  "pub_callbacks =
     \<lparr>sc_connected = connected pub_terminate_subscriptions on_ready,
      sc_datagram_received = (\<lambda>bytes w. w),
      sc_transport_error = transport_error pub_terminate_subscriptions\<rparr>"

datatype publisher_event =
    PubConnection connection_event
  | PubStream stream_ref stream_event
  | PubReady
  | PubRegister PublishedTrack
  | PubUnregister TrackKey
  | PubPublish PublishedObject
  | PubEndTrack TrackKey u64 string
  | PubClose u64
  | PubCloseAndWait

text \<open>An exception out of a call of the application goes back to the application.\<close>

fun publisher_step :: "publisher_event \<Rightarrow> 'a publisher_scheme \<Rightarrow> 'a publisher_scheme" where
  "publisher_step (PubConnection event) w = connection_callback pub_callbacks event w"
| "publisher_step (PubStream st event) w =
     stream_callback pub_sinks (transport_error pub_terminate_subscriptions) st event w"
| "publisher_step PubReady w = snd (ready w)"
| "publisher_step (PubRegister track) w = pub_register_track track w"
| "publisher_step (PubUnregister key) w = snd (pub_unregister_track key w)"
| "publisher_step (PubPublish object) w = snd (pub_publish object w)"
| "publisher_step (PubEndTrack key code reason) w = snd (end_track key code reason w)"
| "publisher_step (PubClose error) w = close pub_terminate_subscriptions error w"
| "publisher_step PubCloseAndWait w = close_and_wait pub_terminate_subscriptions w"

definition initial_publisher :: "(nat \<Rightarrow> bool) \<Rightarrow> (nat \<Rightarrow> string) \<Rightarrow> MsQuicClientConfig \<Rightarrow> nat \<Rightarrow> publisher" where
  "initial_publisher answer status config max_subscriptions =
     \<lparr>tp_answer = answer, tp_status = status, tp_calls = 0, tp_streams = Map.empty, tp_next_stream = 0,
      tp_registered = [], tp_alive = True, tp_shutdown_requested = False, tp_log = [],
      se_config = config, se_phase = Init, se_local_setup_sent = False, se_peer_setup_received = False,
      se_negotiated_version = None, se_close_reason = None, se_next_request_id = 0, se_promises = Map.empty,
      se_next_promise = 0, se_ready_waiters = [], se_gates = Map.empty,
      sp_tracks = [], sp_subscriptions = Map.empty,
      pb_max_subscriptions = max_subscriptions, pb_next_track_alias = 0, pb_peer_request_ids = {},
      pb_requests = Map.empty, pb_subscriptions = [], pb_pending_announcements = [],
      pb_announced_namespaces = Map.empty, pb_announcement_buffers = Map.empty\<rparr>"

end
