(* ===== verification/Session_Ages.thy ===== *)
theory Session_Ages
  imports Adapter
begin

text \<open>
  What a session does to its state over time, for either role: the phase only advances, a
  settled promise keeps its result, the first reason for closing stays, Request IDs grow, the
  log of effects is only appended to. The locale \<open>session_role\<close> is the contract of the
  virtual functions a role supplies.
\<close>

section \<open>Well-formed sessions\<close>

text \<open>
  Promises are numbered in order; a reason for closing is only set when the session closes; a
  ready session has sent and received SETUP, and one that has is ready or closed; the client's
  Request IDs are even.
\<close>

definition session_wf :: "'a session_scheme \<Rightarrow> bool" where
  "session_wf w \<longleftrightarrow>
     (\<forall>p. se_promises w p \<noteq> None \<longrightarrow> p < se_next_promise w) \<and>
     (se_close_reason w \<noteq> None \<longrightarrow> se_phase w \<ge> Closing) \<and>
     (se_phase w = Ready \<longrightarrow> se_local_setup_sent w \<and> se_peer_setup_received w \<and> se_negotiated_version w = Some kAlpn) \<and>
     (se_local_setup_sent w \<longrightarrow> se_peer_setup_received w \<longrightarrow> se_phase w \<ge> Ready) \<and>
     even (unat (se_next_request_id w))"

definition keeps_results :: "'a session_scheme \<Rightarrow> 'a session_scheme \<Rightarrow> bool" where
  "keeps_results w w' \<longleftrightarrow>
     (\<forall>p v. se_promises w p = Some v \<longrightarrow> v \<noteq> Pending \<longrightarrow> se_promises w' p = Some v) \<and>
     (\<forall>p. se_promises w p \<noteq> None \<longrightarrow> se_promises w' p \<noteq> None) \<and>
     (\<forall>r. se_close_reason w = Some r \<longrightarrow> se_close_reason w' = Some r)"

definition log_extends :: "'a transport_scheme \<Rightarrow> 'a transport_scheme \<Rightarrow> bool" where
  "log_extends w w' \<longleftrightarrow> (\<exists>more. tp_log w' = tp_log w @ more)"

lemma log_extends_trans: "log_extends a b \<Longrightarrow> log_extends b c \<Longrightarrow> log_extends a c"
  by (auto simp: log_extends_def)

definition ages :: "'a session_scheme \<Rightarrow> 'a session_scheme \<Rightarrow> bool" where
  "ages w w' \<longleftrightarrow>
     tp_answer w' = tp_answer w \<and> tp_status w' = tp_status w \<and> se_config w' = se_config w \<and>
     tp_calls w \<le> tp_calls w' \<and> tp_next_stream w \<le> tp_next_stream w' \<and> log_extends w w' \<and>
     se_phase w \<le> se_phase w' \<and> se_next_request_id w \<le> se_next_request_id w' \<and> se_next_promise w \<le> se_next_promise w' \<and>
     (session_wf w \<longrightarrow> session_wf w' \<and> keeps_results w w')"

lemma ages_refl [simp, intro]: "ages w w"
  by (simp add: ages_def keeps_results_def log_extends_def)

lemma keeps_results_trans: "keeps_results a b \<Longrightarrow> keeps_results b c \<Longrightarrow> keeps_results a c"
  unfolding keeps_results_def by blast

lemma ages_trans [trans]: "ages a b \<Longrightarrow> ages b c \<Longrightarrow> ages a c"
  unfolding ages_def by (auto intro: keeps_results_trans log_extends_trans)

section \<open>Operations of the transport and the session\<close>

text \<open>Only the transport changes.\<close>

lemma ages_transport:
  assumes "tp_answer w' = tp_answer w" "tp_status w' = tp_status w" "tp_calls w \<le> tp_calls w'"
    "tp_next_stream w \<le> tp_next_stream w'" "log_extends w w'"
    "se_config w' = se_config w" "se_phase w' = se_phase w" "se_local_setup_sent w' = se_local_setup_sent w"
    "se_peer_setup_received w' = se_peer_setup_received w" "se_negotiated_version w' = se_negotiated_version w"
    "se_close_reason w' = se_close_reason w" "se_next_request_id w' = se_next_request_id w"
    "se_promises w' = se_promises w" "se_next_promise w' = se_next_promise w"
  shows "ages w w'"
  using assms by (simp add: ages_def log_extends_def session_wf_def keeps_results_def)

lemma ages_emit: "ages w (emit e w)"
  by (rule ages_transport) (simp_all add: emit_def log_extends_def)

lemma ages_stream:
  "ages w (abort_receive st code w)" "ages w (abort_send st code w)" "ages w (set_sink st k w)"
  "ages w (shutdown code w)" "ages w (remove_stream st w)" "ages w (close_handle st w)"
  "ages w (set_stream_id st sid w)" "ages w (snd (new_stream uni sid w))" "ages w (snd (send st bytes fin w))"
  "ages w (snd (finish_send st w))" "ages w (snd (send_datagram bytes w))" "ages w (snd (open_stream uni w))"
  by (rule ages_transport;
      simp add: abort_receive_def abort_send_def set_sink_def shutdown_def remove_stream_def close_handle_def
        set_stream_id_def new_stream_def send_def finish_send_def send_datagram_def open_stream_def quic_call_def
        quic_status_def emit_def log_extends_def Let_def del: append.simps)+

lemma ages_gates:
  "ages w (put_gate st m bytes w)" "ages w (w\<lparr>se_gates := g\<rparr>)" "ages w (w\<lparr>se_ready_waiters := l\<rparr>)" "ages w (w\<lparr>tp_alive := b\<rparr>)"
  by (rule ages_transport; simp add: put_gate_def log_extends_def)+

lemma ages_settle:
  "se_promises w p = Some Pending \<Longrightarrow> ages w (w\<lparr>se_promises := (se_promises w)(p \<mapsto> v)\<rparr>)"
  by (auto simp: ages_def log_extends_def session_wf_def keeps_results_def)

lemma ages_fail: "ages w (Session.fail p e w)"
  by (simp add: Session.fail_def ages_settle)

lemma ages_set_value: "ages w (set_value p v w)"
  by (simp add: set_value_def ages_settle ages_emit)

lemma ages_fail_all: "ages w (fail_all ps e w)"
  by (induction ps arbitrary: w) (auto intro: ages_trans [OF ages_fail])

lemma ages_set_all: "ages w (set_all ps v w)"
  by (induction ps arbitrary: w) (auto intro: ages_trans [OF ages_set_value])

lemma ages_fail_ready_waiters: "ages w (fail_ready_waiters reason w)"
  unfolding fail_ready_waiters_def by (rule ages_trans [OF ages_fail_all ages_gates(3)])

lemma ages_new_promise: "ages w (snd (new_promise w))"
  by (auto simp: new_promise_def ages_def log_extends_def session_wf_def keeps_results_def less_Suc_eq)

lemma even_unat_add: "unat (i :: u64) + unat (2 :: u64) < 2 ^ 64 \<Longrightarrow> even (unat i) \<Longrightarrow> even (unat (i + 2))"
  by (simp add: unat_word_ariths(1))

lemma ages_allocate: "ages w (snd (allocate_request_id w))"
proof (cases "se_next_request_id w > u64_max - 2")
  case False
  then have fits: "unat (se_next_request_id w) + unat (2 :: u64) < 2 ^ 64"
    unfolding not_less u64_max_add .
  then have "se_next_request_id w \<le> se_next_request_id w + 2"
    by (simp add: word_le_nat_alt unat_word_ariths(1))
  with False even_unat_add [OF fits] show ?thesis
    by (auto simp: allocate_request_id_def ages_def log_extends_def session_wf_def keeps_results_def)
qed (simp add: allocate_request_id_def)

lemma ages_ready: "ages w (snd (ready w))"
proof -
  obtain p w1 where n: "new_promise w = (p, w1)" by fastforce
  have "ages w w1" using ages_new_promise [of w] n by simp
  then show ?thesis
    using n by (auto simp: ready_def intro: ages_trans ages_set_value ages_fail ages_gates(3))
qed

lemma ages_shutdown_complete: "ages w (shutdown_complete h w)"
proof -
  define w1 where "w1 = (if \<not> h \<and> se_close_reason w = None
      then w\<lparr>se_close_reason := Some (Close_InternalError, ''QUIC handshake did not complete'')\<rparr> else w)\<lparr>se_phase := Closed\<rparr>"
  have "ages w w1"
    by (cases "se_phase w") (auto simp: w1_def ages_def log_extends_def session_wf_def keeps_results_def phase_order)
  then show ?thesis
    unfolding shutdown_complete_def Let_def w1_def by (rule ages_trans [OF _ ages_fail_ready_waiters])
qed

lemma peer_stream_started_ages:
  "new_stream uni sid w = (st, w') \<Longrightarrow> ages w (on_peer_stream_started st w')"
  using ages_trans [OF ages_stream(8) [of w uni sid] ages_trans [OF ages_gates(2) ages_stream(3)]]
  by (simp add: on_peer_stream_started_def)

text \<open>One of the two SETUP flags is raised; what a role does once the session is ready comes after.\<close>

lemma maybe_ready_split:
  "maybe_ready f w = (if \<not> se_local_setup_sent w \<or> \<not> se_peer_setup_received w \<or> se_phase w \<ge> Ready then w
     else f (maybe_ready (\<lambda>w. w) w))"
  by (simp add: maybe_ready_def Let_def)

lemma setup_flag_ages:
  assumes w0: "w0 = w\<lparr>se_local_setup_sent := True\<rparr> \<or> w0 = w\<lparr>se_peer_setup_received := True\<rparr>"
  shows "ages w (maybe_ready (\<lambda>w. w) w0)"
proof (cases "\<not> se_local_setup_sent w0 \<or> \<not> se_peer_setup_received w0 \<or> se_phase w0 \<ge> Ready")
  case True
  then have "ages w w0" using w0 by (auto simp: ages_def log_extends_def session_wf_def keeps_results_def)
  with True show ?thesis by (auto simp: maybe_ready_def)
next
  case False
  let ?w = "w0\<lparr>se_phase := Ready, se_negotiated_version := Some kAlpn\<rparr>"
  have "ages w ?w"
    using w0 False by (auto simp: ages_def log_extends_def session_wf_def keeps_results_def phase_order)
  from ages_trans [OF ages_trans [OF this ages_set_all] ages_gates(3)] False
  show ?thesis by (simp add: maybe_ready_def Let_def)
qed

text \<open>An action that moreover leaves the gates of peer streams alone.\<close>

definition grows :: "'a session_scheme \<Rightarrow> 'a session_scheme \<Rightarrow> bool" where
  "grows w w' \<longleftrightarrow> ages w w' \<and> se_gates w' = se_gates w"

lemma grows_refl [simp, intro]: "grows w w"
  by (simp add: grows_def)

lemma grows_trans [trans]: "grows a b \<Longrightarrow> grows b c \<Longrightarrow> grows a c"
  by (auto simp: grows_def intro: ages_trans)

lemma grows_ages: "grows w w' \<Longrightarrow> ages w w'"
  by (simp add: grows_def)

lemma grows_emit: "grows w (emit e w)"
  by (simp add: grows_def ages_emit) (simp add: emit_def)

lemma grows_stream:
  "grows w (abort_receive st code w)" "grows w (abort_send st code w)" "grows w (set_sink st k w)"
  "grows w (shutdown code w)" "grows w (snd (send st bytes fin w))" "grows w (snd (finish_send st w))"
  "grows w (snd (send_datagram bytes w))" "grows w (snd (open_stream uni w))"
  by (simp_all add: grows_def ages_stream)
    (simp_all add: abort_receive_def abort_send_def set_sink_def shutdown_def send_def finish_send_def send_datagram_def
      open_stream_def quic_call_def new_stream_def remove_stream_def close_handle_def emit_def Let_def)

lemma grows_fail: "grows w (Session.fail p e w)"
  by (simp add: grows_def ages_fail) (simp add: Session.fail_def)

lemma grows_set_value: "grows w (set_value p v w)"
  by (simp add: grows_def ages_set_value) (simp add: set_value_def emit_def)

lemma grows_fail_all: "grows w (fail_all ps e w)"
  by (induction ps arbitrary: w) (auto intro: grows_trans [OF grows_fail])

lemma grows_fail_ready_waiters: "grows w (fail_ready_waiters reason w)"
  using grows_fail_all [of w "se_ready_waiters w" "PError reason"] ages_fail_ready_waiters [of w reason]
  by (simp add: grows_def fail_ready_waiters_def)

lemma grows_new_promise: "grows w (snd (new_promise w))"
  by (simp add: grows_def ages_new_promise) (simp add: new_promise_def)

lemma grows_allocate: "grows w (snd (allocate_request_id w))"
  by (simp add: grows_def ages_allocate) (simp add: allocate_request_id_def)

section \<open>The contracts of a role\<close>

text \<open>\<open>terminate_subscriptions\<close> is all that closing a session needs to know.\<close>

locale session_closing =
  fixes terminate_all_of :: "string \<Rightarrow> 'a session_scheme \<Rightarrow> 'a session_scheme"
  assumes terminate_grows: "grows w (terminate_all_of reason w)"
begin

lemma begin_close_grows: "grows w (begin_close terminate_all_of code reason w)"
proof (cases "se_phase w \<ge> Closing")
  case False
  let ?w = "w\<lparr>se_phase := Closing, se_close_reason := Some (code, reason)\<rparr>"
  have 1: "grows w ?w"
    using False by (auto simp: grows_def ages_def log_extends_def session_wf_def keeps_results_def phase_order)
  have 2: "grows w' (if tp_alive w' then shutdown code w' else w')" for w' :: "'a session_scheme"
    by (simp add: grows_stream)
  show ?thesis
    using False grows_trans [OF grows_trans [OF grows_trans [OF 1 grows_fail_ready_waiters] terminate_grows] 2]
    by (simp add: begin_close_def Let_def)
qed (simp add: begin_close_def)

text \<open>The first close wins: its code and reason are what the session reports.\<close>

lemma begin_close_reason:
  assumes "session_wf w" "se_phase w < Closing"
  shows "se_close_reason (begin_close terminate_all_of code reason w) = Some (code, reason)
    \<and> se_phase (begin_close terminate_all_of code reason w) \<ge> Closing"
proof -
  let ?w = "w\<lparr>se_phase := Closing, se_close_reason := Some (code, reason)\<rparr>"
  let ?t = "terminate_all_of reason (fail_ready_waiters (if reason = [] then ''MOQT session closing'' else reason) ?w)"
  have "session_wf ?w" using assms by (auto simp: session_wf_def phase_order)
  with grows_ages [OF grows_trans [OF grows_fail_ready_waiters terminate_grows], of ?w]
  have "se_close_reason ?t = Some (code, reason) \<and> se_phase ?t \<ge> Closing" by (auto simp: ages_def keeps_results_def)
  with assms(2) show ?thesis by (auto simp: begin_close_def Let_def shutdown_def emit_def not_le)
qed

lemma protocol_violation_grows: "grows w (protocol_violation terminate_all_of e w)"
  by (simp add: protocol_violation_def begin_close_grows)

lemma close_grows: "grows w (close terminate_all_of code w)"
  by (simp add: close_def begin_close_grows)

lemma transport_error_grows: "grows w (Session.transport_error terminate_all_of e w)"
  by (simp add: Session.transport_error_def begin_close_grows)

lemma close_and_wait_ages: "ages w (close_and_wait terminate_all_of w)"
  by (simp add: close_and_wait_def ages_trans [OF grows_ages [OF begin_close_grows] ages_gates(4)])

end

text \<open>The virtual functions the gate and the connection callbacks call.\<close>

locale session_role =
  fixes role :: "('a session_scheme) role"
  assumes role_terminate_grows: "grows w (role_terminate role reason w)"
    and role_on_ready_ages: "ages w (role_on_ready role w)"
    and role_data_stream_ages: "ages w (role_data_stream role type st prefix fin w)"
    and role_peer_request_ages: "ages w (role_peer_request role message st leftover fin w)"

sublocale session_role \<subseteq> session_closing "role_terminate role"
  by unfold_locales (rule role_terminate_grows)

context session_role
begin

lemmas begin_close_ages = grows_ages [OF begin_close_grows]

lemmas protocol_violation_ages = grows_ages [OF protocol_violation_grows]

lemma maybe_ready_ages:
  assumes "w0 = w\<lparr>se_local_setup_sent := True\<rparr> \<or> w0 = w\<lparr>se_peer_setup_received := True\<rparr>"
  shows "ages w (maybe_ready (role_on_ready role) w0)"
  using setup_flag_ages [OF assms] ages_trans [OF setup_flag_ages [OF assms] role_on_ready_ages]
  unfolding maybe_ready_split [of "role_on_ready role"] by (auto simp: maybe_ready_def)

lemma handle_peer_setup_ages: "ages w (handle_peer_setup (role_on_ready role) w)"
  unfolding handle_peer_setup_def by (rule maybe_ready_ages) simp

lemma connected_ages: "ages w (connected (role_terminate role) (role_on_ready role) w)"
proof (cases "se_phase w = Init")
  case True
  define w1 where "w1 = w\<lparr>se_phase := SetupInProgress\<rparr>"
  have a1: "ages w w1" using True by (auto simp: w1_def ages_def log_extends_def session_wf_def keeps_results_def phase_order)
  obtain y w2 where o: "open_stream True w1 = (y, w2)" by fastforce
  have a2: "ages w w2" using ages_trans [OF a1 ages_stream(12), of True] o by simp
  have sent: "ages w (case send st bytes False w2 of (False, w) \<Rightarrow>
         begin_close (role_terminate role) Close_InternalError ''StreamSend failed for SETUP'' w
       | (True, w) \<Rightarrow> maybe_ready (role_on_ready role) (w\<lparr>se_local_setup_sent := True\<rparr>))" for st bytes
  proof -
    obtain ok w3 where w3: "send st bytes False w2 = (ok, w3)" by fastforce
    have a3: "ages w w3" using ages_trans [OF a2 ages_stream(9), of st bytes False] w3 by simp
    show ?thesis
      unfolding w3 by (cases ok) (auto intro: ages_trans [OF a3] begin_close_ages maybe_ready_ages)
  qed
  show ?thesis
    using True o sent ages_trans [OF a2 begin_close_ages]
    by (auto simp: connected_def Let_def w1_def [symmetric] split: sum.split)
qed (simp add: connected_def)

lemma gate_first_message_ages: "ages w (gate_first_message role st bytes fin w)"
proof -
  have "ages w (protocol_violation (role_terminate role) e (put_gate st m b w))"
    "ages w (handle_peer_setup (role_on_ready role) (put_gate st m c (put_gate st m b w)))"
    "ages w (role_peer_request role message st leftover fin (put_gate st m b w))" for e m b c message leftover
    by (rule ages_trans [OF ages_gates(1) protocol_violation_ages]
        ages_trans [OF ages_trans [OF ages_gates(1) ages_gates(1)] handle_peer_setup_ages]
        ages_trans [OF ages_gates(1) role_peer_request_ages])+
  then show ?thesis
    by (auto simp: gate_first_message_def Let_def protocol_violation_ages split: sum.split)
qed

lemma gate_classify_ages: "ages w (gate_classify role st bytes fin w)"
proof -
  have "ages w (protocol_violation (role_terminate role) e (put_gate st m b w))"
    "ages w (role_data_stream role type st bytes fin (put_gate st m b w))" for e m b type
    by (rule ages_trans [OF ages_gates(1) protocol_violation_ages] ages_trans [OF ages_gates(1) role_data_stream_ages])+
  then show ?thesis
    by (auto simp: gate_classify_def Let_def protocol_violation_ages gate_first_message_ages ages_gates(1))
qed

lemma gate_on_receive_ages: "ages w (gate_on_receive role st chunks fin w)"
  using ages_trans [OF ages_gates(1) gate_classify_ages]
  by (auto simp: gate_on_receive_def Let_def protocol_violation_ages split: option.split)

end

end
