(* ===== verification/Publisher_Lifting.thy ===== *)
theory Publisher_Lifting
  imports Publisher Session_Ages
begin

text \<open>
  The contract of a property of publisher states that survives everything a publisher does. The
  locale \<open>publisher_lifting\<close> asks for the steps the code is made of: a call into the
  transport, closing, ending one subscription, admitting one, changing the send state of one. Its
  lemmas carry the property through every function of \<^verbatim>\<open>publisher_session.cpp\<close> and
  \<^verbatim>\<open>send_data_plane.cpp\<close> to the events of \<open>publisher_step\<close>.
\<close>

section \<open>Pieces of the handlers\<close>

text \<open>What \<open>accept_subscribe\<close> does to the state once a subscription is attached.\<close>

definition admit :: "Subscribe \<Rightarrow> stream_ref \<Rightarrow> 'a publisher_scheme \<Rightarrow> 'a publisher_scheme" where
  "admit subscribe st w =
     (let request_id = sub_request_id subscribe;
          w = put_pub_request request_id
                \<lparr>pq_namespace = sub_namespace subscribe, pq_name = sub_name subscribe, pq_stream = st, pq_buffer = [],
                 pq_terminated = False\<rparr> w;
          w = set_sink st (Some (PublisherRequestSink request_id)) w
      in w\<lparr>pb_subscriptions := pb_subscriptions w @ [request_id]\<rparr>)"

lemma accept_attached_eq:
  "accept_attached subscribe track_alias track st leftover fin w =
     (case encode_subscribe_ok track_alias (largest_parameters (Some track)) (pt_properties (te_track track)) of
           Inl e \<Rightarrow> (Some e, admit subscribe st w)
         | Inr bytes \<Rightarrow>
             (case send st bytes False (admit subscribe st w) of (ok, w) \<Rightarrow>
                if ok then pub_request_on_receive (sub_request_id subscribe) [leftover] fin w
                else (None, begin_close pub_terminate_subscriptions Close_InternalError ''StreamSend failed for SUBSCRIBE_OK'' w)))"
  by (simp add: accept_attached_def admit_def Let_def split: sum.split prod.split)

text \<open>The send state of a subscription after a change that keeps what it is a subscription to.\<close>

definition same_subscription :: "SubscriptionSend \<Rightarrow> SubscriptionSend \<Rightarrow> bool" where
  "same_subscription s s' \<longleftrightarrow> ss_request_id s' = ss_request_id s \<and> ss_track_alias s' = ss_track_alias s \<and> ss_track_key s' = ss_track_key s
     \<and> (sorted_wrt key_less (map fst (ss_streams s)) \<longrightarrow> sorted_wrt key_less (map fst (ss_streams s')))"

lemma same_subscription_refl [simp]: "same_subscription s s"
  by (simp add: same_subscription_def)

lemma same_subscription_trans: "same_subscription a b \<Longrightarrow> same_subscription b c \<Longrightarrow> same_subscription a c"
  by (auto simp: same_subscription_def)

section \<open>The ordered map of open streams\<close>

lemma key_less_irrefl [simp]: "\<not> key_less a a"
  by (simp add: key_less_def)

lemma key_less_trans: "key_less a b \<Longrightarrow> key_less b c \<Longrightarrow> key_less a c"
  by (auto simp: key_less_def)

lemma key_less_total: "key_less a b \<or> a = b \<or> key_less b a"
  by (auto simp: key_less_def prod_eq_iff)

lemma set_stream_put: "fst ` set (stream_put k v m) = insert k (fst ` set m)"
  by (induction k v m rule: stream_put.induct) auto

lemma sorted_stream_put: "sorted_wrt key_less (map fst m) \<Longrightarrow> sorted_wrt key_less (map fst (stream_put k v m))"
proof (induction k v m rule: stream_put.induct)
  case (2 k v k' v' m)
  have less: "key_less k' y" if "y \<in> fst ` set m" for y using "2.prems" that by auto
  consider "k = k'" | "k \<noteq> k'" "key_less k k'" | "k \<noteq> k'" "\<not> key_less k k'" by blast
  then show ?case
  proof cases
    case 1
    then show ?thesis using "2.prems" by simp
  next
    case 2
    then have "\<forall>y\<in>fst ` set m. key_less k y" using less key_less_trans by blast
    with 2 "2.prems" show ?thesis by simp
  next
    case 3
    then have "key_less k' k" using key_less_total by blast
    then have "\<forall>y\<in>fst ` set (stream_put k v m). key_less k' y" using less unfolding set_stream_put by auto
    with 3 "2.IH" "2.prems" show ?thesis by simp
  qed
qed simp

lemma sorted_stream_erase: "sorted_wrt key_less (map fst m) \<Longrightarrow> sorted_wrt key_less (map fst (stream_erase k m))"
  by (induction m) (auto simp: stream_erase_def)

lemma stream_map_lookup:
  "map_of (stream_put k v m) = (map_of m)(k \<mapsto> v)" "map_of (stream_erase k m) = (map_of m)(k := None)"
proof -
  show "map_of (stream_put k v m) = (map_of m)(k \<mapsto> v)"
    by (induction k v m rule: stream_put.induct) (auto simp: fun_eq_iff)
  show "map_of (stream_erase k m) = (map_of m)(k := None)"
    by (induction m) (auto simp: stream_erase_def fun_eq_iff)
qed

text \<open>A \<^verbatim>\<open>std::map\<close> as the send plane uses it.\<close>

locale ordered_map =
  fixes lookup :: "'m \<Rightarrow> 'k \<Rightarrow> 'v option" and put :: "'k \<Rightarrow> 'v \<Rightarrow> 'm \<Rightarrow> 'm" and erase :: "'k \<Rightarrow> 'm \<Rightarrow> 'm"
    and keys :: "'m \<Rightarrow> 'k list" and less :: "'k \<Rightarrow> 'k \<Rightarrow> bool"
  assumes lookup_put: "lookup (put k v m) = (lookup m)(k \<mapsto> v)"
    and lookup_erase: "lookup (erase k m) = (lookup m)(k := None)"
    and keys_put: "sorted_wrt less (keys m) \<Longrightarrow> sorted_wrt less (keys (put k v m))"
    and keys_erase: "sorted_wrt less (keys m) \<Longrightarrow> sorted_wrt less (keys (erase k m))"
    and keys_lookup: "set (keys m) = dom (lookup m)"
begin

lemma keys_replaced: "sorted_wrt less (keys m) \<Longrightarrow> sorted_wrt less (keys (erase j (put k v m)))"
  by (intro keys_put keys_erase)

lemma set_keys_put: "set (keys (put k v m)) = insert k (set (keys m))"
  by (simp add: keys_lookup lookup_put)

lemma set_keys_erase: "set (keys (erase k m)) = set (keys m) - {k}"
  by (auto simp: keys_lookup lookup_erase)

end

interpretation stream_map: ordered_map map_of stream_put stream_erase "map fst" key_less
  by unfold_locales
    (simp_all add: stream_map_lookup sorted_stream_put sorted_stream_erase dom_map_of_conv_image_fst)

section \<open>Closing a publisher\<close>

lemma grows_pub_state:
  "grows w (put_pub_request i rq w)" "grows w (put_track key entry w)" "grows w (put_subscription i s w)"
  "grows w (w\<lparr>sp_tracks := t\<rparr>)" "grows w (w\<lparr>sp_subscriptions := m\<rparr>)" "grows w (w\<lparr>pb_subscriptions := l\<rparr>)"
  "grows w (w\<lparr>pb_requests := r\<rparr>)" "grows w (w\<lparr>pb_next_track_alias := a\<rparr>)" "grows w (w\<lparr>pb_peer_request_ids := ids\<rparr>)"
  "grows w (w\<lparr>pb_pending_announcements := ns\<rparr>)" "grows w (w\<lparr>pb_announced_namespaces := an\<rparr>)"
  "grows w (w\<lparr>pb_announcement_buffers := bufs\<rparr>)"
  unfolding grows_def
  by (intro conjI ages_transport; simp add: put_pub_request_def put_track_def put_subscription_def log_extends_def)+

lemma grows_end_streams: "grows w (end_streams m reset_error w)" for w :: "'a session_scheme"
proof (induction m reset_error w rule: end_streams.induct)
  case (2 k s m reset_error w)
  then show ?case
    by (cases reset_error) (auto intro: grows_trans [OF grows_stream(6)] grows_trans [OF grows_stream(2)])
qed simp

lemma detach_eq:
  "sp_subscriptions w i = Some s \<Longrightarrow> snd (detach_subscription i reset_error w) =
     (case map_of (sp_tracks w) (ss_track_key s) of
        None \<Rightarrow> end_streams (ss_streams s) reset_error w
      | Some entry \<Rightarrow> put_track (ss_track_key s) (entry\<lparr>te_subscriptions := removeAll i (te_subscriptions entry)\<rparr>)
          (end_streams (ss_streams s) reset_error w))\<lparr>sp_subscriptions := (sp_subscriptions w)(i := None)\<rparr>"
proof -
  have same: "sp_tracks (end_streams m reset_error w) = sp_tracks w \<and> sp_subscriptions (end_streams m reset_error w) = sp_subscriptions w"
    for m and w :: "'a sender_scheme"
    by (induction m reset_error w rule: end_streams.induct)
      (auto simp: abort_send_def finish_send_def quic_call_def emit_def split: option.split)
  assume "sp_subscriptions w i = Some s"
  then show ?thesis
    by (simp add: detach_subscription_def Let_def same put_track_def split: option.split)
qed

lemma grows_detach: "grows w (snd (detach_subscription i reset_error w))" for w :: "'a publisher_scheme"
proof (cases "sp_subscriptions w i")
  case (Some s)
  note e = grows_end_streams [of w "ss_streams s" reset_error]
  show ?thesis
    unfolding detach_eq [OF Some]
    using grows_trans [OF e grows_pub_state(5)] grows_trans [OF e grows_trans [OF grows_pub_state(2) grows_pub_state(5)]]
    by (simp split: option.split)
qed (simp add: detach_subscription_def)

lemma grows_mark: "grows w (mark_terminated i rq w)"
  unfolding mark_terminated_def by (rule grows_trans [OF grows_pub_state(1) grows_pub_state(6)])

lemma grows_finish: "grows w (snd (finish i code reason w))"
proof -
  obtain n w1 where d: "detach_subscription i None w = (n, w1)" by fastforce
  then have "grows w w1" using grows_detach [of w i None] by simp
  with d show ?thesis
    by (auto simp: finish_def split: option.split sum.split
        intro: grows_trans [OF grows_trans [OF grows_trans [OF _ grows_stream(5)] grows_stream(1)] grows_mark])
qed

lemma grows_cancel: "grows w (cancel i code w)"
  by (auto simp: cancel_def split: option.split
      intro: grows_trans [OF grows_trans [OF grows_trans [OF grows_detach grows_stream(2)] grows_stream(1)] grows_mark])

lemma grows_pub_terminate: "grows w (pub_terminate_subscriptions reason w)"
proof -
  have "grows w (cancel_all request_ids code w)" for request_ids code
    by (induction request_ids arbitrary: w) (auto intro: grows_trans [OF grows_cancel])
  then show ?thesis by (simp add: pub_terminate_subscriptions_def)
qed

interpretation pub_closing: session_closing pub_terminate_subscriptions
  by unfold_locales (rule grows_pub_terminate)

lemma open_stream_fails:
  "open_stream uni w = (Inl e, w') \<Longrightarrow> \<exists>n. \<not> tp_answer w n"
  by (auto simp: open_stream_def quic_call_def Let_def new_stream_def split: if_splits)

lemma open_stream_plane:
  "open_stream uni w = (x, w') \<Longrightarrow> sp_subscriptions w' = sp_subscriptions w"
  by (auto simp: open_stream_def quic_call_def Let_def new_stream_def emit_def close_handle_def remove_stream_def split: if_splits)

lemma open_data_stream_fails:
  assumes "open_data_stream w = (None, w')"
  shows "\<exists>n. \<not> tp_answer w' n"
proof -
  obtain e w1 where o: "open_stream True w = (Inl e, w1)" "w' = begin_close pub_terminate_subscriptions Close_InternalError (exn_what e) w1"
    using assms by (auto simp: open_data_stream_def split: prod.splits sum.splits)
  have "tp_answer w' = tp_answer w1"
    using pub_closing.begin_close_grows [of w1] o(2) by (simp add: grows_def ages_def)
  moreover have "tp_answer w1 = tp_answer w" using grows_stream(8) [of w True] o(1) by (simp add: grows_def ages_def)
  ultimately show ?thesis using open_stream_fails [OF o(1)] by simp
qed

section \<open>The lifting\<close>

text \<open>
  \<open>I_dangling\<close> is only asked for when a call into MsQuic can fail, and \<open>I_unregister\<close> only
  after \<open>end_track\<close> has ended the subscriptions of the track.
\<close>

locale publisher_lifting =
  fixes I :: "'a publisher_scheme \<Rightarrow> bool"
  assumes I_send: "I w \<Longrightarrow> I (snd (send st bytes fin w))"
    and I_finish_send: "I w \<Longrightarrow> I (snd (finish_send st w))"
    and I_abort_send: "I w \<Longrightarrow> I (abort_send st code w)"
    and I_abort_receive: "I w \<Longrightarrow> I (abort_receive st code w)"
    and I_set_sink: "I w \<Longrightarrow> I (set_sink st k w)"
    and I_open_stream: "I w \<Longrightarrow> I (snd (open_stream uni w))"
    and I_send_datagram: "I w \<Longrightarrow> I (snd (send_datagram bytes w))"
    and I_dangling: "I w \<Longrightarrow> \<not> tp_answer w n \<Longrightarrow> I (emit (DanglingRead i) w)"
    and I_allocate: "I w \<Longrightarrow> I (snd (allocate_request_id w))"
    and I_begin_close: "I w \<Longrightarrow> I (begin_close pub_terminate_subscriptions code reason w)"
    and I_announcements: "I w \<Longrightarrow> I (w\<lparr>pb_pending_announcements := l\<rparr>)" "I w \<Longrightarrow> I (w\<lparr>pb_announced_namespaces := m\<rparr>)"
      "I w \<Longrightarrow> I (w\<lparr>pb_announcement_buffers := bufs\<rparr>)"
    and I_buffer: "I w \<Longrightarrow> I (w\<lparr>pb_requests := (pb_requests w)(i := map_option (\<lambda>rq. rq\<lparr>pq_buffer := bytes\<rparr>) (pb_requests w i))\<rparr>)"
    and I_cancel: "I w \<Longrightarrow> I (cancel i code w)"
    and I_finish: "I w \<Longrightarrow> I (snd (finish i code reason w))"
    and I_consume: "I w \<Longrightarrow> I (snd (consume_peer_request_id i w))"
    and I_subscription: "I w \<Longrightarrow> sp_subscriptions w i = Some s \<Longrightarrow> same_subscription s s' \<Longrightarrow> I (put_subscription i s' w)"
    and I_largest: "I w \<Longrightarrow> map_of (sp_tracks w) key = Some entry \<Longrightarrow> I (put_track key (entry\<lparr>te_largest := largest\<rparr>) w)"
    and I_stale: "I w \<Longrightarrow> map_of (sp_tracks w) key = Some entry \<Longrightarrow> sp_subscriptions w i = None \<Longrightarrow>
      I (put_track key (entry\<lparr>te_subscriptions := removeAll i (te_subscriptions entry)\<rparr>) w)"
    and I_register: "I w \<Longrightarrow> I (snd (register_track track w))"
    and I_unregister: "I w \<Longrightarrow> end_track key code reason w = (None, w') \<Longrightarrow> I (snd (unregister_track key w'))"
    and I_alias: "I w \<Longrightarrow> consume_peer_request_id i w = (None, w') \<Longrightarrow> I (w'\<lparr>pb_next_track_alias := pb_next_track_alias w' + 1\<rparr>)"
    and I_admit: "I w \<Longrightarrow> se_phase w = Ready \<Longrightarrow> consume_peer_request_id (sub_request_id subscribe) w = (None, w1) \<Longrightarrow>
      length (pb_subscriptions w1) < pb_max_subscriptions w1 \<Longrightarrow>
      attach_subscription (sub_request_id subscribe) (pb_next_track_alias w1) (sub_namespace subscribe, sub_name subscribe) options
        (w1\<lparr>pb_next_track_alias := pb_next_track_alias w1 + 1\<rparr>) = (None, w2) \<Longrightarrow> I (admit subscribe st w2)"
begin

text \<open>The same facts for a call whose result is taken apart.\<close>

lemma I_of_send: "send st bytes fin w = (x, w') \<Longrightarrow> I w \<Longrightarrow> I w'"
  using I_send [of w st bytes fin] by simp

lemma I_of_open: "open_stream uni w = (x, w') \<Longrightarrow> I w \<Longrightarrow> I w'"
  using I_open_stream [of w uni] by simp

lemma I_of_allocate: "allocate_request_id w = (x, w') \<Longrightarrow> I w \<Longrightarrow> I w'"
  using I_allocate [of w] by simp

lemma I_of_consume: "consume_peer_request_id i w = (x, w') \<Longrightarrow> I w \<Longrightarrow> I w'"
  using I_consume [of w i] by simp

lemma I_of_finish: "finish i code reason w = (x, w') \<Longrightarrow> I w \<Longrightarrow> I w'"
  using I_finish [of w i code reason] by simp

lemma I_violation: "I w \<Longrightarrow> I (pub_violation e w)"
  by (simp add: protocol_violation_def I_begin_close)

lemma I_complete: "I w \<Longrightarrow> I (snd (complete_subscription i code reason w))"
  by (simp add: complete_subscription_def I_finish)

lemma I_complete_all: "I w \<Longrightarrow> I (snd (complete_all request_ids code reason w))"
proof (induction request_ids arbitrary: w)
  case (Cons i request_ids)
  obtain x w1 where c: "complete_subscription i code reason w = (x, w1)" by fastforce
  with Cons.prems I_complete [of w i code reason] have "I w1" by simp
  with c Cons.IH [of w1] show ?case by (cases x) simp_all
qed simp

lemma I_end_track: "I w \<Longrightarrow> I (snd (end_track key code reason w))"
  by (simp add: end_track_def I_complete_all split: option.split)

lemma I_open_data_stream: "I w \<Longrightarrow> I (snd (open_data_stream w))"
  by (auto simp: open_data_stream_def intro: I_begin_close I_of_open split: prod.split sum.split)

section \<open>Announcements\<close>

lemma I_announce: "I w \<Longrightarrow> I (announce_namespace n w)"
proof -
  assume w: "I w"
  obtain x w1 where o: "open_stream False w = (x, w1)" by fastforce
  have w1: "I w1" by (rule I_of_open [OF o w])
  show ?thesis
  proof (cases x)
    case (Inr st)
    let ?w = "set_sink st (Some (AnnouncementSink (namespace_text n)))
      (w1\<lparr>pb_announcement_buffers := (pb_announcement_buffers w1)(st \<mapsto> [])\<rparr>)"
    have "I ?w" by (intro I_set_sink I_announcements w1)
    then have "allocate_request_id ?w = (y, w2) \<Longrightarrow> I w2" for y w2 by (rule I_of_allocate [rotated])
    then show ?thesis
      using w o Inr
      by (auto simp: announce_namespace_def Let_def intro: I_of_send I_announcements split: prod.split sum.split bool.split)
  qed (use w w1 o in \<open>simp add: announce_namespace_def Let_def\<close>)
qed

lemma I_on_ready: "I w \<Longrightarrow> I (on_ready w)"
proof -
  have "I w \<Longrightarrow> I (announce_all ns w)" for ns and w :: "'a publisher_scheme"
    by (induction ns arbitrary: w) (simp_all add: I_announce)
  then show "I w \<Longrightarrow> I (on_ready w)" by (simp add: on_ready_def I_announcements)
qed

lemma I_withdraw: "I w \<Longrightarrow> I (withdraw_namespace n w)"
  by (auto simp: withdraw_namespace_def Let_def intro!: I_announcements I_abort_receive I_abort_send split: option.split)

lemma I_announcement_on_receive: "I w \<Longrightarrow> I (announcement_on_receive st chunks w)"
  by (auto simp: announcement_on_receive_def intro: I_announcements split: option.split)

section \<open>Publishing\<close>

lemma I_ready_stream:
  assumes w: "I w" and s: "sp_subscriptions w i = Some s"
    and r: "ready_stream send_plane_callbacks i s object w = (result, w')"
  shows "I w' \<and> (case result of None \<Rightarrow> \<exists>n. \<not> tp_answer w' n
    | Some (s', open, bytes) \<Rightarrow> \<exists>t. sp_subscriptions w' i = Some t \<and> same_subscription t s')"
proof -
  let ?key = "(po_group_id object, po_subgroup_id object)"
  define stale where "stale = (case map_of (ss_streams s) ?key of None \<Rightarrow> None
     | Some o' \<Rightarrow> (case os_last_object_id o' of None \<Rightarrow> None | Some l \<Rightarrow> if po_object_id object \<le> l then Some o' else None))"
  define w1 where "w1 = (case stale of None \<Rightarrow> w | Some o' \<Rightarrow>
     put_subscription i (s\<lparr>ss_streams := stream_erase ?key (ss_streams s)\<rparr>) (abort_send (os_stream o') StreamReset_InternalError w))"
  define t where "t = (case stale of None \<Rightarrow> s | Some o' \<Rightarrow> s\<lparr>ss_streams := stream_erase ?key (ss_streams s)\<rparr>)"
  have same: "same_subscription s (s\<lparr>ss_streams := stream_erase ?key (ss_streams s)\<rparr>)"
    by (simp add: same_subscription_def stream_map.keys_erase)
  have plane: "sp_subscriptions (abort_send st c w) = sp_subscriptions w" for st c by (simp add: abort_send_def emit_def)
  have w1: "I w1" using w s same
    by (auto simp: w1_def plane intro: I_subscription I_abort_send split: option.split)
  have t: "sp_subscriptions w1 i = Some t"
    using s by (auto simp: w1_def t_def plane put_subscription_def split: option.split)
  have rs: "ready_stream send_plane_callbacks i s object w = (case map_of (ss_streams t) ?key of
      Some o' \<Rightarrow> (Some (t, o', []), w1)
    | None \<Rightarrow> (case open_data_stream w1 of (x, w2) \<Rightarrow> (case x of None \<Rightarrow> (None, w2) | Some st \<Rightarrow>
        (Some (t\<lparr>ss_stream_count := ss_stream_count t + 1, ss_streams := stream_put ?key \<lparr>os_stream = st, os_last_object_id = None\<rparr> (ss_streams t)\<rparr>,
           \<lparr>os_stream = st, os_last_object_id = None\<rparr>,
           encode_subgroup_header [] (ss_track_alias t) (po_group_id object) (po_subgroup_id object) (po_publisher_priority object)), w2))))"
    unfolding ready_stream_def Let_def stale_def [symmetric]
    by (cases stale) (simp_all add: w1_def t_def send_plane_callbacks_def split: option.split prod.split)
  show ?thesis
  proof (cases "map_of (ss_streams t) ?key")
    case None
    obtain x w2 where o: "open_data_stream w1 = (x, w2)" by fastforce
    have w2: "I w2" using I_open_data_stream [OF w1] o by simp
    show ?thesis
    proof (cases x)
      case None
      then show ?thesis using r rs \<open>map_of _ _ = None\<close> o w2 open_data_stream_fails [of w1 w2] by simp
    next
      case (Some st)
      then have "sp_subscriptions w2 = sp_subscriptions w1"
        using o open_stream_plane by (auto simp: open_data_stream_def split: prod.splits sum.splits)
      then show ?thesis
        using r rs \<open>map_of _ _ = None\<close> o w2 Some t by (auto simp: same_subscription_def stream_map.keys_put)
    qed
  qed (use r rs w1 t in auto)
qed

lemma I_send_on_subgroup_stream:
  assumes w: "I w" and s: "sp_subscriptions w i = Some s"
  shows "I (send_on_subgroup_stream send_plane_callbacks i s object w)
    \<and> (sp_subscriptions (send_on_subgroup_stream send_plane_callbacks i s object w) i = None \<longrightarrow>
         (\<exists>n. \<not> tp_answer (send_on_subgroup_stream send_plane_callbacks i s object w) n))"
proof -
  obtain result w1 where r: "ready_stream send_plane_callbacks i s object w = (result, w1)" by fastforce
  note rs = I_ready_stream [OF w s r]
  show ?thesis
  proof (cases result)
    case None
    then show ?thesis using rs r by (simp add: send_on_subgroup_stream_def)
  next
    case (Some x)
    obtain s' os bytes where x: "x = (s', os, bytes)" by (cases x)
    obtain t where t: "sp_subscriptions w1 i = Some t" "same_subscription t s'" using rs Some x by auto
    let ?w = "snd (send (os_stream os) (subgroup_bytes bytes (os_last_object_id os) object) (closes_stream object) w1)"
    have "sp_subscriptions ?w = sp_subscriptions w1" by (simp add: send_def quic_call_def emit_def)
    moreover have "same_subscription t (s'\<lparr>ss_streams := (if closes_stream object then stream_erase k (stream_put k v (ss_streams s'))
        else stream_put k v (ss_streams s'))\<rparr>)" for k v
      using t(2) by (auto simp: same_subscription_def intro: stream_map.keys_replaced stream_map.keys_put)
    moreover have "I ?w" using rs by (intro I_send) simp
    ultimately show ?thesis
      using r Some x t(1) I_subscription [of ?w i t] by (simp add: send_on_subgroup_stream_def Let_def put_subscription_def)
  qed
qed

lemma I_send_datagram_object:
  "I w \<Longrightarrow> I (send_datagram_object send_plane_callbacks s object w)"
  by (simp add: send_datagram_object_def send_plane_callbacks_def Let_def I_send_datagram)

lemma send_datagram_object_plane:
  "sp_subscriptions (send_datagram_object send_plane_callbacks s object w) = sp_subscriptions w"
  by (simp add: send_datagram_object_def send_plane_callbacks_def Let_def send_datagram_def quic_call_def emit_def)

lemma I_publish_round:
  assumes w: "I w"
  shows "I (snd (publish_round send_plane_callbacks key object i w))"
proof (cases "sp_subscriptions w i")
  case None
  then show ?thesis using w I_stale by (auto simp: publish_round_def Let_def split: option.split)
next
  case (Some s)
  have complete: "I (snd (case complete_subscription i code reason w' of (None, w) \<Rightarrow> (NextRound, w) | (Some e, w) \<Rightarrow> (Stopped (Some e), w)))"
    if "I w'" for code reason w'
    using I_complete [OF that, of i code reason] by (cases "complete_subscription i code reason w'") (auto split: option.split)
  define w1 where "w1 = (if ss_forward s \<and> passes_filter s (po_group_id object) (po_object_id object)
      then if po_delivery_kind object = Datagram then send_datagram_object send_plane_callbacks s object w
           else send_on_subgroup_stream send_plane_callbacks i s object w
      else w)"
  have w1: "I w1" "sp_subscriptions w1 i = None \<Longrightarrow> \<exists>n. \<not> tp_answer w1 n"
    using w Some I_send_on_subgroup_stream [OF w Some, of object] I_send_datagram_object [OF w]
    by (auto simp: w1_def send_datagram_object_plane)
  have cb: "scb_subscription_complete send_plane_callbacks = complete_subscription" by (simp add: send_plane_callbacks_def)
  show ?thesis
    unfolding publish_round_def Let_def w1_def [symmetric] cb Some option.case
    using complete [OF w] complete [OF w1(1)] w1 I_dangling [OF w1(1)] by (auto split: option.split)
qed

lemma I_publish_rounds: "I w \<Longrightarrow> I (snd (publish_rounds send_plane_callbacks key object request_ids w))"
proof (induction request_ids arbitrary: w)
  case (Cons i request_ids)
  obtain x w1 where r: "publish_round send_plane_callbacks key object i w = (x, w1)" by fastforce
  have "I w1" using I_publish_round [OF Cons.prems, of key object i] r by simp
  with r Cons.IH show ?case by (cases x) simp_all
qed simp

lemma I_publish: "I w \<Longrightarrow> I (snd (pub_publish object w))"
proof -
  assume w: "I w"
  have same: "map_of (sp_tracks w) key = Some entry \<Longrightarrow> I (put_track key entry w)" for key entry
    using I_largest [OF w, of key entry "te_largest entry"] by simp
  show ?thesis
    using w by (auto simp: pub_publish_def plane_publish_def Let_def intro!: I_publish_rounds split: option.split intro: I_largest same)
qed

section \<open>Requests of the peer\<close>

lemma I_update_subscription: "I w \<Longrightarrow> I (snd (update_subscription i options w))"
  by (auto simp: update_subscription_def Let_def same_subscription_def intro: I_subscription split: option.split prod.split)

lemma I_handle_request_update: "I w \<Longrightarrow> I (snd (handle_request_update i message w))"
proof -
  assume w: "I w"
  have update: "update_subscription i options w1 = (x, w2) \<Longrightarrow> I w1 \<Longrightarrow> I w2" for options w1 x w2
    using I_update_subscription [of w1 i options] by simp
  show ?thesis
    using w by (auto simp: handle_request_update_def split: option.split sum.split prod.split
        intro!: I_violation I_begin_close I_finish I_send intro: I_of_consume update)
qed

lemma I_process_buffer: "I w \<Longrightarrow> I (snd (snd (process_buffer i fin buffer w)))"
proof (induction i fin buffer w rule: process_buffer.induct)
  case (1 i fin buffer w)
  let ?p = "read_control_message buffer 0"
  obtain x w1 where h: "handle_request_update i (cmr_message ?p) w = (x, w1)" by fastforce
  have w1: "I w1" using I_handle_request_update [OF "1.prems", of i "cmr_message ?p"] h by simp
  show ?case
    using "1.prems" h w1 "1.IH" by (subst process_buffer.simps) (auto simp: Let_def I_violation split: option.split)
qed

lemma I_request_on_receive: "I w \<Longrightarrow> I (snd (pub_request_on_receive i chunks fin w))"
proof -
  assume w: "I w"
  show ?thesis
  proof (cases "pb_requests w i")
    case (Some rq)
    obtain e buffer w1 where p: "process_buffer i fin (pq_buffer rq @ concat chunks) w = (e, buffer, w1)" by (metis prod_cases3)
    have "I w1" using I_process_buffer [OF w, of i fin "pq_buffer rq @ concat chunks"] p by simp
    with w Some p show ?thesis by (simp add: pub_request_on_receive_def I_buffer)
  qed (simp add: pub_request_on_receive_def w)
qed

lemma I_reject: "I w \<Longrightarrow> I (snd (reject_subscribe st code reason w))"
  by (simp add: reject_subscribe_def I_abort_receive I_send split: sum.split)

lemma I_accept:
  assumes w: "I w" "se_phase w = Ready"
  shows "I (snd (accept_subscribe payload st leftover fin w))"
proof (cases "decode_subscribe payload")
  case (Inr subscribe)
  let ?i = "sub_request_id subscribe"
  obtain x w1 where c: "consume_peer_request_id ?i w = (x, w1)" by fastforce
  have w1: "I w1" by (rule I_of_consume [OF c w(1)])
  let ?w = "w1\<lparr>pb_next_track_alias := pb_next_track_alias w1 + 1\<rparr>"
  show ?thesis
  proof (cases x)
    case None
    have rejected: "attach_subscription ?i a key options ?w = (Some r, w2) \<Longrightarrow> I w2" for a key options r w2
      using I_alias [OF w(1) c [unfolded None]] by (auto simp: attach_subscription_def Let_def split: if_splits option.splits)
    have attached: "I (snd (accept_attached subscribe a track st leftover fin w2))"
      if "attach_subscription ?i (pb_next_track_alias w1) (sub_namespace subscribe, sub_name subscribe) options ?w = (None, w2)"
        "length (pb_subscriptions w1) < pb_max_subscriptions w1" for a track options w2
      using I_admit [OF w c [unfolded None] that(2,1), of st]
      by (auto simp: accept_attached_eq intro!: I_begin_close I_request_on_receive intro: I_of_send split: sum.split prod.split)
    show ?thesis
      using w1 c None Inr rejected attached
      by (auto simp: accept_subscribe_def Let_def not_le intro!: I_reject I_begin_close split: option.split sum.split prod.split)
  qed (use w1 c Inr in \<open>simp add: accept_subscribe_def I_begin_close\<close>)
qed (simp add: accept_subscribe_def I_begin_close w)

lemma I_peer_request: "I w \<Longrightarrow> I (pub_handle_peer_request message st leftover fin w)"
proof (cases "se_phase w = Ready")
  case True
  assume w: "I w"
  let ?r = "if cm_type message = kMessageSubscribe then accept_subscribe (cm_payload message) st leftover fin w
     else if \<not> known_peer_request_type (cm_type message)
     then (None, begin_close pub_terminate_subscriptions Close_ProtocolViolation
             (''unknown peer request type '' @ to_string (unat (cm_type message))) w)
     else let publish = (cm_type message = kMessagePublish)
       in reject_subscribe st (if publish then RequestError_Uninterested else RequestError_NotSupported)
            (if publish then ''publisher is not accepting PUBLISH'' else ''publisher-only implementation'') w"
  obtain e w1 where r: "?r = (e, w1)" by fastforce
  have "I (snd ?r)" using w True by (simp add: I_accept I_begin_close I_reject Let_def)
  then have "I w1" unfolding r by simp
  then have "I (case (e, w1) of (None, w) \<Rightarrow> w | (Some e, w) \<Rightarrow> begin_close pub_terminate_subscriptions Close_InternalError (exn_what e) w)"
    by (simp add: I_begin_close split: option.split)
  then show ?thesis unfolding pub_handle_peer_request_def r using w True by simp
qed (auto simp: pub_handle_peer_request_def intro: I_begin_close)

section \<open>The interface of the application\<close>

lemma I_pub_register: "I w \<Longrightarrow> I (pub_register_track track w)"
proof -
  assume w: "I w"
  obtain b w1 where r: "register_track track w = (b, w1)" by fastforce
  with I_register [OF w, of track] have "I w1" by simp
  with w r show ?thesis by (cases b) (simp_all add: pub_register_track_def I_announce I_announcements)
qed

lemma I_pub_unregister: "I w \<Longrightarrow> I (snd (pub_unregister_track key w))"
proof -
  assume w: "I w"
  obtain e w1 where r: "end_track key PublishDone_TrackEnded ''track unregistered'' w = (e, w1)" by fastforce
  have w1: "I w1" using I_end_track [OF w, of key PublishDone_TrackEnded "''track unregistered''"] r by simp
  have "e = None \<Longrightarrow> I (snd (unregister_track key w1))" using I_unregister [OF w] r by simp
  with r w1 show ?thesis
    by (cases e) (auto simp: pub_unregister_track_def I_withdraw split: prod.split)
qed

end

end
