(* ===== verification/Publisher_Events.thy ===== *)
theory Publisher_Events
  imports Publisher_Lifting
begin

text \<open>
  The handlers of a publisher raise no exception on a thread of the transport, and the lifting
  of \<open>Publisher_Lifting\<close> is carried on to the gates of peer streams, the callbacks of the
  connection and every event.
\<close>

section \<open>The answers of a publisher can be encoded\<close>

lemma encode_reason_ok:
  assumes "length reason \<le> 1024"
  shows "\<exists>bytes. encode_request_error code reason retry = Inr bytes" "\<exists>bytes. encode_publish_done code count reason = Inr bytes"
proof -
  have "\<not> 65535 < varint_size a + varint_size b + varint_size c + length reason" for a b c
    using assms varint_size_bounds(2) [of a] varint_size_bounds(2) [of b] varint_size_bounds(2) [of c] by linarith
  then show "\<exists>bytes. encode_request_error code reason retry = Inr bytes" "\<exists>bytes. encode_publish_done code count reason = Inr bytes"
    by (simp_all add: encode_request_error_def encode_publish_done_def encode_control_message_def)
qed

lemma encode_request_ok_largest: "\<exists>bytes. encode_request_ok (largest_parameters track) = Inr bytes"
proof -
  have "parameter_encoding kParameterLargestObject \<noteq> None" by (simp add: parameter_encoding_def)
  moreover have "\<not> 65535 < varint_size a + (varint_size b + (varint_size c + varint_size d))" for a b c d
    using varint_size_bounds(2) [of a] varint_size_bounds(2) [of b] varint_size_bounds(2) [of c] varint_size_bounds(2) [of d] by linarith
  moreover have "\<not> 65535 < varint_size a" for a using varint_size_bounds(2) [of a] by linarith
  ultimately show ?thesis
    by (auto simp: encode_request_ok_def largest_parameters_def ebind_def encode_parameters_eq parameters_ok_def
        encode_control_message_def Parameter_location_def split: option.split)
qed

lemma update_reason:
  "update_subscription i options w = (Some rejected, w') \<Longrightarrow> length (re_reason rejected) \<le> 1024"
  by (auto simp: update_subscription_def rejection_def Let_def split: option.splits if_splits prod.splits)

lemma finish_no_exception: "length reason \<le> 1024 \<Longrightarrow> fst (finish i code reason w) = None"
proof -
  assume r: "length reason \<le> 1024"
  obtain n w1 where d: "detach_subscription i None w = (n, w1)" by fastforce
  obtain bytes where "encode_publish_done code n reason = Inr bytes" using encode_reason_ok(2) [OF r] by blast
  with d show ?thesis by (simp add: finish_def split: option.split)
qed

lemma handle_request_update_no_exception: "fst (handle_request_update i message w) = None"
proof -
  have error: "fst (case encode_request_error (re_code rejected) (re_reason rejected) 0 of
        Inl e \<Rightarrow> (Some e, w2)
      | Inr bytes \<Rightarrow> finish i PublishDone_UpdateFailed (re_reason rejected) (snd (send st bytes False w2))) = None"
    if "update_subscription i options w1 = (Some rejected, w2)" for options w1 rejected st w2
    using update_reason [OF that] encode_reason_ok(1) [of "re_reason rejected" "re_code rejected" 0]
    by (auto simp: finish_no_exception)
  have ok: "fst (case encode_request_ok (largest_parameters track) of Inl e \<Rightarrow> (Some e, w2)
      | Inr bytes \<Rightarrow> (None, snd (send st bytes False w2))) = None" for track st and w2 :: "'a publisher_scheme"
    using encode_request_ok_largest [of track] by auto
  show ?thesis
    unfolding handle_request_update_def
    by (auto simp: error ok split: option.split sum.split prod.split)
qed

lemma process_buffer_no_exception: "fst (process_buffer i fin buffer w) = None"
proof (induction i fin buffer w rule: process_buffer.induct)
  case (1 i fin buffer w)
  let ?p = "read_control_message buffer 0"
  obtain w1 where "handle_request_update i (cmr_message ?p) w = (None, w1)"
    using handle_request_update_no_exception [of i "cmr_message ?p" w] by (metis prod.collapse)
  with "1.IH" show ?case by (subst process_buffer.simps) (auto simp: Let_def)
qed

lemma request_on_receive_no_exception: "fst (pub_request_on_receive i chunks fin w) = None"
proof (cases "pb_requests w i")
  case (Some rq)
  then show ?thesis
    using process_buffer_no_exception [of i fin "pq_buffer rq @ concat chunks" w]
    by (auto simp: pub_request_on_receive_def split: prod.split)
qed (simp add: pub_request_on_receive_def)

section \<open>Events\<close>

locale publisher_events = publisher_lifting I for I :: "'a publisher_scheme \<Rightarrow> bool" +
  assumes I_put_gate: "I w \<Longrightarrow> I (put_gate st mode bytes w)"
    and I_started: "I w \<Longrightarrow> new_stream uni sid w = (st, w') \<Longrightarrow> I (on_peer_stream_started st w')"
    and I_setup: "I w \<Longrightarrow> w' = w\<lparr>se_local_setup_sent := True\<rparr> \<or> w' = w\<lparr>se_peer_setup_received := True\<rparr> \<Longrightarrow> I (maybe_ready (\<lambda>w. w) w')"
    and I_connecting: "I w \<Longrightarrow> se_phase w = Init \<Longrightarrow> I (w\<lparr>se_phase := SetupInProgress\<rparr>)"
    and I_ready: "I w \<Longrightarrow> I (snd (ready w))"
    and I_shutdown_complete: "I w \<Longrightarrow> I (shutdown_complete handshake w)"
    and I_alive: "I w \<Longrightarrow> I (w\<lparr>tp_alive := False\<rparr>)"
    and I_close_handle: "I w \<Longrightarrow> I (close_handle st w)"
    and I_remove_stream: "I w \<Longrightarrow> I (remove_stream st w)"
    and I_stream_id: "I w \<Longrightarrow> I (set_stream_id st sid w)"
begin

lemma I_maybe_ready:
  assumes "I w" "w' = w\<lparr>se_local_setup_sent := True\<rparr> \<or> w' = w\<lparr>se_peer_setup_received := True\<rparr>"
  shows "I (maybe_ready on_ready w')"
proof (cases "\<not> se_local_setup_sent w' \<or> \<not> se_peer_setup_received w' \<or> se_phase w' \<ge> Ready")
  case True
  then show ?thesis using I_setup [OF assms] by (simp add: maybe_ready_split [of on_ready] maybe_ready_def)
next
  case False
  then show ?thesis using I_on_ready [OF I_setup [OF assms]] by (simp add: maybe_ready_split [of on_ready])
qed

lemma I_flags: "I w \<Longrightarrow> I (maybe_ready on_ready (w\<lparr>se_local_setup_sent := True\<rparr>))"
  "I w \<Longrightarrow> I (maybe_ready on_ready (w\<lparr>se_peer_setup_received := True\<rparr>))"
  by (rule I_maybe_ready, assumption, blast)+

lemma I_connected: "I w \<Longrightarrow> I (connected pub_terminate_subscriptions on_ready w)"
proof (cases "se_phase w = Init")
  case True
  assume "I w"
  then have w0: "I (w\<lparr>se_phase := SetupInProgress\<rparr>)" using True by (rule I_connecting)
  obtain x w1 where o: "open_stream True (w\<lparr>se_phase := SetupInProgress\<rparr>) = (x, w1)" by fastforce
  have w1: "I w1" by (rule I_of_open [OF o w0])
  have "I (case send st bytes False w1 of (False, w) \<Rightarrow>
         begin_close pub_terminate_subscriptions Close_InternalError ''StreamSend failed for SETUP'' w
       | (True, w) \<Rightarrow> maybe_ready on_ready (w\<lparr>se_local_setup_sent := True\<rparr>))" for st bytes
    using I_of_send [OF _ w1] by (auto intro: I_begin_close I_flags split: prod.split bool.split)
  with True o w1 show ?thesis by (auto simp: connected_def Let_def intro: I_begin_close split: sum.split)
qed (simp add: connected_def)

lemma I_gate: "I w \<Longrightarrow> I (gate_on_receive pub_role st chunks fin w)"
proof -
  have role: "role_terminate pub_role = pub_terminate_subscriptions" "role_on_ready pub_role = on_ready"
    "role_data_stream pub_role = pub_handle_data_stream" "role_peer_request pub_role = pub_handle_peer_request"
    by (simp_all add: pub_role_def)
  have peer_setup: "I w \<Longrightarrow> I (handle_peer_setup on_ready w)" for w
    by (simp add: handle_peer_setup_def I_flags)
  have first: "I w \<Longrightarrow> I (gate_first_message pub_role st bytes fin w)" for bytes w
    by (auto simp: gate_first_message_def role Let_def I_violation peer_setup I_peer_request I_put_gate split: sum.split)
  have "I w \<Longrightarrow> I (gate_classify pub_role st bytes fin w)" for bytes w
    by (auto simp: gate_classify_def role Let_def I_violation first I_put_gate pub_handle_data_stream_def I_abort_receive)
  then show "I w \<Longrightarrow> I (gate_on_receive pub_role st chunks fin w)"
    by (auto simp: gate_on_receive_def role Let_def I_violation I_put_gate split: option.split)
qed

lemma I_sink_receive: "I w \<Longrightarrow> I (pub_sink_receive k st chunks fin w)"
  by (cases k) (simp_all add: I_gate uncaught_def request_on_receive_no_exception I_request_on_receive I_announcement_on_receive)

lemma I_sink_cancelled: "I w \<Longrightarrow> I (pub_sink_cancelled k st w)"
  by (cases k) (simp_all add: I_cancel)

lemma I_stream_callback:
  "I w \<Longrightarrow> I (stream_callback pub_sinks (Session.transport_error pub_terminate_subscriptions) st event w)"
proof (cases event)
  case StreamShutdownComplete
  assume w: "I w"
  have closed: "I w \<Longrightarrow> I (remove_stream st (case k of None \<Rightarrow> w | Some k \<Rightarrow> pub_sink_cancelled k st w))" for k w
    by (simp add: I_remove_stream I_sink_cancelled split: option.split)
  have e: "on_sink_closed (pub_sinks :: ('a publisher_scheme) sink_handlers) = pub_sink_cancelled" by (simp add: pub_sinks_def)
  show ?thesis
    using StreamShutdownComplete w closed
    by (simp add: stream_callback_def Let_def I_set_sink I_close_handle e cong: option.case_cong)
qed (auto simp: stream_callback_def Let_def pub_sinks_def Session.transport_error_def I_stream_id I_begin_close I_sink_receive
    I_sink_cancelled split: option.split)

lemma I_connection_callback: "I w \<Longrightarrow> I (connection_callback pub_callbacks event w)"
  by (cases event)
    (auto simp: connection_callback_def pub_callbacks_def I_connected Session.transport_error_def I_begin_close
      I_shutdown_complete intro: I_started split: prod.split)

lemma I_step: "I w \<Longrightarrow> I (publisher_step event w)"
  by (cases event)
    (simp_all add: I_connection_callback I_stream_callback I_ready I_pub_register I_pub_unregister I_publish I_end_track
      close_def close_and_wait_def I_begin_close I_alive)

end

section \<open>Every event ages the session\<close>

lemma grows_end_track: "grows w (snd (end_track key code reason w))"
proof -
  have "grows w (snd (complete_all request_ids code reason w))" for request_ids
  proof (induction request_ids arbitrary: w)
    case (Cons i request_ids)
    obtain x w1 where c: "complete_subscription i code reason w = (x, w1)" by fastforce
    then have "grows w w1" using grows_finish [of w i code reason] by (auto simp: complete_subscription_def split: if_splits)
    with c Cons.IH [of w1] show ?case by (cases x) (auto intro: grows_trans)
  qed simp
  then show ?thesis by (simp add: end_track_def split: option.split)
qed

lemma grows_admit: "grows w (admit subscribe st w)"
  unfolding admit_def Let_def by (rule grows_trans [OF grows_trans [OF grows_pub_state(1) grows_stream(3)] grows_pub_state(6)])

lemma grows_attach: "grows w (snd (attach_subscription i a key options w))" for w :: "'a publisher_scheme"
  by (auto simp: attach_subscription_def Let_def split: option.split
      intro: grows_pub_state(2) grows_trans [OF grows_pub_state(2) grows_pub_state(3)])

lemma grows_consume: "grows w (snd (consume_peer_request_id i w))"
  by (simp add: consume_peer_request_id_def grows_pub_state)

interpretation puba: publisher_events "ages w0" for w0 :: "'a publisher_scheme"
proof unfold_locales
  fix w w' w1 w2 :: "'a publisher_scheme" and subscribe st uni sid options
  assume w: "ages w0 w"
  note step = ages_trans [OF w] and grow = ages_trans [OF w grows_ages]
  show "ages w0 (snd (send st' bytes fin w))" "ages w0 (snd (finish_send st' w))" "ages w0 (abort_send st' code w)"
    "ages w0 (abort_receive st' code w)" "ages w0 (set_sink st' k w)" "ages w0 (snd (open_stream u w))"
    "ages w0 (snd (send_datagram bytes w))" "ages w0 (emit (DanglingRead i) w)"
    for st' bytes fin code k u i
    by (rule step, rule ages_stream ages_emit)+
  show "ages w0 (snd (allocate_request_id w))" by (rule step, rule ages_allocate)
  show "ages w0 (begin_close pub_terminate_subscriptions code reason w)" for code reason
    by (rule grow, rule pub_closing.begin_close_grows)
  show "ages w0 (w\<lparr>pb_pending_announcements := l\<rparr>)" "ages w0 (w\<lparr>pb_announced_namespaces := m\<rparr>)"
    "ages w0 (w\<lparr>pb_announcement_buffers := b\<rparr>)" "ages w0 (w\<lparr>pb_requests := r\<rparr>)" for l m b r
    by (rule grow, rule grows_pub_state)+
  show "ages w0 (cancel i code w)" "ages w0 (snd (finish i code reason w))" for i code reason
    by (rule grow, rule grows_cancel grows_finish)+
  show "ages w0 (snd (consume_peer_request_id i w))" for i
    by (rule grow, rule grows_consume)
  show "ages w0 (put_subscription i s w)" "ages w0 (put_track key entry w)"
    "ages w0 (put_track key (entry\<lparr>te_subscriptions := ids\<rparr>) w)" for i s key entry ids
    by (rule grow, rule grows_pub_state)+
  show "ages w0 (snd (register_track track w))" for track
    by (rule grow) (simp add: register_track_def Let_def grows_pub_state)
  show "ages w0 (put_gate st' mode bytes w)" "ages w0 (w\<lparr>tp_alive := b\<rparr>)" for st' mode bytes b
    by (rule step, rule ages_gates)+
  show "ages w0 (snd (ready w))" "ages w0 (shutdown_complete h w)" for h by (rule step, rule ages_ready ages_shutdown_complete)+
  show "ages w0 (close_handle st' w)" "ages w0 (remove_stream st' w)" "ages w0 (set_stream_id st' sid' w)" for st' sid'
    by (rule step, rule ages_stream)+
  show "se_phase w = Init \<Longrightarrow> ages w0 (w\<lparr>se_phase := SetupInProgress\<rparr>)"
    by (rule step) (auto simp: ages_def log_extends_def session_wf_def keeps_results_def phase_order)
  show "consume_peer_request_id i w = (None, w') \<Longrightarrow> ages w0 (w'\<lparr>pb_next_track_alias := a\<rparr>)" for i a
    by (auto simp: consume_peer_request_id_def split: if_splits intro!: grow grows_trans [OF grows_pub_state(9) grows_pub_state(8)])
  show "new_stream uni sid w = (st, w') \<Longrightarrow> ages w0 (on_peer_stream_started st w')"
    by (rule step) (rule peer_stream_started_ages)
  show "w' = w\<lparr>se_local_setup_sent := True\<rparr> \<or> w' = w\<lparr>se_peer_setup_received := True\<rparr> \<Longrightarrow> ages w0 (maybe_ready (\<lambda>w. w) w')"
    by (rule step) (rule setup_flag_ages)
  show "end_track key code reason w = (None, w') \<Longrightarrow> ages w0 (snd (unregister_track key w'))" for key code reason
    using grows_end_track [of w key code reason] by (auto simp: unregister_track_def intro!: grow grows_trans [OF _ grows_pub_state(4)])
  show "ages w0 (admit subscribe st w2)"
    if "consume_peer_request_id (sub_request_id subscribe) w = (None, w1)"
      "attach_subscription (sub_request_id subscribe) (pb_next_track_alias w1) (sub_namespace subscribe, sub_name subscribe) options
        (w1\<lparr>pb_next_track_alias := pb_next_track_alias w1 + 1\<rparr>) = (None, w2)"
  proof -
    have "grows w w1" using grows_consume [of w "sub_request_id subscribe"] that(1) by simp
    moreover have "grows (w1\<lparr>pb_next_track_alias := pb_next_track_alias w1 + 1\<rparr>) w2" using grows_attach that(2) by (metis snd_conv)
    ultimately show ?thesis by (intro grow) (blast intro: grows_trans grows_pub_state(8) grows_admit)
  qed
qed

interpretation pub_session: session_role pub_role
proof unfold_locales
  show "grows w (role_terminate pub_role reason w)" for reason w by (simp add: pub_role_def grows_pub_terminate)
  show "ages w (role_on_ready pub_role w)" for w by (simp add: pub_role_def puba.I_on_ready)
  show "ages w (role_data_stream pub_role type st prefix fin w)" for type st prefix fin w
    by (simp add: pub_role_def pub_handle_data_stream_def ages_stream)
  show "ages w (role_peer_request pub_role message st leftover fin w)" for message st leftover fin w
    by (simp add: pub_role_def puba.I_peer_request)
qed

end
