(* ===== verification/Publisher_Inv.thy ===== *)
theory Publisher_Inv
  imports Publisher_Events
begin

text \<open>
  The invariant of a publisher: its requests, the subscriptions of the send plane, the index of
  the tracks and the Track Aliases fit together in every state; nothing is left once it is
  closing. The invariant is preserved by every step of \<open>publisher_lifting\<close>, so by every
  event.
\<close>

declare map_of_eq_Some_iff [simp del] Some_eq_map_of_iff [simp del] map_of_eq_None_iff [simp del]

section \<open>The invariant\<close>

text \<open>
  The requests: \<open>pb_subscriptions\<close> are the requests that have not ended, within the limit,
  each under a Request ID the peer has used; there are at least as many of these as Track Aliases.
\<close>

definition pub_requests_inv :: "'a publisher_scheme \<Rightarrow> bool" where
  "pub_requests_inv w \<longleftrightarrow>
     distinct (pb_subscriptions w) \<and> length (pb_subscriptions w) \<le> pb_max_subscriptions w \<and>
     (\<forall>i. i \<in> set (pb_subscriptions w) \<longleftrightarrow> (\<exists>rq. pb_requests w i = Some rq \<and> \<not> pq_terminated rq)) \<and>
     dom (pb_requests w) \<subseteq> pb_peer_request_ids w \<and> (\<forall>i\<in>pb_peer_request_ids w. i AND 1 \<noteq> 0) \<and>
     unat (pb_next_track_alias w) \<le> card (pb_peer_request_ids w)"

text \<open>The send plane; \<open>X\<close> are the subscriptions that are attached but not yet admitted.\<close>

definition send_inv :: "RequestId set \<Rightarrow> 'a publisher_scheme \<Rightarrow> bool" where
  "send_inv X w \<longleftrightarrow>
     distinct (map fst (sp_tracks w)) \<and>
     (\<forall>i s. sp_subscriptions w i = Some s \<longrightarrow>
        i \<in> set (pb_subscriptions w) \<union> X \<and> ss_request_id s = i \<and> ss_track_alias s < pb_next_track_alias w \<and>
        map_of (sp_tracks w) (ss_track_key s) \<noteq> None \<and> sorted_wrt key_less (map fst (ss_streams s))) \<and>
     (\<forall>i j s t. sp_subscriptions w i = Some s \<longrightarrow> sp_subscriptions w j = Some t \<longrightarrow> ss_track_alias s = ss_track_alias t \<longrightarrow> i = j) \<and>
     (\<forall>key entry. map_of (sp_tracks w) key = Some entry \<longrightarrow> distinct (te_subscriptions entry) \<and>
        set (te_subscriptions entry) = {i. \<exists>s. sp_subscriptions w i = Some s \<and> ss_track_key s = key})"

text \<open>The promises are those of the ready waiters; nothing undefined or fatal has happened.\<close>

definition pub_calm :: "'a publisher_scheme \<Rightarrow> bool" where
  "pub_calm w \<longleftrightarrow> distinct (se_ready_waiters w) \<and> (\<forall>p\<in>set (se_ready_waiters w). se_promises w p = Some Pending) \<and>
     (\<forall>p. se_promises w p \<noteq> None \<longrightarrow> p < se_next_promise w) \<and>
     (se_phase w \<ge> Ready \<longrightarrow> se_ready_waiters w = []) \<and>
     StdTerminate \<notin> set (tp_log w) \<and> ((\<forall>n. tp_answer w n) \<longrightarrow> (\<forall>i. DanglingRead i \<notin> set (tp_log w)))"

definition pub_live :: "'a publisher_scheme \<Rightarrow> bool" where
  "pub_live w \<longleftrightarrow> pub_requests_inv w \<and> send_inv {} w \<and> pub_calm w"

definition pub_inv :: "'a publisher_scheme \<Rightarrow> bool" where
  "pub_inv w \<longleftrightarrow> pub_live w \<and> (se_phase w = Closing \<longrightarrow> pb_subscriptions w = [])"

lemma send_invD:
  assumes "send_inv X w" "sp_subscriptions w i = Some s"
  shows "i \<in> set (pb_subscriptions w) \<union> X" "ss_request_id s = i" "ss_track_alias s < pb_next_track_alias w"
    "\<exists>entry. map_of (sp_tracks w) (ss_track_key s) = Some entry" "sorted_wrt key_less (map fst (ss_streams s))"
    "sp_subscriptions w j = Some t \<Longrightarrow> ss_track_alias s = ss_track_alias t \<Longrightarrow> i = j"
  using assms unfolding send_inv_def by blast+

lemma send_inv_index:
  "send_inv X w \<Longrightarrow> map_of (sp_tracks w) key = Some entry \<Longrightarrow>
     distinct (te_subscriptions entry) \<and> set (te_subscriptions entry) = {i. \<exists>s. sp_subscriptions w i = Some s \<and> ss_track_key s = key}"
  unfolding send_inv_def by blast

lemma send_inv_tracks: "send_inv X w \<Longrightarrow> distinct (map fst (sp_tracks w))"
  by (simp add: send_inv_def)

text \<open>The invariant rebuilt from its parts.\<close>

lemma send_invI:
  assumes "distinct (map fst (sp_tracks w))"
    and "\<And>i s. sp_subscriptions w i = Some s \<Longrightarrow> i \<in> set (pb_subscriptions w) \<union> X \<and> ss_request_id s = i \<and>
      ss_track_alias s < pb_next_track_alias w \<and> map_of (sp_tracks w) (ss_track_key s) \<noteq> None \<and> sorted_wrt key_less (map fst (ss_streams s))"
    and "\<And>i j s t. sp_subscriptions w i = Some s \<Longrightarrow> sp_subscriptions w j = Some t \<Longrightarrow> ss_track_alias s = ss_track_alias t \<Longrightarrow> i = j"
    and "\<And>key entry. map_of (sp_tracks w) key = Some entry \<Longrightarrow> distinct (te_subscriptions entry) \<and>
      set (te_subscriptions entry) = {i. \<exists>s. sp_subscriptions w i = Some s \<and> ss_track_key s = key}"
  shows "send_inv X w"
  unfolding send_inv_def using assms by blast

section \<open>Steps that leave the subscriptions alone\<close>

text \<open>What a state change has to keep for the invariant to survive.\<close>

definition keeps_subscriptions :: "'a publisher_scheme \<Rightarrow> 'a publisher_scheme \<Rightarrow> bool" where
  "keeps_subscriptions w w' \<longleftrightarrow> sp_tracks w' = sp_tracks w \<and> sp_subscriptions w' = sp_subscriptions w \<and>
     pb_max_subscriptions w' = pb_max_subscriptions w \<and> pb_next_track_alias w' = pb_next_track_alias w \<and>
     pb_peer_request_ids w' = pb_peer_request_ids w \<and> pb_requests w' = pb_requests w \<and> pb_subscriptions w' = pb_subscriptions w"

definition keeps_calm :: "'a publisher_scheme \<Rightarrow> 'a publisher_scheme \<Rightarrow> bool" where
  "keeps_calm w w' \<longleftrightarrow> tp_answer w' = tp_answer w \<and> se_phase w' = se_phase w \<and> se_ready_waiters w' = se_ready_waiters w \<and>
     se_promises w' = se_promises w \<and> se_next_promise w' = se_next_promise w \<and>
     (\<forall>e\<in>set (tp_log w'). e \<in> set (tp_log w) \<or> (e \<noteq> StdTerminate \<and> (\<forall>i. e \<noteq> DanglingRead i)))"

lemma keeps_calm_refl [simp]: "keeps_calm w w"
  by (simp add: keeps_calm_def)

lemma keeps_calm_trans: "keeps_calm a b \<Longrightarrow> keeps_calm b c \<Longrightarrow> keeps_calm a c"
  unfolding keeps_calm_def by metis

lemma pub_calm_keeps: "keeps_calm w w' \<Longrightarrow> pub_calm w \<Longrightarrow> pub_calm w'"
  unfolding keeps_calm_def pub_calm_def by metis

lemma pub_live_calm: "keeps_subscriptions w w' \<Longrightarrow> pub_calm w' \<Longrightarrow> pub_live w \<Longrightarrow> pub_live w'"
  by (auto simp: pub_live_def keeps_subscriptions_def pub_requests_inv_def send_inv_def)

lemma pub_live_keeps: "keeps_subscriptions w w' \<Longrightarrow> keeps_calm w w' \<Longrightarrow> pub_live w \<Longrightarrow> pub_live w'"
  using pub_calm_keeps [of w w'] pub_live_calm [of w w'] by (simp add: pub_live_def)

lemma pub_inv_keeps: "keeps_subscriptions w w' \<and> keeps_calm w w' \<Longrightarrow> pub_inv w \<Longrightarrow> pub_inv w'"
  using pub_live_keeps [of w w'] by (auto simp: pub_inv_def keeps_subscriptions_def keeps_calm_def)

lemma keeps_transport:
  "keeps_subscriptions w (snd (send st bytes fin w)) \<and> keeps_calm w (snd (send st bytes fin w))"
  "keeps_subscriptions w (snd (finish_send st w)) \<and> keeps_calm w (snd (finish_send st w))"
  "keeps_subscriptions w (abort_send st code w) \<and> keeps_calm w (abort_send st code w)"
  "keeps_subscriptions w (abort_receive st code w) \<and> keeps_calm w (abort_receive st code w)"
  "keeps_subscriptions w (set_sink st k w) \<and> keeps_calm w (set_sink st k w)"
  "keeps_subscriptions w (snd (open_stream uni w)) \<and> keeps_calm w (snd (open_stream uni w))"
  "keeps_subscriptions w (snd (send_datagram bytes w)) \<and> keeps_calm w (snd (send_datagram bytes w))"
  "keeps_subscriptions w (close_handle st w) \<and> keeps_calm w (close_handle st w)"
  "keeps_subscriptions w (remove_stream st w) \<and> keeps_calm w (remove_stream st w)"
  "keeps_subscriptions w (set_stream_id st sid w) \<and> keeps_calm w (set_stream_id st sid w)"
  "keeps_subscriptions w (snd (allocate_request_id w)) \<and> keeps_calm w (snd (allocate_request_id w))"
  "keeps_subscriptions w (put_gate st mode bytes w) \<and> keeps_calm w (put_gate st mode bytes w)"
  "keeps_subscriptions w (shutdown code w) \<and> keeps_calm w (shutdown code w)"
  "keeps_subscriptions w (w\<lparr>tp_alive := b\<rparr>) \<and> keeps_calm w (w\<lparr>tp_alive := b\<rparr>)"
  "keeps_subscriptions w (w\<lparr>pb_pending_announcements := l\<rparr>) \<and> keeps_calm w (w\<lparr>pb_pending_announcements := l\<rparr>)"
  "keeps_subscriptions w (w\<lparr>pb_announced_namespaces := m\<rparr>) \<and> keeps_calm w (w\<lparr>pb_announced_namespaces := m\<rparr>)"
  "keeps_subscriptions w (w\<lparr>pb_announcement_buffers := bufs\<rparr>) \<and> keeps_calm w (w\<lparr>pb_announcement_buffers := bufs\<rparr>)"
  by (auto simp: keeps_subscriptions_def keeps_calm_def send_def finish_send_def abort_send_def abort_receive_def set_sink_def
      open_stream_def send_datagram_def close_handle_def remove_stream_def set_stream_id_def allocate_request_id_def put_gate_def
      shutdown_def new_stream_def quic_call_def emit_def Let_def)

lemmas pub_inv_transport = keeps_transport [THEN pub_inv_keeps]

section \<open>Ending a subscription\<close>

lemma keeps_end_streams:
  "keeps_subscriptions w (end_streams m reset_error w) \<and> keeps_calm w (end_streams m reset_error w)" for w :: "'a publisher_scheme"
proof (induction m arbitrary: w)
  case (Cons x m)
  obtain k s where x: "x = (k, s)" by fastforce
  define w1 where "w1 = (case reset_error of Some e \<Rightarrow> abort_send (os_stream s) e w | None \<Rightarrow> snd (finish_send (os_stream s) w))"
  have "keeps_subscriptions w w1 \<and> keeps_calm w w1"
    using keeps_transport(2) [of w "os_stream s"] keeps_transport(3) [of w "os_stream s"] by (simp add: w1_def split: option.split)
  with Cons.IH [of w1] show ?case
    by (simp add: x w1_def [symmetric]) (auto simp: keeps_subscriptions_def intro: keeps_calm_trans)
qed (simp add: keeps_subscriptions_def)

lemma detach_frame:
  "keeps_calm w (snd (detach_subscription i reset_error w))"
  "pb_max_subscriptions (snd (detach_subscription i reset_error w)) = pb_max_subscriptions w"
  "pb_next_track_alias (snd (detach_subscription i reset_error w)) = pb_next_track_alias w"
  "pb_peer_request_ids (snd (detach_subscription i reset_error w)) = pb_peer_request_ids w"
  "pb_requests (snd (detach_subscription i reset_error w)) = pb_requests w"
  "pb_subscriptions (snd (detach_subscription i reset_error w)) = pb_subscriptions w" for w :: "'a publisher_scheme"
proof -
  have "keeps_calm w (snd (detach_subscription i reset_error w)) \<and>
    pb_max_subscriptions (snd (detach_subscription i reset_error w)) = pb_max_subscriptions w \<and>
    pb_next_track_alias (snd (detach_subscription i reset_error w)) = pb_next_track_alias w \<and>
    pb_peer_request_ids (snd (detach_subscription i reset_error w)) = pb_peer_request_ids w \<and>
    pb_requests (snd (detach_subscription i reset_error w)) = pb_requests w \<and>
    pb_subscriptions (snd (detach_subscription i reset_error w)) = pb_subscriptions w"
  proof (cases "sp_subscriptions w i")
    case (Some s)
    with keeps_end_streams [of w "ss_streams s" reset_error] show ?thesis
      by (auto simp: detach_eq keeps_calm_def keeps_subscriptions_def put_track_def split: option.splits)
  qed (simp add: detach_subscription_def)
  then show "keeps_calm w (snd (detach_subscription i reset_error w))"
    "pb_max_subscriptions (snd (detach_subscription i reset_error w)) = pb_max_subscriptions w"
    "pb_next_track_alias (snd (detach_subscription i reset_error w)) = pb_next_track_alias w"
    "pb_peer_request_ids (snd (detach_subscription i reset_error w)) = pb_peer_request_ids w"
    "pb_requests (snd (detach_subscription i reset_error w)) = pb_requests w"
    "pb_subscriptions (snd (detach_subscription i reset_error w)) = pb_subscriptions w"
    by simp_all
qed

lemma map_of_put_track:
  "map_of (sp_tracks (put_track key entry w)) =
     (if map_of (sp_tracks w) key = None then map_of (sp_tracks w) else (map_of (sp_tracks w))(key \<mapsto> entry))"
proof -
  have "map_of (map (\<lambda>e. if fst e = key then (key, entry) else e) l) =
     (if map_of l key = None then map_of l else (map_of l)(key \<mapsto> entry))" for l
    by (induction l) (auto simp: fun_eq_iff)
  then show ?thesis by (simp add: put_track_def)
qed

lemma keys_put_track [simp]: "map fst (sp_tracks (put_track key entry w)) = map fst (sp_tracks w)"
  by (simp add: put_track_def comp_def)

lemma detach_subscriptions:
  "sp_subscriptions (snd (detach_subscription i reset_error w)) = (sp_subscriptions w)(i := None)" for w :: "'a publisher_scheme"
  by (cases "sp_subscriptions w i") (simp_all add: detach_eq, auto simp: detach_subscription_def)

lemma detach_send_inv:
  assumes inv: "send_inv X w"
  shows "send_inv X (snd (detach_subscription i reset_error w))"
proof (cases "sp_subscriptions w i")
  case (Some s)
  let ?w = "snd (detach_subscription i reset_error w)"
  let ?key = "ss_track_key s"
  obtain entry where entry: "map_of (sp_tracks w) ?key = Some entry" using send_invD(4) [OF inv Some] by blast
  have e: "sp_tracks (end_streams (ss_streams s) reset_error w) = sp_tracks w"
    using keeps_end_streams [of w "ss_streams s" reset_error] by (simp add: keeps_subscriptions_def)
  have tracks: "map_of (sp_tracks ?w) = (map_of (sp_tracks w))(?key \<mapsto> entry\<lparr>te_subscriptions := removeAll i (te_subscriptions entry)\<rparr>)"
    "map fst (sp_tracks ?w) = map fst (sp_tracks w)"
    using Some entry e by (simp_all add: detach_eq map_of_put_track)
  have old: "j \<noteq> i \<and> sp_subscriptions w j = Some t" if "sp_subscriptions ?w j = Some t" for j t
    using that by (auto simp: detach_subscriptions split: if_splits)
  show ?thesis
  proof (rule send_invI)
    show "distinct (map fst (sp_tracks ?w))" unfolding tracks(2) by (rule send_inv_tracks [OF inv])
    show "j \<in> set (pb_subscriptions ?w) \<union> X \<and> ss_request_id t = j \<and> ss_track_alias t < pb_next_track_alias ?w \<and>
        map_of (sp_tracks ?w) (ss_track_key t) \<noteq> None \<and> sorted_wrt key_less (map fst (ss_streams t))"
      if "sp_subscriptions ?w j = Some t" for j t
      using send_invD(1-5) [OF inv old [OF that, THEN conjunct2]] by (auto simp: detach_frame tracks(1))
    show "j = k" if "sp_subscriptions ?w j = Some t" "sp_subscriptions ?w k = Some u" "ss_track_alias t = ss_track_alias u" for j k t u
      using send_invD(6) [OF inv] old that by blast
    show "distinct (te_subscriptions en) \<and> set (te_subscriptions en) = {j. \<exists>t. sp_subscriptions ?w j = Some t \<and> ss_track_key t = key}"
      if "map_of (sp_tracks ?w) key = Some en" for key en
    proof (cases "key = ?key")
      case True
      with that tracks(1) have "en = entry\<lparr>te_subscriptions := removeAll i (te_subscriptions entry)\<rparr>" by simp
      with True send_inv_index [OF inv entry] show ?thesis by (auto simp: detach_subscriptions distinct_removeAll)
    next
      case False
      with that tracks(1) have "map_of (sp_tracks w) key = Some en" by simp
      with False send_inv_index [OF inv] Some show ?thesis by (auto simp: detach_subscriptions)
    qed
  qed
qed (simp add: detach_subscription_def inv)

lemma pub_live_detach: "pub_live w \<Longrightarrow> pub_live (snd (detach_subscription i reset_error w))"
  using pub_calm_keeps [OF detach_frame(1)] detach_send_inv
  by (auto simp: pub_live_def pub_requests_inv_def detach_frame)

lemma pub_live_mark:
  assumes "pub_live w" "sp_subscriptions w i = None" "pb_requests w i = Some rq"
  shows "pub_live (mark_terminated i rq w)"
proof -
  have r: "pub_requests_inv (mark_terminated i rq w)"
    using assms by (auto simp: pub_live_def pub_requests_inv_def mark_terminated_def put_pub_request_def distinct_removeAll
        intro: order_trans [OF length_removeAll_less_eq])
  have "send_inv {} w" using assms by (simp add: pub_live_def)
  then have "send_inv {} (mark_terminated i rq w)"
    using assms(2) unfolding send_inv_def mark_terminated_def put_pub_request_def by auto
  with r assms show ?thesis by (simp add: pub_live_def pub_calm_def mark_terminated_def put_pub_request_def)
qed

text \<open>The end of \<open>finish\<close> and \<open>cancel\<close>, in one step.\<close>

lemma pub_live_end:
  assumes w: "pub_live w" and rq: "pb_requests w i = Some rq"
    and k: "keeps_subscriptions (snd (detach_subscription i reset_error w)) w'" "keeps_calm (snd (detach_subscription i reset_error w)) w'"
  shows "pub_live (mark_terminated i rq w')"
    "pb_subscriptions (mark_terminated i rq w') = removeAll i (pb_subscriptions w)" "se_phase (mark_terminated i rq w') = se_phase w"
proof -
  have "pub_live w'" by (rule pub_live_keeps [OF k pub_live_detach [OF w]])
  then show "pub_live (mark_terminated i rq w')"
    using k(1) rq by (intro pub_live_mark) (simp_all add: keeps_subscriptions_def detach_subscriptions detach_frame)
  show "pb_subscriptions (mark_terminated i rq w') = removeAll i (pb_subscriptions w)"
    using k(1) by (simp add: mark_terminated_def put_pub_request_def keeps_subscriptions_def detach_frame)
  show "se_phase (mark_terminated i rq w') = se_phase w"
    using k(2) detach_frame(1) [of w i reset_error] by (simp add: mark_terminated_def put_pub_request_def keeps_calm_def)
qed

lemma keeps_subscriptions_trans: "keeps_subscriptions a b \<Longrightarrow> keeps_subscriptions b c \<Longrightarrow> keeps_subscriptions a c"
  by (simp add: keeps_subscriptions_def)

lemma pub_live_cancel:
  assumes w: "pub_live w"
  shows "pub_live (cancel i code w)" "pb_subscriptions (cancel i code w) = removeAll i (pb_subscriptions w)"
    "se_phase (cancel i code w) = se_phase w"
proof -
  have "pub_live (cancel i code w) \<and> pb_subscriptions (cancel i code w) = removeAll i (pb_subscriptions w) \<and>
    se_phase (cancel i code w) = se_phase w"
  proof (cases "\<exists>rq. pb_requests w i = Some rq \<and> \<not> pq_terminated rq")
    case True
    then obtain rq where rq: "pb_requests w i = Some rq" "\<not> pq_terminated rq" by blast
    let ?d = "snd (detach_subscription i (Some code) w)"
    let ?w = "abort_receive (pq_stream rq) code (abort_send (pq_stream rq) code ?d)"
    have "keeps_subscriptions ?d ?w" "keeps_calm ?d ?w"
      using keeps_transport(3) [of ?d "pq_stream rq" code] keeps_transport(4) [of "abort_send (pq_stream rq) code ?d" "pq_stream rq" code]
      by (blast intro: keeps_subscriptions_trans keeps_calm_trans)+
    from pub_live_end [OF w rq(1) this] rq show ?thesis by (simp add: cancel_def)
  next
    case False
    then have "cancel i code w = w" by (auto simp: cancel_def split: option.split)
    moreover have "i \<notin> set (pb_subscriptions w)" using w False by (auto simp: pub_live_def pub_requests_inv_def)
    ultimately show ?thesis using w by simp
  qed
  then show "pub_live (cancel i code w)" "pb_subscriptions (cancel i code w) = removeAll i (pb_subscriptions w)"
    "se_phase (cancel i code w) = se_phase w" by simp_all
qed

lemma pub_inv_cancel: "pub_inv w \<Longrightarrow> pub_inv (cancel i code w)"
  using pub_live_cancel [of w i code] by (auto simp: pub_inv_def)

lemma pub_inv_finish: "pub_inv w \<Longrightarrow> pub_inv (snd (finish i code reason w))"
proof (cases "\<exists>rq. pb_requests w i = Some rq \<and> \<not> pq_terminated rq")
  case True
  assume w: "pub_inv w"
  then have live: "pub_live w" by (simp add: pub_inv_def)
  obtain rq where rq: "pb_requests w i = Some rq" "\<not> pq_terminated rq" using True by blast
  obtain n d where d: "detach_subscription i None w = (n, d)" by fastforce
  then have d': "snd (detach_subscription i None w) = d" by simp
  show ?thesis
  proof (cases "encode_publish_done code n reason")
    case (Inl e)
    have "pub_inv d" using pub_live_detach [OF live, of i None] detach_frame [where w = w and i = i and reset_error = None] w by (simp add: pub_inv_def keeps_calm_def d')
    with Inl rq d show ?thesis by (simp add: finish_def)
  next
    case (Inr bytes)
    let ?w = "abort_receive (pq_stream rq) PubReset_Cancelled (snd (send (pq_stream rq) bytes True d))"
    have "keeps_subscriptions d ?w" "keeps_calm d ?w"
      using keeps_transport(1) [of d "pq_stream rq" bytes True]
        keeps_transport(4) [of "snd (send (pq_stream rq) bytes True d)" "pq_stream rq" PubReset_Cancelled]
      by (blast intro: keeps_subscriptions_trans keeps_calm_trans)+
    from pub_live_end [OF live rq(1), of None ?w, unfolded d', OF this] rq Inr d w show ?thesis
      by (auto simp: finish_def pub_inv_def)
  qed
qed (auto simp: finish_def split: option.split)

section \<open>Closing\<close>

lemma pub_live_cancel_all:
  "pub_live w \<Longrightarrow> pub_live (cancel_all ids code w) \<and> set (pb_subscriptions (cancel_all ids code w)) = set (pb_subscriptions w) - set ids
     \<and> se_phase (cancel_all ids code w) = se_phase w"
  by (induction ids arbitrary: w) (auto simp: pub_live_cancel)

lemma fail_all_promises:
  "\<exists>P. fail_all ps e w = w\<lparr>se_promises := P\<rparr> \<and> (\<forall>p. P p \<noteq> None \<longrightarrow> se_promises w p \<noteq> None)"
proof (induction ps arbitrary: w)
  case Nil
  show ?case by (rule exI [of _ "se_promises w"]) simp
next
  case (Cons p ps)
  obtain Q where Q: "Session.fail p e w = w\<lparr>se_promises := Q\<rparr>" "\<forall>q. Q q \<noteq> None \<longrightarrow> se_promises w q \<noteq> None"
    by (rule that [of "if se_promises w p = Some Pending then (se_promises w)(p \<mapsto> Failed e) else se_promises w"])
      (auto simp: Session.fail_def)
  obtain P where "fail_all ps e (w\<lparr>se_promises := Q\<rparr>) = w\<lparr>se_promises := P\<rparr>" "\<forall>q. P q \<noteq> None \<longrightarrow> Q q \<noteq> None"
    using Cons.IH [of "w\<lparr>se_promises := Q\<rparr>"] by auto
  with Q show ?case by auto
qed

lemma pub_live_fail_waiters:
  assumes w: "pub_live w" and w0: "w0 = w\<lparr>se_phase := ph, se_close_reason := c\<rparr> \<or> w0 = w\<lparr>se_close_reason := c, se_phase := ph\<rparr> \<or> w0 = w\<lparr>se_phase := ph\<rparr>"
  shows "pub_live (fail_ready_waiters r w0)" "pb_subscriptions (fail_ready_waiters r w0) = pb_subscriptions w"
    "se_phase (fail_ready_waiters r w0) = ph"
proof -
  obtain P where P: "fail_all (se_ready_waiters w0) (PError r) w0 = w0\<lparr>se_promises := P\<rparr>" "\<forall>p. P p \<noteq> None \<longrightarrow> se_promises w0 p \<noteq> None"
    using fail_all_promises [of "se_ready_waiters w0" "PError r" w0] by auto
  have e: "fail_ready_waiters r w0 = w0\<lparr>se_promises := P, se_ready_waiters := []\<rparr>" by (simp add: fail_ready_waiters_def P(1))
  have k: "keeps_subscriptions w (fail_ready_waiters r w0)" using w0 by (auto simp: e keeps_subscriptions_def)
  have "pub_calm (fail_ready_waiters r w0)" using w w0 P(2) by (auto simp: e pub_live_def pub_calm_def)
  then show "pub_live (fail_ready_waiters r w0)" by (rule pub_live_calm [OF k _ w])
  show "pb_subscriptions (fail_ready_waiters r w0) = pb_subscriptions w" using k by (simp add: keeps_subscriptions_def)
  show "se_phase (fail_ready_waiters r w0) = ph" using w0 by (auto simp: e)
qed

lemma pub_inv_begin_close:
  assumes w: "pub_inv w"
  shows "pub_inv (begin_close pub_terminate_subscriptions code reason w)"
proof (cases "se_phase w \<ge> Closing")
  case False
  define w1 where "w1 = fail_ready_waiters (if reason = [] then ''MOQT session closing'' else reason)
      (w\<lparr>se_phase := Closing, se_close_reason := Some (code, reason)\<rparr>)"
  have w1: "pub_live w1" unfolding w1_def using w by (intro pub_live_fail_waiters(1) [of w]) (auto simp: pub_inv_def)
  have "pub_live (pub_terminate_subscriptions reason w1)" "pb_subscriptions (pub_terminate_subscriptions reason w1) = []"
    using pub_live_cancel_all [OF w1, of "pb_subscriptions w1" PubReset_SessionClosed] by (simp_all add: pub_terminate_subscriptions_def)
  then have "pub_inv (pub_terminate_subscriptions reason w1)" by (simp add: pub_inv_def)
  then have "pub_inv (let w = pub_terminate_subscriptions reason w1 in if tp_alive w then shutdown code w else w)"
    by (simp add: Let_def pub_inv_transport(13))
  then show ?thesis using False unfolding begin_close_def Let_def w1_def by simp
qed (simp add: begin_close_def w)

lemma begin_close_closing:
  assumes "pub_live w" "se_phase w < Closing"
  shows "se_phase (begin_close pub_terminate_subscriptions code reason w) = Closing"
proof -
  define w1 where "w1 = fail_ready_waiters (if reason = [] then ''MOQT session closing'' else reason)
      (w\<lparr>se_phase := Closing, se_close_reason := Some (code, reason)\<rparr>)"
  have w1: "pub_live w1" "se_phase w1 = Closing"
    unfolding w1_def by (rule pub_live_fail_waiters [OF assms(1)], blast)+
  have "se_phase (pub_terminate_subscriptions reason w1) = Closing"
    using pub_live_cancel_all [OF w1(1)] w1(2) by (simp add: pub_terminate_subscriptions_def)
  then have "se_phase (let w = pub_terminate_subscriptions reason w1 in if tp_alive w then shutdown code w else w) = Closing"
    by (simp add: Let_def shutdown_def emit_def)
  moreover have "\<not> Closing \<le> se_phase w" using assms(2) by (simp add: phase_order)
  ultimately show ?thesis unfolding begin_close_def Let_def w1_def by simp
qed

section \<open>Request IDs, aliases and tracks\<close>

lemma pub_inv_consume: "pub_inv w \<Longrightarrow> pub_inv (snd (consume_peer_request_id i w))"
  by (auto simp: consume_peer_request_id_def pub_inv_def pub_live_def pub_requests_inv_def send_inv_def pub_calm_def card_insert_if)

lemma consumed:
  assumes "pub_inv w" "consume_peer_request_id i w = (None, w')"
  shows "pub_inv w'" "unat (pb_next_track_alias w') < card (pb_peer_request_ids w')" "pb_requests w' i = None"
    "sp_subscriptions w' = sp_subscriptions w" "pb_next_track_alias w' = pb_next_track_alias w" "i \<in> pb_peer_request_ids w'"
    "se_phase w' = se_phase w"
proof -
  have new: "i AND 1 \<noteq> 0" "i \<notin> pb_peer_request_ids w" "w' = w\<lparr>pb_peer_request_ids := insert i (pb_peer_request_ids w)\<rparr>"
    using assms(2) by (simp_all add: consume_peer_request_id_def split: if_splits)
  have r: "dom (pb_requests w) \<subseteq> pb_peer_request_ids w" "unat (pb_next_track_alias w) \<le> card (pb_peer_request_ids w)"
    using assms(1) by (simp_all add: pub_inv_def pub_live_def pub_requests_inv_def)
  show "pub_inv w'" using pub_inv_consume [OF assms(1), of i] assms(2) by simp
  show "pb_requests w' i = None" using r(1) new by (auto simp: domIff)
  show "unat (pb_next_track_alias w') < card (pb_peer_request_ids w')" using r(2) new by simp
  show "sp_subscriptions w' = sp_subscriptions w" "pb_next_track_alias w' = pb_next_track_alias w" "i \<in> pb_peer_request_ids w'"
    "se_phase w' = se_phase w" using new by simp_all
qed

text \<open>Every Track Alias was given for a Request ID of odd parity, so the counter cannot wrap around.\<close>

lemma next_alias:
  assumes "pub_requests_inv w" "unat (pb_next_track_alias w) < card (pb_peer_request_ids w)"
  shows "unat (pb_next_track_alias w + 1) = unat (pb_next_track_alias w) + 1"
proof -
  have "pb_peer_request_ids w \<subseteq> UNIV - {0}" using assms(1) by (auto simp: pub_requests_inv_def)
  then have "card (pb_peer_request_ids w) \<le> card (UNIV - {0 :: u64})" by (intro card_mono) simp_all
  also have "\<dots> = 2 ^ 64 - 1" by (simp add: card_Diff_singleton card_word)
  finally show ?thesis using assms(2) by (simp add: unat_word_ariths(1))
qed

lemma pub_inv_alias:
  assumes "pub_inv w" "consume_peer_request_id i w = (None, w')"
  shows "pub_inv (w'\<lparr>pb_next_track_alias := pb_next_track_alias w' + 1\<rparr>)"
proof -
  note c = consumed [OF assms]
  have r: "pub_requests_inv w'" using c(1) by (simp add: pub_inv_def pub_live_def)
  note a = next_alias [OF r c(2)]
  have "s < pb_next_track_alias w' \<Longrightarrow> s < pb_next_track_alias w' + 1" for s using a by (simp add: word_less_nat_alt)
  then show ?thesis
    using c(1,2) a by (auto simp: pub_inv_def pub_live_def pub_requests_inv_def send_inv_def pub_calm_def)
qed

lemma pub_inv_buffer:
  "pub_inv w \<Longrightarrow> pub_inv (w\<lparr>pb_requests := (pb_requests w)(i := map_option (\<lambda>rq. rq\<lparr>pq_buffer := bytes\<rparr>) (pb_requests w i))\<rparr>)"
  by (auto simp: pub_inv_def pub_live_def pub_requests_inv_def send_inv_def pub_calm_def dom_def)

text \<open>Only the send plane changes.\<close>

lemma pub_inv_plane:
  assumes "pub_inv w" "send_inv {} (w\<lparr>sp_tracks := t, sp_subscriptions := m\<rparr>)"
  shows "pub_inv (w\<lparr>sp_tracks := t, sp_subscriptions := m\<rparr>)"
  using assms by (simp add: pub_inv_def pub_live_def pub_requests_inv_def pub_calm_def)

lemma pub_inv_subscription:
  assumes w: "pub_inv w" and s: "sp_subscriptions w i = Some s" "same_subscription s s'"
  shows "pub_inv (put_subscription i s' w)"
proof -
  have inv: "send_inv {} w" using w by (simp add: pub_inv_def pub_live_def)
  define w1 where "w1 = w\<lparr>sp_tracks := sp_tracks w, sp_subscriptions := (sp_subscriptions w)(i \<mapsto> s')\<rparr>"
  have f: "sp_tracks w1 = sp_tracks w" "pb_subscriptions w1 = pb_subscriptions w" "pb_next_track_alias w1 = pb_next_track_alias w"
    "sp_subscriptions w1 = (sp_subscriptions w)(i \<mapsto> s')" by (simp_all add: w1_def)
  have old: "\<exists>u. sp_subscriptions w j = Some u \<and> same_subscription u t" if "sp_subscriptions w1 j = Some t" for j t
    using that s by (cases "j = i") (simp_all add: f)
  have key: "(\<exists>t. sp_subscriptions w1 j = Some t \<and> ss_track_key t = key) \<longleftrightarrow> (\<exists>t. sp_subscriptions w j = Some t \<and> ss_track_key t = key)"
    for j key using s by (cases "j = i") (simp_all add: f same_subscription_def)
  have "send_inv {} w1"
  proof (rule send_invI)
    show "j \<in> set (pb_subscriptions w1) \<union> {} \<and> ss_request_id t = j \<and> ss_track_alias t < pb_next_track_alias w1 \<and>
        map_of (sp_tracks w1) (ss_track_key t) \<noteq> None \<and> sorted_wrt key_less (map fst (ss_streams t))"
      if t: "sp_subscriptions w1 j = Some t" for j t
    proof -
      obtain u where u: "sp_subscriptions w j = Some u" "same_subscription u t" using old [OF t] by blast
      then have e: "ss_request_id t = ss_request_id u" "ss_track_alias t = ss_track_alias u" "ss_track_key t = ss_track_key u"
        "sorted_wrt key_less (map fst (ss_streams u)) \<longrightarrow> sorted_wrt key_less (map fst (ss_streams t))"
        unfolding same_subscription_def by blast+
      show ?thesis unfolding f e(1-3) using send_invD(1-5) [OF inv u(1)] e(4) by blast
    qed
    show "j = k" if t: "sp_subscriptions w1 j = Some t" "sp_subscriptions w1 k = Some u" and a: "ss_track_alias t = ss_track_alias u" for j k t u
    proof -
      obtain t0 u0 where "sp_subscriptions w j = Some t0" "same_subscription t0 t" "sp_subscriptions w k = Some u0" "same_subscription u0 u"
        using old [OF t(1)] old [OF t(2)] by blast
      with send_invD(6) [OF inv, of j t0 k u0] a show ?thesis unfolding same_subscription_def by presburger
    qed
    show "distinct (map fst (sp_tracks w1))" unfolding f by (rule send_inv_tracks [OF inv])
    show "distinct (te_subscriptions en) \<and> set (te_subscriptions en) = {j. \<exists>t. sp_subscriptions w1 j = Some t \<and> ss_track_key t = k}"
      if "map_of (sp_tracks w1) k = Some en" for k en
      unfolding key using send_inv_index [OF inv] that by (simp add: f)
  qed
  from pub_inv_plane [OF w this [unfolded w1_def]] show ?thesis by (simp add: put_subscription_def)
qed

lemma pub_inv_put_track:
  assumes w: "pub_inv w" and old: "map_of (sp_tracks w) key = Some entry"
    and new: "distinct (te_subscriptions entry')" "set (te_subscriptions entry') = set (te_subscriptions entry)"
  shows "pub_inv (put_track key entry' w)"
proof -
  have inv: "send_inv {} w" using w by (simp add: pub_inv_def pub_live_def)
  define w1 where "w1 = put_track key entry' w"
  have e: "w1 = w\<lparr>sp_tracks := sp_tracks w1, sp_subscriptions := sp_subscriptions w\<rparr>" by (simp add: w1_def put_track_def)
  have t: "map_of (sp_tracks w1) = (map_of (sp_tracks w))(key \<mapsto> entry')" "map fst (sp_tracks w1) = map fst (sp_tracks w)"
    using old by (simp_all add: w1_def map_of_put_track)
  have f: "sp_subscriptions w1 = sp_subscriptions w" "pb_subscriptions w1 = pb_subscriptions w" "pb_next_track_alias w1 = pb_next_track_alias w"
    by (simp_all add: w1_def put_track_def)
  have "send_inv {} w1"
  proof (rule send_invI)
    show "distinct (te_subscriptions en) \<and> set (te_subscriptions en) = {j. \<exists>t. sp_subscriptions w1 j = Some t \<and> ss_track_key t = k}"
      if "map_of (sp_tracks w1) k = Some en" for k en
      using that send_inv_index [OF inv old] send_inv_index [OF inv, of k] new by (cases "k = key") (simp_all add: t f)
    show "j \<in> set (pb_subscriptions w1) \<union> {} \<and> ss_request_id s = j \<and> ss_track_alias s < pb_next_track_alias w1 \<and>
        map_of (sp_tracks w1) (ss_track_key s) \<noteq> None \<and> sorted_wrt key_less (map fst (ss_streams s))"
      if "sp_subscriptions w1 j = Some s" for j s
      using that send_invD(1-5) [OF inv] by (auto simp: t f)
  qed (use send_inv_tracks [OF inv] send_invD(6) [OF inv] in \<open>simp_all add: f t\<close>)
  then show ?thesis using pub_inv_plane [OF w] e unfolding w1_def [symmetric] by metis
qed

lemma pub_inv_stale:
  assumes "pub_inv w" "map_of (sp_tracks w) key = Some entry" "sp_subscriptions w i = None"
  shows "pub_inv (put_track key (entry\<lparr>te_subscriptions := removeAll i (te_subscriptions entry)\<rparr>) w)"
proof -
  have "send_inv {} w" using assms(1) by (simp add: pub_inv_def pub_live_def)
  from send_inv_index [OF this assms(2)] assms(3) show ?thesis
    by (intro pub_inv_put_track [OF assms(1,2)]) (auto simp: distinct_removeAll)
qed

lemma pub_inv_largest:
  assumes "pub_inv w" "map_of (sp_tracks w) key = Some entry"
  shows "pub_inv (put_track key (entry\<lparr>te_largest := l\<rparr>) w)"
proof -
  have "send_inv {} w" using assms(1) by (simp add: pub_inv_def pub_live_def)
  from send_inv_index [OF this assms(2)] show ?thesis by (intro pub_inv_put_track [OF assms(1,2)]) simp_all
qed

lemma pub_inv_register:
  assumes w: "pub_inv w"
  shows "pub_inv (snd (register_track track w))"
proof -
  let ?key = "(pt_namespace track, pt_name track)"
  let ?t = "sp_tracks w @ [(?key, \<lparr>te_track = track, te_largest = None, te_subscriptions = []\<rparr>)]"
  show ?thesis
  proof (cases "map_of (sp_tracks w) ?key")
    case None
    have inv: "send_inv {} w" using w by (simp add: pub_inv_def pub_live_def)
    have none: "ss_track_key s \<noteq> ?key" if "sp_subscriptions w i = Some s" for i s
      using send_invD(4) [OF inv that] None by auto
    have t: "map_of ?t key = (if key = ?key then Some \<lparr>te_track = track, te_largest = None, te_subscriptions = []\<rparr> else map_of (sp_tracks w) key)" for key
      using None by (auto simp: map_add_def split: option.split)
    let ?w = "w\<lparr>sp_tracks := ?t, sp_subscriptions := sp_subscriptions w\<rparr>"
    have "send_inv {} ?w"
    proof (rule send_invI)
      show "distinct (map fst (sp_tracks ?w))" using send_inv_tracks [OF inv] None by (auto simp: map_of_eq_None_iff)
      show "j \<in> set (pb_subscriptions ?w) \<union> {} \<and> ss_request_id s = j \<and> ss_track_alias s < pb_next_track_alias ?w \<and>
          map_of (sp_tracks ?w) (ss_track_key s) \<noteq> None \<and> sorted_wrt key_less (map fst (ss_streams s))"
        if "sp_subscriptions ?w j = Some s" for j s
        using that send_invD(1-5) [OF inv, of j s] none [of j s] t by auto
      show "distinct (te_subscriptions en) \<and> set (te_subscriptions en) = {j. \<exists>s. sp_subscriptions ?w j = Some s \<and> ss_track_key s = key}"
        if "map_of (sp_tracks ?w) key = Some en" for key en
        using that send_inv_index [OF inv, of key en] none t by (cases "key = ?key") auto
    qed (use send_invD(6) [OF inv] in simp)
    with pub_inv_plane [OF w this] None show ?thesis by (simp add: register_track_def Let_def)
  qed (simp add: register_track_def w)
qed

text \<open>\<open>end_track\<close> leaves no subscription of the track behind, unless an exception stops it.\<close>

lemma finish_subscriptions:
  assumes "pub_inv w" "i \<in> set (pb_subscriptions w)"
  shows "sp_subscriptions (snd (finish i code reason w)) = (sp_subscriptions w)(i := None)"
proof -
  obtain rq where rq: "pb_requests w i = Some rq" "\<not> pq_terminated rq"
    using assms by (auto simp: pub_inv_def pub_live_def pub_requests_inv_def)
  obtain n d where d: "detach_subscription i None w = (n, d)" by fastforce
  have "sp_subscriptions d = (sp_subscriptions w)(i := None)" using detach_subscriptions [of i None w] d by simp
  then show ?thesis
    using rq d by (simp add: finish_def mark_terminated_def put_pub_request_def abort_receive_def send_def quic_call_def emit_def split: sum.split)
qed

lemma complete_all_ends:
  "pub_inv w \<Longrightarrow> complete_all ids code reason w = (None, w') \<Longrightarrow>
     pub_inv w' \<and> sp_subscriptions w' = (\<lambda>i. if i \<in> set ids then None else sp_subscriptions w i)"
proof (induction ids arbitrary: w)
  case (Cons i ids)
  obtain w1 where c: "complete_subscription i code reason w = (None, w1)" "complete_all ids code reason w1 = (None, w')"
    using Cons.prems(2) by (auto split: prod.splits option.splits)
  have w1: "pub_inv w1" using pub_inv_finish [OF Cons.prems(1), of i code reason] Cons.prems(1) c(1)
    by (auto simp: complete_subscription_def split: if_splits)
  have "sp_subscriptions w1 = (sp_subscriptions w)(i := None)"
  proof (cases "i \<in> set (pb_subscriptions w)")
    case True
    then show ?thesis using finish_subscriptions [OF Cons.prems(1) True, of code reason] c(1) by (simp add: complete_subscription_def)
  next
    case False
    have "send_inv {} w" using Cons.prems(1) by (simp add: pub_inv_def pub_live_def)
    from send_invD(1) [OF this] have "sp_subscriptions w i = None" using False by (cases "sp_subscriptions w i") auto
    with False c(1) show ?thesis by (auto simp: complete_subscription_def)
  qed
  with Cons.IH [OF w1 c(2)] show ?case by (auto simp: fun_eq_iff)
qed auto

lemma pub_inv_unregister:
  assumes w: "pub_inv w" and e: "end_track key code reason w = (None, w')"
  shows "pub_inv (snd (unregister_track key w'))"
proof -
  have w': "pub_inv w' \<and> (\<forall>i s. sp_subscriptions w' i = Some s \<longrightarrow> ss_track_key s \<noteq> key)"
  proof (cases "map_of (sp_tracks w) key")
    case None
    have "send_inv {} w" using w by (simp add: pub_inv_def pub_live_def)
    with None w e show ?thesis using send_invD(4) by (fastforce simp: end_track_def find_track_def)
  next
    case (Some entry)
    have "send_inv {} w" using w by (simp add: pub_inv_def pub_live_def)
    from send_inv_index [OF this Some] have "i \<in> set (te_subscriptions entry)" if "sp_subscriptions w i = Some s" "ss_track_key s = key" for i s
      using that by blast
    with complete_all_ends [OF w, of "te_subscriptions entry" code reason w'] e Some show ?thesis
      by (auto simp: end_track_def find_track_def split: if_splits)
  qed
  have inv: "send_inv {} w'" using w' by (simp add: pub_inv_def pub_live_def)
  let ?t = "filter (\<lambda>e. fst e \<noteq> key) (sp_tracks w')"
  let ?w = "w'\<lparr>sp_tracks := ?t, sp_subscriptions := sp_subscriptions w'\<rparr>"
  have "map_of (filter (\<lambda>e. fst e \<noteq> key) l) = (map_of l)(key := None)" for l :: "(TrackKey \<times> TrackEntry) list"
    by (induction l) (auto simp: fun_eq_iff)
  then have t: "map_of ?t = (map_of (sp_tracks w'))(key := None)" .
  have "send_inv {} ?w"
  proof (rule send_invI)
    show "distinct (map fst (sp_tracks ?w))" using send_inv_tracks [OF inv] by (simp add: distinct_map_filter)
    show "j \<in> set (pb_subscriptions ?w) \<union> {} \<and> ss_request_id s = j \<and> ss_track_alias s < pb_next_track_alias ?w \<and>
        map_of (sp_tracks ?w) (ss_track_key s) \<noteq> None \<and> sorted_wrt key_less (map fst (ss_streams s))"
      if "sp_subscriptions ?w j = Some s" for j s
      using that send_invD(1-5) [OF inv, of j s] w' by (simp add: t)
    show "distinct (te_subscriptions en) \<and> set (te_subscriptions en) = {j. \<exists>s. sp_subscriptions ?w j = Some s \<and> ss_track_key s = k}"
      if "map_of (sp_tracks ?w) k = Some en" for k en
      using that send_inv_index [OF inv, of k en] by (simp add: t split: if_splits)
  qed (use send_invD(6) [OF inv] in simp)
  from pub_inv_plane [OF _ this] w' show ?thesis by (simp add: unregister_track_def)
qed

section \<open>Admitting a subscription\<close>

lemma attach_accepted:
  assumes "attach_subscription i a key options w = (None, w')" "sp_subscriptions w i = None"
  shows "\<exists>entry s. map_of (sp_tracks w) key = Some entry \<and> ss_request_id s = i \<and> ss_track_alias s = a \<and> ss_track_key s = key \<and>
    ss_streams s = [] \<and> w' = put_subscription i s (put_track key (entry\<lparr>te_subscriptions :=
      (if i \<in> set (te_subscriptions entry) then te_subscriptions entry else te_subscriptions entry @ [i])\<rparr>) w)"
proof (cases "map_of (sp_tracks w) key")
  case (Some entry)
  let ?entry = "entry\<lparr>te_subscriptions := (if i \<in> set (te_subscriptions entry) then te_subscriptions entry else te_subscriptions entry @ [i])\<rparr>"
  let ?resolved = "case so_filter options of None \<Rightarrow> (\<lparr>loc_group = 0, loc_object = 0\<rparr>, None) | Some f \<Rightarrow> resolve_filter f (te_largest entry)"
  let ?s = "\<lparr>ss_request_id = i, ss_track_alias = a, ss_track_key = key, ss_forward = (case so_forward options of None \<Rightarrow> True | Some f \<Rightarrow> f \<noteq> 0),
      ss_start = fst ?resolved, ss_end_group = snd ?resolved, ss_stream_count = 0, ss_streams = []\<rparr>"
  have none: "sp_subscriptions (put_track key ?entry w) i = None" using assms(2) by (simp add: put_track_def)
  have "w' = (if sp_subscriptions (put_track key ?entry w) i \<noteq> None then put_track key ?entry w
      else put_subscription i ?s (put_track key ?entry w))"
    using assms(1) unfolding attach_subscription_def Let_def Some option.case by (simp only: prod.inject split: if_splits) simp_all
  then have "w' = put_subscription i ?s (put_track key ?entry w)" unfolding none by simp
  then show ?thesis using Some by (intro exI [of _ entry] exI [of _ ?s]) simp
qed (use assms in \<open>simp add: attach_subscription_def split: if_splits\<close>)

lemma pub_inv_admit:
  assumes w: "pub_inv w" "se_phase w = Ready" and c: "consume_peer_request_id (sub_request_id subscribe) w = (None, w1)"
    and room: "length (pb_subscriptions w1) < pb_max_subscriptions w1"
    and a: "attach_subscription (sub_request_id subscribe) (pb_next_track_alias w1) (sub_namespace subscribe, sub_name subscribe) options
        (w1\<lparr>pb_next_track_alias := pb_next_track_alias w1 + 1\<rparr>) = (None, w2)"
  shows "pub_inv (admit subscribe st w2)"
proof -
  let ?i = "sub_request_id subscribe"
  let ?key = "(sub_namespace subscribe, sub_name subscribe)"
  note new = consumed [OF w(1) c]
  have r: "pub_requests_inv w1" and inv: "send_inv {} w1" and calm: "pub_calm w1"
    using new(1) by (simp_all add: pub_inv_def pub_live_def)
  have fresh: "?i \<notin> set (pb_subscriptions w1)" using r new(3) by (auto simp: pub_requests_inv_def)
  then have none: "sp_subscriptions w1 ?i = None" using send_invD(1) [OF inv, of ?i] by (cases "sp_subscriptions w1 ?i") auto
  obtain entry s where e: "map_of (sp_tracks w1) ?key = Some entry"
    and s: "ss_request_id s = ?i" "ss_track_alias s = pb_next_track_alias w1" "ss_track_key s = ?key" "ss_streams s = []"
    and w2: "w2 = put_subscription ?i s (put_track ?key (entry\<lparr>te_subscriptions := (if ?i \<in> set (te_subscriptions entry)
        then te_subscriptions entry else te_subscriptions entry @ [?i])\<rparr>) (w1\<lparr>pb_next_track_alias := pb_next_track_alias w1 + 1\<rparr>))"
    using attach_accepted [OF a] none by auto
  note index = send_inv_index [OF inv e]
  have outside: "?i \<notin> set (te_subscriptions entry)" using index none by auto
  define w3 where "w3 = admit subscribe st w2"
  have f: "sp_subscriptions w3 = (sp_subscriptions w1)(?i \<mapsto> s)" "pb_subscriptions w3 = pb_subscriptions w1 @ [?i]"
    "pb_next_track_alias w3 = pb_next_track_alias w1 + 1" "pb_peer_request_ids w3 = pb_peer_request_ids w1"
    "pb_max_subscriptions w3 = pb_max_subscriptions w1" "se_phase w3 = Ready"
    "pb_requests w3 = (pb_requests w1)(?i \<mapsto> \<lparr>pq_namespace = sub_namespace subscribe, pq_name = sub_name subscribe, pq_stream = st,
        pq_buffer = [], pq_terminated = False\<rparr>)"
    "map_of (sp_tracks w3) = (map_of (sp_tracks w1))(?key \<mapsto> entry\<lparr>te_subscriptions := te_subscriptions entry @ [?i]\<rparr>)"
    "map fst (sp_tracks w3) = map fst (sp_tracks w1)" "keeps_calm w1 w3"
    using outside new(7) w(2) e
    by (simp_all add: w3_def w2 admit_def Let_def put_pub_request_def set_sink_def put_subscription_def map_of_put_track keeps_calm_def)
      (simp_all add: put_track_def comp_def)
  have next_a: "pb_next_track_alias w1 < pb_next_track_alias w1 + 1" using next_alias [OF r new(2)] by (simp add: word_less_nat_alt)
  have "send_inv {} w3"
  proof (rule send_invI)
    show "distinct (map fst (sp_tracks w3))" unfolding f by (rule send_inv_tracks [OF inv])
    show "j \<in> set (pb_subscriptions w3) \<union> {} \<and> ss_request_id t = j \<and> ss_track_alias t < pb_next_track_alias w3 \<and>
        map_of (sp_tracks w3) (ss_track_key t) \<noteq> None \<and> sorted_wrt key_less (map fst (ss_streams t))"
      if t: "sp_subscriptions w3 j = Some t" for j t
    proof (cases "j = ?i")
      case True
      then show ?thesis using t s next_a by (simp add: f)
    next
      case False
      then have "sp_subscriptions w1 j = Some t" using t by (simp add: f)
      from send_invD(1-5) [OF inv this] next_a show ?thesis by (auto simp: f)
    qed
    show "j = k" if t: "sp_subscriptions w3 j = Some t" "sp_subscriptions w3 k = Some u" "ss_track_alias t = ss_track_alias u" for j k t u
      using t send_invD(3) [OF inv, of j t] send_invD(3) [OF inv, of k u] send_invD(6) [OF inv, of j t k u] s(2)
      by (auto simp: f split: if_splits)
    show "distinct (te_subscriptions en) \<and> set (te_subscriptions en) = {j. \<exists>t. sp_subscriptions w3 j = Some t \<and> ss_track_key t = key}"
      if en: "map_of (sp_tracks w3) key = Some en" for key en
    proof (cases "key = ?key")
      case True
      then have "en = entry\<lparr>te_subscriptions := te_subscriptions entry @ [?i]\<rparr>" using en by (simp add: f)
      then show ?thesis using True index outside s(3) none by (auto simp: f)
    next
      case False
      then have "map_of (sp_tracks w1) key = Some en" using en by (simp add: f)
      from send_inv_index [OF inv this] show ?thesis using False s(3) none by (auto simp: f)
    qed
  qed
  moreover have "pub_requests_inv w3"
    using r fresh room new(2,6) next_alias [OF r new(2)] by (auto simp: pub_requests_inv_def f)
  moreover have "pub_calm w3" by (rule pub_calm_keeps [OF f(10) calm])
  ultimately show ?thesis by (simp add: pub_inv_def pub_live_def f w3_def [symmetric])
qed

section \<open>The session\<close>

lemma pub_inv_dangling: "pub_inv w \<Longrightarrow> \<not> tp_answer w n \<Longrightarrow> pub_inv (emit (DanglingRead i) w)"
  by (auto simp: pub_inv_def pub_live_def pub_requests_inv_def send_inv_def pub_calm_def emit_def)

lemma pub_inv_ready: "pub_inv w \<Longrightarrow> pub_inv (snd (ready w))"
proof -
  assume w: "pub_inv w"
  then have live: "pub_live w" and calm: "pub_calm w" by (simp_all add: pub_inv_def pub_live_def)
  have k: "keeps_subscriptions w (snd (ready w))" "se_phase (snd (ready w)) = se_phase w"
    by (simp_all add: ready_def new_promise_def set_value_def Session.fail_def keeps_subscriptions_def emit_def)
  have "pub_calm (snd (ready w))"
    using calm by (cases "se_phase w") (auto simp: ready_def new_promise_def set_value_def Session.fail_def phase_order pub_calm_def less_Suc_eq)
  from pub_live_calm [OF k(1) this live] w k show ?thesis by (simp add: pub_inv_def keeps_subscriptions_def)
qed

lemma set_all_pending:
  "distinct ps \<Longrightarrow> \<forall>p\<in>set ps. se_promises w p = Some Pending \<Longrightarrow>
     \<exists>P. set_all ps v w = w\<lparr>se_promises := P\<rparr> \<and> (\<forall>p. P p \<noteq> None \<longrightarrow> se_promises w p \<noteq> None)"
proof (induction ps arbitrary: w)
  case Nil
  show ?case by (rule exI [of _ "se_promises w"]) simp
next
  case (Cons p ps)
  let ?w = "w\<lparr>se_promises := (se_promises w)(p \<mapsto> Fulfilled v)\<rparr>"
  have d: "distinct ps" and pending: "\<forall>q\<in>set ps. se_promises ?w q = Some Pending" using Cons.prems by auto
  obtain P where P: "set_all ps v ?w = ?w\<lparr>se_promises := P\<rparr>" "\<forall>q. P q \<noteq> None \<longrightarrow> se_promises ?w q \<noteq> None"
    using Cons.IH [OF d pending] by blast
  have "P q \<noteq> None \<Longrightarrow> se_promises w q \<noteq> None" for q using P(2) Cons.prems(2) by (cases "q = p") auto
  moreover have "set_all (p # ps) v w = w\<lparr>se_promises := P\<rparr>" using P(1) Cons.prems(2) by (simp add: set_value_def)
  ultimately show ?case by blast
qed

lemma pub_inv_flags: "pub_inv (w\<lparr>se_local_setup_sent := b\<rparr>) = pub_inv w" "pub_inv (w\<lparr>se_peer_setup_received := b\<rparr>) = pub_inv w"
  by (simp_all add: pub_inv_def pub_live_def pub_requests_inv_def send_inv_def pub_calm_def)

lemma pub_inv_maybe_ready:
  assumes w: "pub_inv w"
  shows "pub_inv (maybe_ready (\<lambda>w. w) w)"
proof (cases "\<not> se_local_setup_sent w \<or> \<not> se_peer_setup_received w \<or> se_phase w \<ge> Ready")
  case False
  let ?w = "w\<lparr>se_phase := Ready, se_negotiated_version := Some kAlpn\<rparr>"
  have pending: "distinct (se_ready_waiters w)" "\<forall>p\<in>set (se_ready_waiters w). se_promises ?w p = Some Pending"
    using w by (simp_all add: pub_inv_def pub_live_def pub_calm_def)
  obtain P where P: "set_all (se_ready_waiters w) ReadyValue ?w = ?w\<lparr>se_promises := P\<rparr>" "\<forall>p. P p \<noteq> None \<longrightarrow> se_promises w p \<noteq> None"
    using set_all_pending [OF pending, of ReadyValue] by auto
  have m: "maybe_ready (\<lambda>w. w) w = ?w\<lparr>se_promises := P, se_ready_waiters := []\<rparr>"
    using False P(1) by (simp add: maybe_ready_def Let_def)
  show ?thesis
    unfolding m using w P(2) by (auto simp: pub_inv_def pub_live_def pub_requests_inv_def send_inv_def pub_calm_def)
next
  case True
  then have "maybe_ready (\<lambda>w. w) w = w" by (auto simp: maybe_ready_def)
  with w show ?thesis by simp
qed

lemma pub_inv_shutdown_complete:
  assumes w: "pub_inv w"
  shows "pub_inv (shutdown_complete h w)"
proof -
  have "\<exists>c. (if \<not> h \<and> se_close_reason w = None
      then w\<lparr>se_close_reason := Some (Close_InternalError, ''QUIC handshake did not complete'')\<rparr> else w)\<lparr>se_phase := Closed\<rparr>
      \<in> {w\<lparr>se_close_reason := c, se_phase := Closed\<rparr>, w\<lparr>se_phase := Closed\<rparr>}" by auto
  then show ?thesis
    unfolding shutdown_complete_def Let_def using w pub_live_fail_waiters [of w] by (fastforce simp: pub_inv_def)
qed

lemma pub_inv_started: "pub_inv w \<Longrightarrow> new_stream uni sid w = (st, w') \<Longrightarrow> pub_inv (on_peer_stream_started st w')"
  by (rule pub_inv_keeps [of w])
    (auto simp: new_stream_def on_peer_stream_started_def set_sink_def keeps_subscriptions_def keeps_calm_def)

lemma pub_inv_connecting: "pub_inv w \<Longrightarrow> se_phase w = Init \<Longrightarrow> pub_inv (w\<lparr>se_phase := SetupInProgress\<rparr>)"
  by (auto simp: pub_inv_def pub_live_def pub_requests_inv_def send_inv_def pub_calm_def phase_order)

interpretation pubi: publisher_events pub_inv
proof unfold_locales
  show "pub_inv (maybe_ready (\<lambda>w. w) w')"
    if "pub_inv w" "w' = w\<lparr>se_local_setup_sent := True\<rparr> \<or> w' = w\<lparr>se_peer_setup_received := True\<rparr>" for w w' :: "'a publisher_scheme"
    using that pub_inv_flags pub_inv_maybe_ready by metis
qed (rule pub_inv_transport pub_inv_dangling pub_inv_begin_close pub_inv_buffer pub_inv_cancel pub_inv_finish pub_inv_consume
    pub_inv_subscription pub_inv_largest pub_inv_stale pub_inv_register pub_inv_unregister pub_inv_alias pub_inv_admit
    pub_inv_started pub_inv_connecting pub_inv_ready pub_inv_shutdown_complete; assumption)+

end
