(* ===== verification/Stream_Parser.thy ===== *)
theory Stream_Parser
  imports Codec_Objects
begin

text \<open>
  The parsers of the receive path of \<^verbatim>\<open>src/data_plane.cpp\<close>. Unlike a control
  message, a data stream is not framed: a parser that runs out of bytes reports
  \<open>NeedMoreData\<close> (here \<open>None\<close>) and the caller puts the cursor back to its mark;
  \<open>Some (Inl e)\<close> is \<^verbatim>\<open>Parse::Error\<close> and \<open>Some (Inr (x, c))\<close> is
  \<^verbatim>\<open>Parse::Done\<close>. This theory holds the side-effect free part of parsing: the
  header of a subgroup stream, one object of it, and the fields of an object datagram. The
  lemmas at the end show that a verdict never changes when more bytes arrive.
\<close>

section \<open>Three-valued parsers\<close>

type_synonym ('e, 'a) parser = "Cursor \<Rightarrow> ('e + 'a \<times> Cursor) option"

definition preturn :: "'a \<Rightarrow> ('e, 'a) parser" where
  "preturn x c = Some (Inr (x, c))"

definition pbind :: "('e, 'a) parser \<Rightarrow> ('a \<Rightarrow> ('e, 'b) parser) \<Rightarrow> ('e, 'b) parser" where
  "pbind m f c =
     (case m c of None \<Rightarrow> None | Some (Inl e) \<Rightarrow> Some (Inl e) | Some (Inr (x, c')) \<Rightarrow> f x c')"

text \<open>A cursor read whose failure means that bytes are missing.\<close>

definition pneed :: "(Cursor \<Rightarrow> ('a \<times> Cursor) option) \<Rightarrow> ('e, 'a) parser" where
  "pneed f c = (case f c of None \<Rightarrow> None | Some r \<Rightarrow> Some (Inr r))"

definition prequire :: "bool \<Rightarrow> 'e \<Rightarrow> ('e, unit) parser" where
  "prequire valid e c = (if valid then Some (Inr ((), c)) else Some (Inl e))"

text \<open>The caller names the error of a parser that only says there is one.\<close>

definition perror :: "'e \<Rightarrow> (unit, 'a) parser \<Rightarrow> ('e, 'a) parser" where
  "perror e p c = (case p c of Some (Inl _) \<Rightarrow> Some (Inl e) | Some (Inr r) \<Rightarrow> Some (Inr r) | None \<Rightarrow> None)"

text \<open>In a datagram nothing more can arrive: every verdict but \<open>Done\<close> is the error.\<close>

definition pwhole :: "string \<Rightarrow> (unit, 'a) parser \<Rightarrow> 'a reader" where
  "pwhole e p c = (case p c of Some (Inr r) \<Rightarrow> Inr r | _ \<Rightarrow> Inl e)"

section \<open>Object properties and status\<close>

abbreviation (input) kNormalStatus :: u64 where "kNormalStatus \<equiv> 0x0"
abbreviation (input) kEndOfGroupStatus :: u64 where "kEndOfGroupStatus \<equiv> 0x3"
abbreviation (input) kEndOfTrackStatus :: u64 where "kEndOfTrackStatus \<equiv> 0x4"

definition is_valid_object_status :: "u64 \<Rightarrow> bool" where
  "is_valid_object_status status =
     (status = kNormalStatus \<or> status = kEndOfGroupStatus \<or> status = kEndOfTrackStatus)"

definition read_properties :: "bool \<Rightarrow> (unit, ByteBuffer) parser" where
  "read_properties require_non_empty =
     pbind (pneed cursor_varint) (\<lambda>len.
     pbind (prequire (\<not> ((require_non_empty \<and> len = 0) \<or> len > 65535)) ()) (\<lambda>_.
     pneed (read_view (unat len))))"

section \<open>The header of a subgroup stream\<close>

record SubgroupHeader =
  sh_type :: u64
  sh_alias :: TrackAlias
  sh_group_id :: GroupId
  sh_subgroup_id_mode :: byte
  sh_subgroup_id :: "SubgroupId option"
  sh_publisher_priority :: byte

text \<open>
  The fields \<open>parse_header\<close> reads before it looks for the route. A header that is not
  complete is parsed again from its first byte, so the members it assigns on the way get
  the same values again.
\<close>

definition parse_header_fields :: "(string, SubgroupHeader) parser" where
  "parse_header_fields =
     pbind (pneed cursor_varint) (\<lambda>type.
     pbind (prequire (is_subgroup_stream_type type) ''invalid SUBGROUP_HEADER stream type'') (\<lambda>_.
     pbind (pneed cursor_varint) (\<lambda>track_alias.
     pbind (pneed cursor_varint) (\<lambda>group_id.
     (let subgroup_id_mode = ucast (drop_bit 1 (type AND 0x06)) :: byte;
          default_priority = (type AND 0x20 \<noteq> 0)
      in pbind (if subgroup_id_mode = 0x02 then pbind (pneed cursor_varint) (\<lambda>subgroup. preturn (Some subgroup))
                else if subgroup_id_mode = 0x00 then preturn (Some 0) else preturn None) (\<lambda>subgroup_id.
         pbind (if \<not> default_priority then pneed read_byte else preturn 128) (\<lambda>publisher_priority.
         preturn \<lparr>sh_type = type, sh_alias = track_alias, sh_group_id = group_id,
                  sh_subgroup_id_mode = subgroup_id_mode, sh_subgroup_id = subgroup_id,
                  sh_publisher_priority = publisher_priority\<rparr>)))))))"

section \<open>One object of a subgroup stream\<close>

record SubgroupObject =
  sgo_object_id :: ObjectId
  sgo_status :: "ObjectStatusCode option"
  sgo_properties :: ByteBuffer
  sgo_payload :: ByteBuffer

definition status_or_payload :: "u64 \<Rightarrow> ByteBuffer \<Rightarrow> (string, ObjectStatusCode option \<times> ByteBuffer) parser" where
  "status_or_payload stream properties =
     pbind (pneed cursor_varint) (\<lambda>payload_length.
     if payload_length = 0
     then pbind (pneed cursor_varint) (\<lambda>status_code.
          pbind (prequire (\<not> (\<not> is_valid_object_status status_code \<or> (status_code \<noteq> kNormalStatus \<and> properties \<noteq> [])))
                   (''invalid subgroup object status '' @ to_string (unat status_code) @ '' on stream '' @ to_string (unat stream)))
            (\<lambda>_. preturn (Some status_code, [])))
     else pbind (pneed (read_view (unat payload_length))) (\<lambda>payload. preturn (None, payload)))"

definition next_object_id :: "ObjectId option \<Rightarrow> u64 \<Rightarrow> (string, ObjectId) parser" where
  "next_object_id last_object_id object_delta =
     (case last_object_id of
        None \<Rightarrow> preturn object_delta
      | Some last_id \<Rightarrow>
          pbind (prequire (\<not> (last_id = u64_max \<or> object_delta > u64_max - (last_id + 1)))
                   ''subgroup Object ID delta overflow'')
            (\<lambda>_. preturn (last_id + object_delta + 1)))"

definition parse_object_fields :: "bool \<Rightarrow> ObjectId option \<Rightarrow> u64 \<Rightarrow> (string, SubgroupObject) parser" where
  "parse_object_fields properties_per_object last_object_id stream =
     pbind (pneed cursor_varint) (\<lambda>object_delta.
     pbind (if properties_per_object then perror ''invalid subgroup object properties'' (read_properties False)
            else preturn []) (\<lambda>properties.
     pbind (status_or_payload stream properties) (\<lambda>(object_status, payload).
     pbind (next_object_id last_object_id object_delta) (\<lambda>object_id.
     preturn \<lparr>sgo_object_id = object_id, sgo_status = object_status, sgo_properties = properties,
              sgo_payload = payload\<rparr>))))"

section \<open>Object datagrams\<close>

definition invalid_datagram_type :: "u64 \<Rightarrow> bool" where
  "invalid_datagram_type type =
     ((type > 0x0f \<and> (type < 0x20 \<or> type > 0x2f)) \<or> (type AND 0x20 \<noteq> 0 \<and> type AND 0x02 \<noteq> 0))"

text \<open>Track Alias, Group ID and Object ID, read before the route is looked up.\<close>

definition datagram_ids :: "u64 \<Rightarrow> (TrackAlias \<times> GroupId \<times> ObjectId) reader" where
  "datagram_ids type =
     rbind (of_option ''truncated object datagram header'' cursor_varint) (\<lambda>track_alias.
     rbind (of_option ''truncated object datagram header'' cursor_varint) (\<lambda>group.
     rbind (if type AND 0x04 = 0 then of_option ''truncated object datagram Object ID'' cursor_varint
            else rreturn 0) (\<lambda>object_id.
     rreturn (track_alias, group, object_id))))"

text \<open>\<^verbatim>\<open>BytesView{cursor.bytes.data + cursor.offset, cursor.remaining()}\<close>\<close>

definition rview_rest :: "ByteBuffer reader" where
  "rview_rest c = Inr (drop (cur_offset c) (cur_bytes c), c)"

definition datagram_body :: "u64 \<Rightarrow> (byte \<times> ByteBuffer \<times> ObjectStatusCode option \<times> ByteBuffer) reader" where
  "datagram_body type =
     rbind (if type AND 0x08 = 0 then of_option ''truncated object datagram priority'' read_byte
            else rreturn 128) (\<lambda>publisher_priority.
     rbind (if type AND 0x01 \<noteq> 0 then pwhole ''invalid object datagram properties'' (read_properties True)
            else rreturn []) (\<lambda>properties.
     if type AND 0x20 \<noteq> 0
     then rbind (of_option ''invalid object datagram status'' cursor_varint) (\<lambda>status_code.
          rbind rremaining (\<lambda>left.
          rbind (require (\<not> (\<not> is_valid_object_status status_code \<or> (status_code \<noteq> kNormalStatus \<and> properties \<noteq> [])
                               \<or> left \<noteq> 0)) ''invalid object datagram status'') (\<lambda>_.
          rreturn (publisher_priority, properties, Some status_code, []))))
     else rbind rview_rest (\<lambda>payload.
          rreturn (publisher_priority, properties, None, payload))))"

section \<open>Verdicts are final\<close>

text \<open>
  A settled parser needs nothing but the bytes from its cursor on, and once it has succeeded or
  failed, bytes that arrive later change neither the verdict nor how much it consumed.
\<close>

definition settled :: "('e, 'a) parser \<Rightarrow> bool" where
  "settled p \<longleftrightarrow> (\<forall>pre xs. case p (standing pre xs) of
       None \<Rightarrow> \<forall>pre'. p (standing pre' xs) = None
     | Some (Inl e) \<Rightarrow> \<forall>pre' ys. p (standing pre' (xs @ ys)) = Some (Inl e)
     | Some (Inr (x, c)) \<Rightarrow> \<exists>us ws. xs = us @ ws \<and>
         (\<forall>pre' ys. p (standing pre' (xs @ ys)) = Some (Inr (x, standing (pre' @ us) (ws @ ys)))))"

lemma settledI:
  assumes "\<And>pre xs pre'. p (standing pre xs) = None \<Longrightarrow> p (standing pre' xs) = None"
    and "\<And>pre xs e pre' ys. p (standing pre xs) = Some (Inl e) \<Longrightarrow> p (standing pre' (xs @ ys)) = Some (Inl e)"
    and "\<And>pre xs x c. p (standing pre xs) = Some (Inr (x, c)) \<Longrightarrow>
      \<exists>us ws. xs = us @ ws \<and>
         (\<forall>pre' ys. p (standing pre' (xs @ ys)) = Some (Inr (x, standing (pre' @ us) (ws @ ys))))"
  shows "settled p"
  unfolding settled_def
proof (intro allI)
  fix pre xs
  show "case p (standing pre xs) of
       None \<Rightarrow> \<forall>pre'. p (standing pre' xs) = None
     | Some (Inl e) \<Rightarrow> \<forall>pre' ys. p (standing pre' (xs @ ys)) = Some (Inl e)
     | Some (Inr (x, c)) \<Rightarrow> \<exists>us ws. xs = us @ ws \<and>
         (\<forall>pre' ys. p (standing pre' (xs @ ys)) = Some (Inr (x, standing (pre' @ us) (ws @ ys))))"
    using assms(1) [of pre xs] assms(2) [of pre xs] assms(3) [of pre xs]
    by (simp split: option.split sum.split prod.split)
qed

lemma settled_None: "settled p \<Longrightarrow> p (standing pre xs) = None \<Longrightarrow> p (standing pre' xs) = None"
  unfolding settled_def by (drule spec [of _ pre], drule spec [of _ xs]) simp

lemma settled_Inl:
  assumes "settled p" "p (standing pre xs) = Some (Inl e)"
  shows "p (standing pre' (xs @ ys)) = Some (Inl e)"
  using assms(1) [unfolded settled_def, THEN spec, THEN spec, of xs pre] assms(2) by simp

lemma settled_Inr:
  assumes "settled p" "p (standing pre xs) = Some (Inr (x, c))"
  obtains us ws where "xs = us @ ws" "c = standing (pre @ us) ws"
    "\<And>pre' ys. p (standing pre' (xs @ ys)) = Some (Inr (x, standing (pre' @ us) (ws @ ys)))"
proof -
  from assms(1) [unfolded settled_def, THEN spec, THEN spec, of xs pre] assms(2)
  obtain us ws where *: "xs = us @ ws"
      "\<forall>pre' ys. p (standing pre' (xs @ ys)) = Some (Inr (x, standing (pre' @ us) (ws @ ys)))"
    by auto
  from *(2) [rule_format, of pre "[]"] assms(2) have "c = standing (pre @ us) ws" by simp
  with * that show ?thesis by blast
qed

lemma settled_return [intro]: "settled (preturn x)"
  by (rule settledI) (auto simp: preturn_def intro: exI [of _ "[]"])

lemma settled_require [intro]: "settled (prequire b e)"
  by (rule settledI) (auto simp: prequire_def intro: exI [of _ "[]"] split: if_splits)

lemma settled_bind [intro]:
  assumes m: "settled m" and f: "\<And>x. settled (f x)"
  shows "settled (pbind m f)"
proof (rule settledI)
  fix pre xs pre'
  assume none: "pbind m f (standing pre xs) = None"
  show "pbind m f (standing pre' xs) = None"
  proof (cases "m (standing pre xs)")
    case None
    from settled_None [OF m this] show ?thesis by (simp add: pbind_def)
  next
    case (Some r)
    with none obtain x c where r: "m (standing pre xs) = Some (Inr (x, c))"
      by (cases r) (auto simp: pbind_def)
    from settled_Inr [OF m r] obtain us ws where *: "c = standing (pre @ us) ws"
      "\<And>pre' ys. m (standing pre' (xs @ ys)) = Some (Inr (x, standing (pre' @ us) (ws @ ys)))"
      by metis
    from *(2) [of pre' "[]"] none r * settled_None [OF f, of x "pre @ us" ws "pre' @ us"]
    show ?thesis by (simp add: pbind_def)
  qed
next
  fix pre xs e pre' ys
  assume err: "pbind m f (standing pre xs) = Some (Inl e)"
  show "pbind m f (standing pre' (xs @ ys)) = Some (Inl e)"
  proof (cases "m (standing pre xs) = Some (Inl e)")
    case True
    from settled_Inl [OF m this] show ?thesis by (simp add: pbind_def)
  next
    case False
    with err obtain x c where r: "m (standing pre xs) = Some (Inr (x, c))"
      by (auto simp: pbind_def split: option.splits sum.splits)
    from settled_Inr [OF m r] obtain us ws where *: "c = standing (pre @ us) ws"
      "\<And>pre' ys. m (standing pre' (xs @ ys)) = Some (Inr (x, standing (pre' @ us) (ws @ ys)))"
      by metis
    from *(2) [of pre' ys] err r * settled_Inl [OF f, of x "pre @ us" ws e "pre' @ us" ys]
    show ?thesis by (simp add: pbind_def)
  qed
next
  fix pre xs y d
  assume ok: "pbind m f (standing pre xs) = Some (Inr (y, d))"
  then obtain x c where r: "m (standing pre xs) = Some (Inr (x, c))" and fx: "f x c = Some (Inr (y, d))"
    by (auto simp: pbind_def split: option.splits sum.splits)
  from settled_Inr [OF m r] obtain us ws where *: "xs = us @ ws" "c = standing (pre @ us) ws"
      "\<And>pre' ys. m (standing pre' (xs @ ys)) = Some (Inr (x, standing (pre' @ us) (ws @ ys)))"
    by metis
  from settled_Inr [OF f fx [unfolded *(2)]] obtain us' ws' where **: "ws = us' @ ws'"
      "\<And>pre' ys. f x (standing pre' (ws @ ys)) = Some (Inr (y, standing (pre' @ us') (ws' @ ys)))"
    by metis
  show "\<exists>us ws. xs = us @ ws \<and>
      (\<forall>pre' ys. pbind m f (standing pre' (xs @ ys)) = Some (Inr (y, standing (pre' @ us) (ws @ ys))))"
    using * ** by (intro exI [of _ "us @ us'"] exI [of _ ws']) (simp add: pbind_def)
qed

lemma settled_varint [intro]: "settled (pneed cursor_varint)"
proof (rule settledI)
  fix pre xs x c
  assume "pneed cursor_varint (standing pre xs) = Some (Inr (x, c))"
  then have d: "vr_status (read_varint xs 0) = Done" "x = vr_value (read_varint xs 0)"
    by (auto simp: pneed_def cursor_varint_standing split: if_splits)
  let ?n = "vr_bytes (read_varint xs 0)"
  have "?n \<le> length xs" using read_varint_Done_bounds [of xs 0] d by simp
  with d show "\<exists>us ws. xs = us @ ws \<and> (\<forall>pre' ys. pneed cursor_varint (standing pre' (xs @ ys)) =
      Some (Inr (x, standing (pre' @ us) (ws @ ys))))"
    by (intro exI [of _ "take ?n xs"] exI [of _ "drop ?n xs"])
      (simp add: pneed_def cursor_varint_standing read_varint_extend)
qed (auto simp: pneed_def cursor_varint_standing split: if_splits)

lemma settled_byte [intro]: "settled (pneed read_byte)"
proof (rule settledI)
  fix pre xs x c
  assume "pneed read_byte (standing pre xs) = Some (Inr (x, c))"
  then obtain ys where "xs = x # ys"
    by (auto simp: pneed_def read_byte_standing split: list.splits)
  then show "\<exists>us ws. xs = us @ ws \<and> (\<forall>pre' ys. pneed read_byte (standing pre' (xs @ ys)) =
      Some (Inr (x, standing (pre' @ us) (ws @ ys))))"
    by (intro exI [of _ "[x]"] exI [of _ ys]) (simp add: pneed_def read_byte_standing)
qed (auto simp: pneed_def read_byte_standing split: list.splits option.splits)

lemma settled_view [intro]: "settled (pneed (read_view n))"
proof (rule settledI)
  fix pre xs x c
  assume "pneed (read_view n) (standing pre xs) = Some (Inr (x, c))"
  then have "n \<le> length xs" "x = take n xs"
    by (auto simp: pneed_def read_view_standing split: if_splits)
  then show "\<exists>us ws. xs = us @ ws \<and> (\<forall>pre' ys. pneed (read_view n) (standing pre' (xs @ ys)) =
      Some (Inr (x, standing (pre' @ us) (ws @ ys))))"
    by (intro exI [of _ "take n xs"] exI [of _ "drop n xs"]) (simp add: pneed_def read_view_standing)
qed (auto simp: pneed_def read_view_standing split: if_splits)

lemma settled_perror [intro]: "settled p \<Longrightarrow> settled (perror e p)"
proof (rule settledI)
  fix pre xs x c
  assume p: "settled p" and "perror e p (standing pre xs) = Some (Inr (x, c))"
  then have "p (standing pre xs) = Some (Inr (x, c))"
    by (auto simp: perror_def split: option.splits sum.splits)
  from settled_Inr [OF p this] obtain us ws where "xs = us @ ws"
      "\<And>pre' ys. p (standing pre' (xs @ ys)) = Some (Inr (x, standing (pre' @ us) (ws @ ys)))"
    by metis
  then show "\<exists>us ws. xs = us @ ws \<and> (\<forall>pre' ys. perror e p (standing pre' (xs @ ys)) =
      Some (Inr (x, standing (pre' @ us) (ws @ ys))))"
    by (intro exI [of _ us] exI [of _ ws]) (simp add: perror_def)
next
  fix pre xs f pre' ys
  assume p: "settled p" and "perror e p (standing pre xs) = Some (Inl f)"
  then obtain u where "p (standing pre xs) = Some (Inl u)" "f = e"
    by (auto simp: perror_def split: option.splits sum.splits)
  with settled_Inl [OF p this(1)] show "perror e p (standing pre' (xs @ ys)) = Some (Inl f)"
    by (simp add: perror_def)
next
  fix pre xs pre'
  assume p: "settled p" and "perror e p (standing pre xs) = None"
  then have "p (standing pre xs) = None" by (simp add: perror_def split: option.splits sum.splits)
  from settled_None [OF p this] show "perror e p (standing pre' xs) = None" by (simp add: perror_def)
qed

lemma settled_if [intro]: "settled p \<Longrightarrow> settled q \<Longrightarrow> settled (if b then p else q)"
  by simp

lemma settled_read_properties [intro]: "settled (read_properties b)"
  unfolding read_properties_def by blast

lemma settled_header: "settled parse_header_fields"
  unfolding parse_header_fields_def Let_def by (intro settled_bind settled_if) blast+

lemma settled_status_or_payload: "settled (status_or_payload s props)"
  unfolding status_or_payload_def by (intro settled_bind settled_if) blast+

lemma settled_next_object_id: "settled (next_object_id l d)"
  unfolding next_object_id_def by (cases l) auto

lemma settled_object: "settled (parse_object_fields b l s)"
  unfolding parse_object_fields_def
  by (intro settled_bind settled_if) (auto intro!: settled_bind settled_status_or_payload settled_next_object_id)

section \<open>Parsers consume\<close>

text \<open>A parser that starts with an integer consumes a byte whenever it gives a verdict.\<close>

lemma cursor_varint_shrinks: "cursor_varint c = Some (v, c') \<Longrightarrow> remaining c' < remaining c"
  using read_varint_Done_bounds [of "cur_bytes c" "cur_offset c"]
  by (auto simp: cursor_varint_def remaining_def Let_def split: if_splits)

lemma read_view_shrinks: "read_view n c = Some (v, c') \<Longrightarrow> remaining c' \<le> remaining c"
  by (auto simp: read_view_def remaining_def split: if_splits)

lemma pbind_Inr:
  "pbind m f c = Some (Inr (y, d)) \<longleftrightarrow> (\<exists>x c'. m c = Some (Inr (x, c')) \<and> f x c' = Some (Inr (y, d)))"
  by (auto simp: pbind_def split: option.splits sum.splits)

lemma pneed_Inr: "pneed f c = Some (Inr r) \<longleftrightarrow> f c = Some r"
  by (auto simp: pneed_def split: option.splits)

lemma prequire_Inr: "prequire b e c = Some (Inr (u, c')) \<longleftrightarrow> b \<and> c' = c"
  by (auto simp: prequire_def)

lemma perror_Inr: "perror e p c = Some (Inr r) \<longleftrightarrow> p c = Some (Inr r)"
  by (auto simp: perror_def split: option.splits sum.splits)

lemma preturn_Inr: "preturn x c = Some (Inr (y, c')) \<longleftrightarrow> y = x \<and> c' = c"
  by (auto simp: preturn_def)

lemmas parser_Inr = pbind_Inr pneed_Inr prequire_Inr perror_Inr preturn_Inr

lemma pbind_varint_Nil: "pbind (pneed cursor_varint) f (standing pre []) = None"
  by (simp add: pbind_def pneed_def cursor_varint_standing)

lemma parse_object_Nil: "parse_object_fields b l s (standing pre []) = None"
  by (simp add: parse_object_fields_def pbind_varint_Nil)

lemma parse_header_Nil: "parse_header_fields (standing pre []) = None"
  by (simp add: parse_header_fields_def pbind_varint_Nil)

end
