(* ===== verification/Data_Plane.thy ===== *)
theory Data_Plane
  imports Session Stream_Parser
begin

text \<open>
  The receive side, \<^verbatim>\<open>src/data_plane.cpp\<close>: the table of routes from Track Aliases
  to subscriptions, the buffers for what arrives before its SUBSCRIBE_OK, object datagrams, and
  the receiver of one subgroup stream. The callbacks of the class and the application's
  \<open>ObjectHandler\<close> are arguments, collected in the record \<open>plane_callbacks\<close>.
  \<^verbatim>\<open>size_t\<close> counters are natural numbers; the invariant of
  \<open>Data_Plane_Inv\<close> shows that none is decremented below zero.
\<close>

section \<open>State\<close>

datatype UnknownAliasPolicy = DropUnknown | BufferUnknown | ErrorUnknown

record SubscriberConfig =
  sub_unknown_alias_policy :: UnknownAliasPolicy
  sub_max_buffered_datagrams_per_alias :: nat
  sub_max_buffered_datagram_bytes :: nat
  sub_max_pending_subgroup_streams :: nat
  sub_max_buffered_subgroup_bytes_per_stream :: nat

text \<open>
  Routes are shared between the table and the receivers, so they live in a heap and are named by
  reference. The handler of a route is that of the request it belongs to.
\<close>

type_synonym route_ref = nat

record ReceiveRoute =
  rr_request_id :: RequestId
  rr_active :: bool
  rr_final_object_in_group :: "GroupId \<rightharpoonup> ObjectId"
  rr_final_object_in_track :: "Location option"

record SubgroupReceiver =
  sr_stash :: ByteBuffer
  sr_route :: "route_ref option"
  sr_header_done :: bool
  sr_closed :: bool
  sr_waiting_for_route :: bool
  sr_fin_while_pending :: bool
  sr_properties_per_object :: bool
  sr_end_of_group_on_fin :: bool
  sr_subgroup_id_mode :: byte
  sr_alias :: TrackAlias
  sr_group_id :: GroupId
  sr_subgroup_id :: "SubgroupId option"
  sr_publisher_priority :: byte
  sr_last_object_id :: "ObjectId option"

definition new_receiver :: "ByteBuffer \<Rightarrow> SubgroupReceiver" where
  "new_receiver prefix =
     \<lparr>sr_stash = prefix, sr_route = None, sr_header_done = False, sr_closed = False,
      sr_waiting_for_route = False, sr_fin_while_pending = False, sr_properties_per_object = False,
      sr_end_of_group_on_fin = False, sr_subgroup_id_mode = 0, sr_alias = 0, sr_group_id = 0,
      sr_subgroup_id = None, sr_publisher_priority = 128, sr_last_object_id = None\<rparr>"

record plane = session +
  dp_config :: SubscriberConfig
  dp_heap :: "route_ref \<rightharpoonup> ReceiveRoute"
  dp_next_route :: route_ref
  dp_routes_by_alias :: "TrackAlias \<rightharpoonup> route_ref"
  dp_pending_subgroups_by_alias :: "TrackAlias \<rightharpoonup> stream_ref list"
  dp_pending_subgroup_stream_count :: nat
  dp_unknown_datagrams :: "TrackAlias \<rightharpoonup> ByteBuffer list"
  dp_buffered_datagram_bytes :: nat
  dp_receivers :: "stream_ref \<rightharpoonup> SubgroupReceiver"

record 'w plane_callbacks =
  cb_protocol_error :: "string \<Rightarrow> 'w \<Rightarrow> 'w"
  cb_track_error :: "RequestId \<Rightarrow> string \<Rightarrow> 'w \<Rightarrow> 'w"
  cb_on_object :: "Object \<Rightarrow> 'w \<Rightarrow> 'w"

section \<open>Routes\<close>

text \<open>\<^verbatim>\<open>std::make_shared<ReceiveRoute>()\<close> with its request.\<close>

definition new_route :: "RequestId \<Rightarrow> 'a plane_scheme \<Rightarrow> route_ref \<times> 'a plane_scheme" where
  "new_route request_id w =
     (dp_next_route w,
      w\<lparr>dp_heap := (dp_heap w)(dp_next_route w \<mapsto>
            \<lparr>rr_request_id = request_id, rr_active = True, rr_final_object_in_group = Map.empty,
             rr_final_object_in_track = None\<rparr>),
        dp_next_route := dp_next_route w + 1\<rparr>)"

definition update_route :: "route_ref \<Rightarrow> (ReceiveRoute \<Rightarrow> ReceiveRoute) \<Rightarrow> 'a plane_scheme \<Rightarrow> 'a plane_scheme" where
  "update_route ref f w = w\<lparr>dp_heap := (dp_heap w)(ref := map_option f (dp_heap w ref))\<rparr>"

definition find_route :: "TrackAlias \<Rightarrow> 'a plane_scheme \<Rightarrow> route_ref option" where
  "find_route track_alias w = dp_routes_by_alias w track_alias"

definition retire_route :: "TrackAlias \<Rightarrow> 'a plane_scheme \<Rightarrow> 'a plane_scheme" where
  "retire_route track_alias w =
     (case dp_routes_by_alias w track_alias of
        None \<Rightarrow> w
      | Some ref \<Rightarrow>
          (update_route ref (\<lambda>r. r\<lparr>rr_active := False\<rparr>) w)
            \<lparr>dp_routes_by_alias := (dp_routes_by_alias w)(track_alias := None)\<rparr>)"

definition set_final_in_group :: "GroupId \<Rightarrow> ObjectId \<Rightarrow> ReceiveRoute \<Rightarrow> ReceiveRoute" where
  "set_final_in_group g ob r = r\<lparr>rr_final_object_in_group := (rr_final_object_in_group r)(g \<mapsto> ob)\<rparr>"

text \<open>The two guards of \<open>deliver\<close>: the object lies behind the final one of its group or of the track.\<close>

definition follows_final_in_group :: "ReceiveRoute \<Rightarrow> Object \<Rightarrow> bool" where
  "follows_final_in_group route object =
     (case rr_final_object_in_group route (obj_group_id object) of
        None \<Rightarrow> False | Some final \<Rightarrow> obj_object_id object > final)"

definition follows_final_in_track :: "ReceiveRoute \<Rightarrow> Object \<Rightarrow> bool" where
  "follows_final_in_track route object =
     (case rr_final_object_in_track route of
        None \<Rightarrow> False
      | Some final \<Rightarrow> obj_group_id object > loc_group final
          \<or> (obj_group_id object = loc_group final \<and> obj_object_id object > loc_object final))"

definition note_final :: "Object \<Rightarrow> ReceiveRoute \<Rightarrow> ReceiveRoute" where
  "note_final object route =
     (let route = (if obj_status object = Some kEndOfGroupStatus
                   then set_final_in_group (obj_group_id object) (obj_object_id object) route else route)
      in if obj_status object = Some kEndOfTrackStatus
         then route\<lparr>rr_final_object_in_track :=
                Some \<lparr>loc_group = obj_group_id object, loc_object = obj_object_id object\<rparr>\<rparr>
         else route)"

definition deliver :: "('a plane_scheme) plane_callbacks \<Rightarrow> route_ref \<Rightarrow> Object \<Rightarrow> 'a plane_scheme \<Rightarrow> 'a plane_scheme" where
  "deliver cb ref object w =
     (case dp_heap w ref of
        None \<Rightarrow> w
      | Some route \<Rightarrow>
          if \<not> rr_active route then w
          else if follows_final_in_group route object
          then cb_track_error cb (rr_request_id route) ''object followed final object in group'' w
          else if follows_final_in_track route object
          then cb_track_error cb (rr_request_id route) ''object followed final object in track'' w
          else cb_on_object cb object (update_route ref (note_final object) w))"

section \<open>Datagrams\<close>

definition buffer_unknown_datagram ::
  "('a plane_scheme) plane_callbacks \<Rightarrow> TrackAlias \<Rightarrow> ByteBuffer \<Rightarrow> 'a plane_scheme \<Rightarrow> 'a plane_scheme" where
  "buffer_unknown_datagram cb track_alias bytes w =
     (case sub_unknown_alias_policy (dp_config w) of
        DropUnknown \<Rightarrow> w
      | ErrorUnknown \<Rightarrow>
          cb_protocol_error cb (''datagram referenced unknown track alias '' @ to_string (unat track_alias)) w
      | BufferUnknown \<Rightarrow>
          if length bytes > sub_max_buffered_datagram_bytes (dp_config w)
             \<or> dp_buffered_datagram_bytes w + length bytes > sub_max_buffered_datagram_bytes (dp_config w)
          then w
          else
            let datagrams = (case dp_unknown_datagrams w track_alias of None \<Rightarrow> [] | Some ds \<Rightarrow> ds);
                w = w\<lparr>dp_unknown_datagrams := (dp_unknown_datagrams w)(track_alias \<mapsto> datagrams)\<rparr>
            in if length datagrams \<ge> sub_max_buffered_datagrams_per_alias (dp_config w) then w
               else w\<lparr>dp_buffered_datagram_bytes := dp_buffered_datagram_bytes w + length bytes,
                      dp_unknown_datagrams := (dp_unknown_datagrams w)(track_alias \<mapsto> datagrams @ [bytes])\<rparr>)"

definition datagram_object ::
  "RequestId \<Rightarrow> TrackAlias \<Rightarrow> GroupId \<Rightarrow> ObjectId \<Rightarrow> byte \<Rightarrow> ObjectStatusCode option \<Rightarrow> ByteBuffer \<Rightarrow> ByteBuffer \<Rightarrow> Object" where
  "datagram_object request_id track_alias grp object_id priority status properties payload =
     \<lparr>obj_request_id = request_id, obj_track_alias = track_alias, obj_group_id = grp, obj_subgroup_id = None,
      obj_object_id = object_id, obj_publisher_priority = priority, obj_status = status,
      obj_properties = properties, obj_payload = payload, obj_delivery_kind = Datagram, obj_stream_id = 0\<rparr>"

definition route_request :: "route_ref \<Rightarrow> 'a plane_scheme \<Rightarrow> RequestId" where
  "route_request ref w = (case dp_heap w ref of None \<Rightarrow> 0 | Some route \<Rightarrow> rr_request_id route)"

definition deliver_datagram ::
  "('a plane_scheme) plane_callbacks \<Rightarrow> ByteBuffer \<Rightarrow> bool \<Rightarrow> 'a plane_scheme \<Rightarrow> 'a plane_scheme" where
  "deliver_datagram cb bytes allow_buffer w =
     (case cursor_varint \<lparr>cur_bytes = bytes, cur_offset = 0\<rparr> of
        None \<Rightarrow> cb_protocol_error cb ''datagram has malformed type'' w
      | Some (type, cursor) \<Rightarrow>
          if type = kPaddingDatagramType
          then if all_zero (drop (cur_offset cursor) bytes) then w
               else cb_protocol_error cb ''padding datagram contains non-zero bytes'' w
          else if invalid_datagram_type type then cb_protocol_error cb ''invalid object datagram type'' w
          else case datagram_ids type cursor of
            Inl e \<Rightarrow> cb_protocol_error cb e w
          | Inr ((track_alias, grp, object_id), cursor) \<Rightarrow>
              (case find_route track_alias w of
                 None \<Rightarrow> if allow_buffer then buffer_unknown_datagram cb track_alias bytes w else w
               | Some ref \<Rightarrow>
                   (case datagram_body type cursor of
                      Inl e \<Rightarrow> cb_protocol_error cb e w
                    | Inr ((priority, properties, status, payload), _) \<Rightarrow>
                        let object = datagram_object (route_request ref w) track_alias grp object_id priority
                              status properties payload;
                            w = (if type AND 0x02 \<noteq> 0 then update_route ref (set_final_in_group grp object_id) w else w)
                        in deliver cb ref object w)))"

definition on_datagram :: "('a plane_scheme) plane_callbacks \<Rightarrow> ByteBuffer \<Rightarrow> 'a plane_scheme \<Rightarrow> 'a plane_scheme" where
  "on_datagram cb bytes w = deliver_datagram cb bytes True w"

section \<open>Parked subgroup streams\<close>

text \<open>The result is the returned flag, the route it stored, and the state.\<close>

definition find_or_park_subgroup ::
  "TrackAlias \<Rightarrow> stream_ref \<Rightarrow> 'a plane_scheme \<Rightarrow> bool \<times> route_ref option \<times> 'a plane_scheme" where
  "find_or_park_subgroup track_alias st w =
     (case dp_routes_by_alias w track_alias of
        Some ref \<Rightarrow> (True, Some ref, w)
      | None \<Rightarrow>
          if dp_pending_subgroup_stream_count w \<ge> sub_max_pending_subgroup_streams (dp_config w)
          then (False, None, w)
          else
            let pending = (case dp_pending_subgroups_by_alias w track_alias of None \<Rightarrow> [] | Some p \<Rightarrow> p)
            in (True, None,
                w\<lparr>dp_pending_subgroups_by_alias := (dp_pending_subgroups_by_alias w)(track_alias \<mapsto> pending @ [st]),
                  dp_pending_subgroup_stream_count := dp_pending_subgroup_stream_count w + 1\<rparr>))"

definition discard_pending_subgroup :: "TrackAlias \<Rightarrow> stream_ref \<Rightarrow> 'a plane_scheme \<Rightarrow> 'a plane_scheme" where
  "discard_pending_subgroup track_alias st w =
     (case dp_pending_subgroups_by_alias w track_alias of
        None \<Rightarrow> w
      | Some pending \<Rightarrow>
          let kept = filter (\<lambda>candidate. candidate \<noteq> st) pending
          in w\<lparr>dp_pending_subgroup_stream_count := dp_pending_subgroup_stream_count w - (length pending - length kept),
               dp_pending_subgroups_by_alias := (dp_pending_subgroups_by_alias w)
                  (track_alias := (if kept = [] then None else Some kept))\<rparr>)"

section \<open>The receiver of a subgroup stream\<close>

text \<open>
  The receiver's members are private and guarded by its own mutex, so no callback can touch
  them while one of its functions runs; the functions thread the receiver \<open>r\<close> beside the
  state \<open>w\<close>, and the entry points write it back.
\<close>

definition receiver_fail ::
  "('a plane_scheme) plane_callbacks \<Rightarrow> string \<Rightarrow> SubgroupReceiver \<Rightarrow> 'a plane_scheme \<Rightarrow> SubgroupReceiver \<times> 'a plane_scheme" where
  "receiver_fail cb error r w = (r\<lparr>sr_closed := True\<rparr>, cb_protocol_error cb error w)"

definition abandon :: "stream_ref \<Rightarrow> SubgroupReceiver \<Rightarrow> 'a plane_scheme \<Rightarrow> SubgroupReceiver \<times> 'a plane_scheme" where
  "abandon st r w =
     (let w = (if sr_waiting_for_route r then discard_pending_subgroup (sr_alias r) st w else w)
      in (r\<lparr>sr_closed := True, sr_waiting_for_route := False, sr_stash := []\<rparr>, abort_receive st 0 w))"

definition enforce_pending_buffer_limit ::
  "stream_ref \<Rightarrow> SubgroupReceiver \<Rightarrow> 'a plane_scheme \<Rightarrow> SubgroupReceiver \<times> 'a plane_scheme" where
  "enforce_pending_buffer_limit st r w =
     (if sr_waiting_for_route r
         \<and> length (sr_stash r) > sub_max_buffered_subgroup_bytes_per_stream (dp_config w)
      then abandon st r w else (r, w))"

definition take_header :: "SubgroupHeader \<Rightarrow> SubgroupReceiver \<Rightarrow> SubgroupReceiver" where
  "take_header h r =
     r\<lparr>sr_subgroup_id_mode := sh_subgroup_id_mode h, sr_group_id := sh_group_id h,
       sr_subgroup_id := (case sh_subgroup_id h of None \<Rightarrow> sr_subgroup_id r | Some s \<Rightarrow> Some s),
       sr_alias := sh_alias h, sr_properties_per_object := (sh_type h AND 0x01 \<noteq> 0),
       sr_end_of_group_on_fin := (sh_type h AND 0x08 \<noteq> 0), sr_publisher_priority := sh_publisher_priority h\<rparr>"

text \<open>The end of \<open>parse_header\<close>: without a route the stream waits for one.\<close>

definition header_parsed :: "route_ref option \<Rightarrow> SubgroupReceiver \<Rightarrow> SubgroupReceiver" where
  "header_parsed route r =
     (let r = r\<lparr>sr_route := route\<rparr>;
          r = (if route = None then r\<lparr>sr_waiting_for_route := True\<rparr> else r)
      in r\<lparr>sr_header_done := True\<rparr>)"

definition resolve_alias ::
  "('a plane_scheme) plane_callbacks \<Rightarrow> stream_ref \<Rightarrow> SubgroupReceiver \<Rightarrow> 'a plane_scheme
     \<Rightarrow> DecodeStatus \<times> SubgroupReceiver \<times> 'a plane_scheme" where
  "resolve_alias cb st r w =
     (case sub_unknown_alias_policy (dp_config w) of
        ErrorUnknown \<Rightarrow>
          (case find_route (sr_alias r) w of
             None \<Rightarrow> (Error, receiver_fail cb
               (''subgroup stream referenced unknown track alias '' @ to_string (unat (sr_alias r))) r w)
           | Some ref \<Rightarrow> (Done, header_parsed (Some ref) r, w))
      | DropUnknown \<Rightarrow>
          (case find_route (sr_alias r) w of
             None \<Rightarrow> (Done, abandon st r w)
           | Some ref \<Rightarrow> (Done, header_parsed (Some ref) r, w))
      | BufferUnknown \<Rightarrow>
          (case find_or_park_subgroup (sr_alias r) st w of (found, route, w) \<Rightarrow>
             if \<not> found then (Done, abandon st r w) else (Done, header_parsed route r, w)))"

definition parse_header ::
  "('a plane_scheme) plane_callbacks \<Rightarrow> stream_ref \<Rightarrow> Cursor \<Rightarrow> SubgroupReceiver \<Rightarrow> 'a plane_scheme
     \<Rightarrow> DecodeStatus \<times> Cursor \<times> SubgroupReceiver \<times> 'a plane_scheme" where
  "parse_header cb st cursor r w =
     (case parse_header_fields cursor of
        None \<Rightarrow> (NeedMoreData, cursor, r, w)
      | Some (Inl e) \<Rightarrow> (Error, cursor, receiver_fail cb e r w)
      | Some (Inr (h, cursor)) \<Rightarrow>
          (case resolve_alias cb st (take_header h r) w of (status, r, w) \<Rightarrow> (status, cursor, r, w)))"

definition subgroup_object :: "stream_ref \<Rightarrow> SubgroupObject \<Rightarrow> route_ref \<Rightarrow> SubgroupReceiver \<Rightarrow> 'a plane_scheme \<Rightarrow> Object" where
  "subgroup_object st ob ref r w =
     \<lparr>obj_request_id = route_request ref w, obj_track_alias = sr_alias r, obj_group_id = sr_group_id r,
      obj_subgroup_id = Some (case sr_subgroup_id r of None \<Rightarrow> 0 | Some s \<Rightarrow> s),
      obj_object_id = sgo_object_id ob, obj_publisher_priority = sr_publisher_priority r,
      obj_status = sgo_status ob, obj_properties = sgo_properties ob, obj_payload = sgo_payload ob,
      obj_delivery_kind = SubgroupStream, obj_stream_id = stream_id w st\<rparr>"

text \<open>The members \<open>parse_object\<close> assigns: the Subgroup ID in mode 1, and the last Object ID.\<close>

definition take_object :: "SubgroupObject \<Rightarrow> SubgroupReceiver \<Rightarrow> SubgroupReceiver" where
  "take_object ob r =
     (let r = (if sr_subgroup_id_mode r = 0x01 \<and> sr_subgroup_id r = None
               then r\<lparr>sr_subgroup_id := Some (sgo_object_id ob)\<rparr> else r)
      in r\<lparr>sr_last_object_id := Some (sgo_object_id ob)\<rparr>)"

definition parse_object ::
  "('a plane_scheme) plane_callbacks \<Rightarrow> stream_ref \<Rightarrow> Cursor \<Rightarrow> SubgroupReceiver \<Rightarrow> 'a plane_scheme
     \<Rightarrow> DecodeStatus \<times> Cursor \<times> SubgroupReceiver \<times> 'a plane_scheme" where
  "parse_object cb st cursor r w =
     (if remaining cursor = 0 then (NeedMoreData, cursor, r, w)
      else case parse_object_fields (sr_properties_per_object r) (sr_last_object_id r) (stream_id w st) cursor of
        None \<Rightarrow> (NeedMoreData, cursor, r, w)
      | Some (Inl e) \<Rightarrow> (Error, cursor, receiver_fail cb e r w)
      | Some (Inr (ob, cursor)) \<Rightarrow>
          let r = take_object ob r;
              w = (case sr_route r of None \<Rightarrow> w | Some ref \<Rightarrow> deliver cb ref (subgroup_object st ob ref r w) w)
          in (Done, cursor, r, w))"

lemma parse_object_fields_shrinks:
  "parse_object_fields b l s c = Some (Inr (ob, c')) \<Longrightarrow> remaining c' < remaining c"
  by (auto simp: parse_object_fields_def status_or_payload_def next_object_id_def read_properties_def
        parser_Inr dest!: cursor_varint_shrinks read_view_shrinks split: if_splits option.splits)

lemma parse_object_shrinks:
  "parse_object cb st c r w = (Done, c', r', w') \<Longrightarrow> remaining c' < remaining c"
  by (auto simp: parse_object_def Let_def receiver_fail_def dest: parse_object_fields_shrinks
        split: if_splits option.splits sum.splits)

text \<open>The loop of \<open>run\<close>, over the objects the buffer holds.\<close>

function run_objects ::
  "('a plane_scheme) plane_callbacks \<Rightarrow> stream_ref \<Rightarrow> bool \<Rightarrow> Cursor \<Rightarrow> SubgroupReceiver \<Rightarrow> 'a plane_scheme
     \<Rightarrow> Cursor \<times> SubgroupReceiver \<times> 'a plane_scheme" where
  "run_objects cb st fin cursor r w =
     (if sr_closed r then (cursor, r, w)
      else case parse_object cb st cursor r w of (status, cursor', r', w') \<Rightarrow>
        if status = Error then (cursor', r', w')
        else if status = NeedMoreData
        then if fin \<and> remaining cursor \<noteq> 0
             then (cursor, receiver_fail cb ''subgroup stream ended mid-object'' r' w')
             else (cursor, r', w')
        else run_objects cb st fin cursor' r' w')"
  by pat_completeness auto
termination
proof (relation "measure (\<lambda>(cb, st, fin, cursor, r, w). remaining cursor)", goal_cases)
  case (2 cb st fin cursor r w status x cursor' y r' w')
  then have "parse_object cb st cursor r w = (Done, cursor', r', w')" by (cases status) auto
  from parse_object_shrinks [OF this] show ?case by simp
qed simp

declare run_objects.simps [simp del]

definition finish_stream :: "bool \<Rightarrow> SubgroupReceiver \<Rightarrow> 'a plane_scheme \<Rightarrow> SubgroupReceiver \<times> 'a plane_scheme" where
  "finish_stream fin r w =
     (if fin \<and> \<not> sr_closed r
      then (r\<lparr>sr_closed := True\<rparr>,
            case (sr_route r, sr_end_of_group_on_fin r, sr_last_object_id r) of
              (Some ref, True, Some last_id) \<Rightarrow> update_route ref (set_final_in_group (sr_group_id r) last_id) w
            | _ \<Rightarrow> w)
      else (r, w))"

text \<open>\<open>run\<close> from the point where the header is done.\<close>

definition run_body ::
  "('a plane_scheme) plane_callbacks \<Rightarrow> stream_ref \<Rightarrow> bool \<Rightarrow> Cursor \<Rightarrow> SubgroupReceiver \<Rightarrow> 'a plane_scheme
     \<Rightarrow> Cursor \<times> SubgroupReceiver \<times> 'a plane_scheme" where
  "run_body cb st fin cursor r w =
     (if sr_waiting_for_route r
      then (cursor, r\<lparr>sr_fin_while_pending := sr_fin_while_pending r \<or> fin\<rparr>, w)
      else case run_objects cb st fin cursor r w of (cursor, r, w) \<Rightarrow> (cursor, finish_stream fin r w))"

definition run ::
  "('a plane_scheme) plane_callbacks \<Rightarrow> stream_ref \<Rightarrow> bool \<Rightarrow> Cursor \<Rightarrow> SubgroupReceiver \<Rightarrow> 'a plane_scheme
     \<Rightarrow> Cursor \<times> SubgroupReceiver \<times> 'a plane_scheme" where
  "run cb st fin cursor r w =
     (if sr_header_done r then run_body cb st fin cursor r w
      else case parse_header cb st cursor r w of (status, cursor', r', w') \<Rightarrow>
        if status = Error \<or> sr_closed r' then (cursor', r', w')
        else if status = NeedMoreData
        then if fin then (cursor, receiver_fail cb ''SUBGROUP_HEADER ended mid-header'' r' w') else (cursor, r', w')
        else run_body cb st fin cursor' r' w')"

definition put_receiver :: "stream_ref \<Rightarrow> SubgroupReceiver \<times> 'a plane_scheme \<Rightarrow> 'a plane_scheme" where
  "put_receiver st rw = (case rw of (r, w) \<Rightarrow> w\<lparr>dp_receivers := (dp_receivers w)(st \<mapsto> r)\<rparr>)"

text \<open>The two paths of \<open>on_receive\<close>: a single chunk is parsed in place, otherwise everything is copied behind the stash.\<close>

definition receive_in_place ::
  "('a plane_scheme) plane_callbacks \<Rightarrow> stream_ref \<Rightarrow> ByteBuffer \<Rightarrow> bool \<Rightarrow> SubgroupReceiver \<Rightarrow> 'a plane_scheme
     \<Rightarrow> SubgroupReceiver \<times> 'a plane_scheme" where
  "receive_in_place cb st chunk fin r w =
     (case run cb st fin \<lparr>cur_bytes = chunk, cur_offset = 0\<rparr> r w of (cursor, r, w) \<Rightarrow>
        let r = (if \<not> sr_closed r \<and> remaining cursor \<noteq> 0
                 then r\<lparr>sr_stash := drop (cur_offset cursor) (cur_bytes cursor)\<rparr> else r)
        in enforce_pending_buffer_limit st r w)"

definition receive_stashed ::
  "('a plane_scheme) plane_callbacks \<Rightarrow> stream_ref \<Rightarrow> ByteBuffer list \<Rightarrow> bool \<Rightarrow> SubgroupReceiver \<Rightarrow> 'a plane_scheme
     \<Rightarrow> SubgroupReceiver \<times> 'a plane_scheme" where
  "receive_stashed cb st chunks fin r w =
     (let r = r\<lparr>sr_stash := sr_stash r @ concat chunks\<rparr>
      in case run cb st fin \<lparr>cur_bytes = sr_stash r, cur_offset = 0\<rparr> r w of (cursor, r, w) \<Rightarrow>
           if \<not> sr_closed r
           then enforce_pending_buffer_limit st (r\<lparr>sr_stash := drop (cur_offset cursor) (sr_stash r)\<rparr>) w
           else (r\<lparr>sr_stash := []\<rparr>, w))"

definition on_receive ::
  "('a plane_scheme) plane_callbacks \<Rightarrow> stream_ref \<Rightarrow> ByteBuffer list \<Rightarrow> bool \<Rightarrow> 'a plane_scheme \<Rightarrow> 'a plane_scheme" where
  "on_receive cb st chunks fin w =
     (case dp_receivers w st of
        None \<Rightarrow> w
      | Some r \<Rightarrow>
          if sr_closed r then w
          else put_receiver st
            (case (sr_stash r, chunks) of
               ([], [chunk]) \<Rightarrow> receive_in_place cb st chunk fin r w
             | _ \<Rightarrow> receive_stashed cb st chunks fin r w))"

definition on_peer_send_aborted :: "stream_ref \<Rightarrow> 'a plane_scheme \<Rightarrow> 'a plane_scheme" where
  "on_peer_send_aborted st w =
     (case dp_receivers w st of
        None \<Rightarrow> w
      | Some r \<Rightarrow>
          put_receiver st
            (r\<lparr>sr_closed := True, sr_waiting_for_route := False, sr_stash := []\<rparr>,
             if sr_waiting_for_route r then discard_pending_subgroup (sr_alias r) st w else w))"

definition establish ::
  "('a plane_scheme) plane_callbacks \<Rightarrow> route_ref \<Rightarrow> stream_ref \<Rightarrow> 'a plane_scheme \<Rightarrow> 'a plane_scheme" where
  "establish cb route st w =
     (case dp_receivers w st of
        None \<Rightarrow> w
      | Some r \<Rightarrow>
          if sr_closed r \<or> \<not> sr_waiting_for_route r then w
          else
            let r = r\<lparr>sr_route := Some route, sr_waiting_for_route := False\<rparr>
            in case run cb st (sr_fin_while_pending r) \<lparr>cur_bytes = sr_stash r, cur_offset = 0\<rparr> r w of (cursor, r, w) \<Rightarrow>
                 put_receiver st
                   (if sr_closed r then r\<lparr>sr_stash := []\<rparr>
                    else r\<lparr>sr_stash := drop (cur_offset cursor) (sr_stash r)\<rparr>, w))"

section \<open>Installing a route\<close>

fun replay_datagrams :: "('a plane_scheme) plane_callbacks \<Rightarrow> ByteBuffer list \<Rightarrow> 'a plane_scheme \<Rightarrow> 'a plane_scheme" where
  "replay_datagrams cb [] w = w"
| "replay_datagrams cb (datagram # datagrams) w =
     replay_datagrams cb datagrams
       (deliver_datagram cb datagram False
          (w\<lparr>dp_buffered_datagram_bytes := dp_buffered_datagram_bytes w - length datagram\<rparr>))"

fun establish_all :: "('a plane_scheme) plane_callbacks \<Rightarrow> route_ref \<Rightarrow> stream_ref list \<Rightarrow> 'a plane_scheme \<Rightarrow> 'a plane_scheme" where
  "establish_all cb route [] w = w"
| "establish_all cb route (st # sts) w = establish_all cb route sts (establish cb route st w)"

definition take_pending :: "TrackAlias \<Rightarrow> 'a plane_scheme \<Rightarrow> stream_ref list \<times> 'a plane_scheme" where
  "take_pending track_alias w =
     (case dp_pending_subgroups_by_alias w track_alias of
        None \<Rightarrow> ([], w)
      | Some pending \<Rightarrow>
          (pending,
           w\<lparr>dp_pending_subgroup_stream_count := dp_pending_subgroup_stream_count w - length pending,
             dp_pending_subgroups_by_alias := (dp_pending_subgroups_by_alias w)(track_alias := None)\<rparr>))"

definition install_route ::
  "('a plane_scheme) plane_callbacks \<Rightarrow> TrackAlias \<Rightarrow> route_ref \<Rightarrow> 'a plane_scheme \<Rightarrow> bool \<times> 'a plane_scheme" where
  "install_route cb track_alias route w =
     (if dp_routes_by_alias w track_alias \<noteq> None then (False, w)
      else
        let w = w\<lparr>dp_routes_by_alias := (dp_routes_by_alias w)(track_alias \<mapsto> route)\<rparr>
        in case take_pending track_alias w of (pending_subgroups, w) \<Rightarrow>
          let w = (case dp_unknown_datagrams w track_alias of
                     None \<Rightarrow> w
                   | Some datagrams \<Rightarrow>
                       replay_datagrams cb datagrams
                         (w\<lparr>dp_unknown_datagrams := (dp_unknown_datagrams w)(track_alias := None)\<rparr>))
          in (True, establish_all cb route pending_subgroups w))"

definition start_subgroup_stream ::
  "('a plane_scheme) plane_callbacks \<Rightarrow> stream_ref \<Rightarrow> ByteBuffer \<Rightarrow> bool \<Rightarrow> 'a plane_scheme \<Rightarrow> 'a plane_scheme" where
  "start_subgroup_stream cb st prefix fin w =
     on_receive cb st [] fin
       (set_sink st (Some SubgroupReceiverSink)
         (put_receiver st (new_receiver prefix, w)))"

end
