(* ===== verification/Subscriber.thy ===== *)
theory Subscriber
  imports Data_Plane Adapter Control_Frames
begin

text \<open>
  \<^verbatim>\<open>src/subscriber_session.cpp\<close>: the subscriber role on top of the session and the
  receive data plane. A \<open>SubscriptionRequest\<close> is named by its Request ID; it outlives
  its entry in \<open>subscriptions_\<close> because its stream keeps it as a sink.
\<close>

section \<open>State\<close>

datatype SubscriptionPhase = Sub_Pending | Sub_Established | Sub_UpdateFailed | Sub_Terminated

record SubscriptionRequest =
  rq_phase :: SubscriptionPhase
  rq_track_alias :: "TrackAlias option"
  rq_stream :: stream_ref
  rq_response_buffer :: ByteBuffer
  rq_updates :: "promise list"
  rq_result :: "promise option"

text \<open>
  What the application does from inside \<open>ObjectHandler::on_object\<close>, besides looking at
  the object: calls of the subscriber's public interface. \<open>sb_app\<close> is the application.
  Its other two handlers are taken not to call back.
\<close>

datatype app_call =
    CallStop RequestId
  | CallClose u64
  | CallSubscribe SubscribeRequest
  | CallUpdate RequestId "Parameter list"

record subscriber = plane +
  sb_requests :: "RequestId \<rightharpoonup> SubscriptionRequest"
  sb_subscriptions :: "RequestId list"
  sb_app :: "Object \<Rightarrow> app_call list"

definition put_request :: "RequestId \<Rightarrow> SubscriptionRequest \<Rightarrow> 'a subscriber_scheme \<Rightarrow> 'a subscriber_scheme" where
  "put_request request_id rq w = w\<lparr>sb_requests := (sb_requests w)(request_id \<mapsto> rq)\<rparr>"

definition request_phase :: "RequestId \<Rightarrow> 'a subscriber_scheme \<Rightarrow> SubscriptionPhase" where
  "request_phase request_id w =
     (case sb_requests w request_id of None \<Rightarrow> Sub_Terminated | Some rq \<Rightarrow> rq_phase rq)"

section \<open>Ending a subscription\<close>

abbreviation (input) StreamReset_Cancelled :: u64 where "StreamReset_Cancelled \<equiv> 0x1"
abbreviation (input) StreamReset_MALFORMED_TRACK :: u64 where "StreamReset_MALFORMED_TRACK \<equiv> 0x12"

definition fail_updates :: "promise_error \<Rightarrow> SubscriptionRequest \<Rightarrow> 'a subscriber_scheme \<Rightarrow> 'a subscriber_scheme" where
  "fail_updates error rq w = fail_all (rq_updates rq) error w"

definition rejected_exception :: "RequestErrorCode \<Rightarrow> u64 \<Rightarrow> string \<Rightarrow> promise_error" where
  "rejected_exception code retry_interval reason =
     PRejected \<lparr>re_code = code, re_retry_interval = retry_interval, re_reason = reason\<rparr>"

definition terminate :: "RequestId \<Rightarrow> string \<Rightarrow> 'a subscriber_scheme \<Rightarrow> 'a subscriber_scheme" where
  "terminate request_id reason w =
     (case sb_requests w request_id of
        None \<Rightarrow> w
      | Some rq \<Rightarrow>
          if rq_phase rq = Sub_Terminated then w
          else
            let w = (case rq_result rq of
                       None \<Rightarrow> w
                     | Some p \<Rightarrow> Session.fail p (rejected_exception RequestError_InternalError 0
                                   (if reason = [] then ''subscription terminated'' else reason)) w);
                w = fail_updates (PError (if reason = [] then ''subscription terminated before REQUEST_UPDATE completed''
                                          else reason)) rq w;
                w = put_request request_id (rq\<lparr>rq_result := None, rq_updates := [], rq_phase := Sub_Terminated\<rparr>) w;
                w = (case rq_track_alias rq of None \<Rightarrow> w | Some track_alias \<Rightarrow> retire_route track_alias w);
                w = w\<lparr>sb_subscriptions := removeAll request_id (sb_subscriptions w)\<rparr>
            in if reason \<noteq> [] then emit (OnError request_id reason) w else w)"

fun terminate_all :: "RequestId list \<Rightarrow> string \<Rightarrow> 'a subscriber_scheme \<Rightarrow> 'a subscriber_scheme" where
  "terminate_all [] reason w = w"
| "terminate_all (request_id # request_ids) reason w = terminate_all request_ids reason (terminate request_id reason w)"

text \<open>The copy of the table is walked; the order of an \<^verbatim>\<open>unordered_map\<close> is taken to be that of insertion.\<close>

definition terminate_subscriptions :: "string \<Rightarrow> 'a subscriber_scheme \<Rightarrow> 'a subscriber_scheme" where
  "terminate_subscriptions reason w = terminate_all (sb_subscriptions w) reason w"

definition stop_subscription_now :: "RequestId \<Rightarrow> string \<Rightarrow> u64 \<Rightarrow> 'a subscriber_scheme \<Rightarrow> 'a subscriber_scheme" where
  "stop_subscription_now request_id reason stream_error_code w =
     (if request_id \<notin> set (sb_subscriptions w) then w
      else case sb_requests w request_id of
        None \<Rightarrow> w
      | Some rq \<Rightarrow>
          abort_receive (rq_stream rq) stream_error_code
            (abort_send (rq_stream rq) stream_error_code (terminate request_id reason w)))"

definition stop_subscription :: "RequestId \<Rightarrow> 'a subscriber_scheme \<Rightarrow> 'a subscriber_scheme" where
  "stop_subscription request_id w = stop_subscription_now request_id [] StreamReset_Cancelled w"

section \<open>Starting and updating a subscription\<close>

definition new_request :: "stream_ref \<Rightarrow> promise \<Rightarrow> SubscriptionRequest" where
  "new_request st result =
     \<lparr>rq_phase = Sub_Pending, rq_track_alias = None, rq_stream = st, rq_response_buffer = [], rq_updates = [],
      rq_result = Some result\<rparr>"

text \<open>The body of the \<^verbatim>\<open>try\<close> block: the exception it ends with, if any, and the state.\<close>

definition send_subscribe :: "promise \<Rightarrow> SubscribeRequest \<Rightarrow> 'a subscriber_scheme \<Rightarrow> exn option \<times> 'a subscriber_scheme" where
  "send_subscribe p request w =
     (case allocate_request_id w of
        (Inl e, w) \<Rightarrow> (Some e, w)
      | (Inr request_id, w) \<Rightarrow>
          (case open_stream False w of
             (Inl e, w) \<Rightarrow> (Some e, w)
           | (Inr st, w) \<Rightarrow>
               let w = put_request request_id (new_request st p) w;
                   w = set_sink st (Some (SubscriberRequestSink request_id)) w;
                   w = w\<lparr>sb_subscriptions := sb_subscriptions w @ [request_id]\<rparr>
               in case encode_subscribe request_id request of
                    Inl e \<Rightarrow> (Some e, w)
                  | Inr bytes \<Rightarrow>
                      (case send st bytes False w of
                         (False, w) \<Rightarrow>
                           (Some (runtime_error ''StreamSend failed for SUBSCRIBE''),
                            stop_subscription_now request_id ''StreamSend failed for SUBSCRIBE'' 0 w)
                       | (True, w) \<Rightarrow> (None, w))))"

definition subscribe :: "SubscribeRequest \<Rightarrow> bool \<Rightarrow> 'a subscriber_scheme \<Rightarrow> promise \<times> 'a subscriber_scheme" where
  "subscribe request handler w =
     (case new_promise w of (p, w) \<Rightarrow>
        (p, if \<not> handler then Session.fail p (PError ''SUBSCRIBE requires an ObjectHandler'') w
            else if se_phase w \<noteq> Ready then Session.fail p (PError ''MOQT session is not ready for SUBSCRIBE'') w
            else case send_subscribe p request w of
                (Some e, w) \<Rightarrow> Session.fail p (PError (exn_what e)) w
              | (None, w) \<Rightarrow> w))"

text \<open>\<open>SubscriptionRequest::send_request_update\<close>.\<close>

definition send_request_update ::
  "RequestId \<Rightarrow> RequestId \<Rightarrow> Parameter list \<Rightarrow> promise \<Rightarrow> 'a subscriber_scheme \<Rightarrow> exn option \<times> 'a subscriber_scheme" where
  "send_request_update request_id allocated_request_id update p w =
     (case sb_requests w request_id of
        None \<Rightarrow> (None, w)
      | Some rq \<Rightarrow>
          (case encode_request_update allocated_request_id update of
             Inl e \<Rightarrow> (Some e, w)
           | Inr bytes \<Rightarrow>
               (case send (rq_stream rq) bytes False w of
                  (False, w) \<Rightarrow> (Some (runtime_error ''StreamSend failed for REQUEST_UPDATE''), w)
                | (True, w) \<Rightarrow> (None, put_request request_id (rq\<lparr>rq_updates := rq_updates rq @ [p]\<rparr>) w))))"

definition request_update :: "RequestId \<Rightarrow> Parameter list \<Rightarrow> 'a subscriber_scheme \<Rightarrow> promise \<times> 'a subscriber_scheme" where
  "request_update existing_request_id update w =
     (case new_promise w of (p, w) \<Rightarrow>
        (p, if existing_request_id \<notin> set (sb_subscriptions w) \<or> request_phase existing_request_id w \<noteq> Sub_Established
            then Session.fail p (PError ''REQUEST_UPDATE requires an established subscription'') w
            else case allocate_request_id w of
                (Inl e, w) \<Rightarrow> Session.fail p (PError (exn_what e)) w
              | (Inr request_id, w) \<Rightarrow>
                  (case send_request_update existing_request_id request_id update p w of
                     (Some e, w) \<Rightarrow> Session.fail p (PError (exn_what e)) w
                   | (None, w) \<Rightarrow> w)))"

section \<open>Callbacks of the data plane\<close>

fun app_step :: "app_call \<Rightarrow> 'a subscriber_scheme \<Rightarrow> 'a subscriber_scheme" where
  "app_step (CallStop request_id) w = stop_subscription request_id w"
| "app_step (CallClose error) w = close terminate_subscriptions error w"
| "app_step (CallSubscribe request) w = snd (subscribe request True w)"
| "app_step (CallUpdate request_id update) w = snd (request_update request_id update w)"

fun app_steps :: "app_call list \<Rightarrow> 'a subscriber_scheme \<Rightarrow> 'a subscriber_scheme" where
  "app_steps [] w = w"
| "app_steps (c # cs) w = app_steps cs (app_step c w)"

definition on_object :: "Object \<Rightarrow> 'a subscriber_scheme \<Rightarrow> 'a subscriber_scheme" where
  "on_object object w = app_steps (sb_app w object) (emit (OnObject object) w)"

text \<open>The lambdas the constructor hands to the data plane, and the handler of the routes.\<close>

definition callbacks :: "('a subscriber_scheme) plane_callbacks" where
  "callbacks =
     \<lparr>cb_protocol_error = protocol_violation terminate_subscriptions,
      cb_track_error = (\<lambda>request_id error. stop_subscription_now request_id error StreamReset_MALFORMED_TRACK),
      cb_on_object = on_object\<rparr>"

section \<open>Responses on the request stream\<close>

definition handle_subscribe_ok :: "RequestId \<Rightarrow> ControlMessage \<Rightarrow> 'a subscriber_scheme \<Rightarrow> 'a subscriber_scheme" where
  "handle_subscribe_ok request_id message w =
     (if request_phase request_id w \<noteq> Sub_Pending then terminate request_id ''duplicate SUBSCRIBE_OK'' w
      else case decode_subscribe_ok (cm_payload message) of
        Inl error \<Rightarrow> terminate request_id error w
      | Inr ok \<Rightarrow>
          (case new_route request_id w of (route, w) \<Rightarrow>
           case install_route callbacks (ok_track_alias ok) route w of
             (False, w) \<Rightarrow> begin_close terminate_subscriptions Close_DuplicateTrackAlias
                              ''SUBSCRIBE_OK reused an established Track Alias'' w
           | (True, w) \<Rightarrow>
               if request_phase request_id w = Sub_Terminated then retire_route (ok_track_alias ok) w
               else case sb_requests w request_id of
                 None \<Rightarrow> w
               | Some rq \<Rightarrow>
                   let w = put_request request_id
                         (rq\<lparr>rq_track_alias := Some (ok_track_alias ok), rq_phase := Sub_Established, rq_result := None\<rparr>) w
                   in case rq_result rq of
                        None \<Rightarrow> emit StdTerminate w
                      | Some p \<Rightarrow> set_value p (SubscriptionValue request_id (ok_track_alias ok)) w))"

definition handle_request_error :: "RequestId \<Rightarrow> ControlMessage \<Rightarrow> 'a subscriber_scheme \<Rightarrow> 'a subscriber_scheme" where
  "handle_request_error request_id message w =
     (case decode_request_error (cm_payload message) of
        Inl error \<Rightarrow> terminate request_id error w
      | Inr rejected \<Rightarrow>
          (case sb_requests w request_id of
             None \<Rightarrow> w
           | Some rq \<Rightarrow>
               let exception = PRejected rejected in
               if rq_phase rq = Sub_Pending
               then (case rq_result rq of
                       None \<Rightarrow> emit StdTerminate w
                     | Some p \<Rightarrow> terminate request_id []
                         (put_request request_id (rq\<lparr>rq_result := None\<rparr>) (Session.fail p exception w)))
               else if rq_updates rq = []
               then terminate request_id ''REQUEST_ERROR arrived without an in-flight request'' w
               else put_request request_id (rq\<lparr>rq_updates := [], rq_phase := Sub_UpdateFailed\<rparr>)
                      (fail_updates exception rq w)))"

definition handle_request_ok :: "RequestId \<Rightarrow> ControlMessage \<Rightarrow> 'a subscriber_scheme \<Rightarrow> 'a subscriber_scheme" where
  "handle_request_ok request_id message w =
     (case sb_requests w request_id of
        None \<Rightarrow> w
      | Some rq \<Rightarrow>
          (case rq_updates rq of
             [] \<Rightarrow> terminate request_id ''REQUEST_OK arrived without an in-flight REQUEST_UPDATE'' w
           | p # ps \<Rightarrow>
               (case decode_request_ok (cm_payload message) of
                  Inl error \<Rightarrow> terminate request_id error w
                | Inr ok \<Rightarrow>
                    if rok_properties ok \<noteq> []
                    then terminate request_id ''REQUEST_UPDATE_OK included Track Properties'' w
                    else put_request request_id (rq\<lparr>rq_updates := ps\<rparr>) (set_value p (UpdateValue ok) w))))"

definition handle_publish_done :: "RequestId \<Rightarrow> ControlMessage \<Rightarrow> 'a subscriber_scheme \<Rightarrow> 'a subscriber_scheme" where
  "handle_publish_done request_id message w =
     (case decode_publish_done (cm_payload message) of
        Inl error \<Rightarrow> terminate request_id error w
      | Inr done_msg \<Rightarrow> terminate request_id [] (emit (OnPublishDone request_id done_msg) w))"

definition handle_control_message :: "RequestId \<Rightarrow> ControlMessage \<Rightarrow> 'a subscriber_scheme \<Rightarrow> 'a subscriber_scheme" where
  "handle_control_message request_id message w =
     (if request_phase request_id w = Sub_Pending \<and> cm_type message \<noteq> kMessageSubscribeOk
         \<and> cm_type message \<noteq> kMessageRequestError
      then terminate request_id ''invalid first response on SUBSCRIBE stream'' w
      else if cm_type message = kMessageSubscribeOk then handle_subscribe_ok request_id message w
      else if cm_type message = kMessageRequestError then handle_request_error request_id message w
      else if cm_type message = kMessageRequestOk then handle_request_ok request_id message w
      else if cm_type message = kMessagePublishDone then handle_publish_done request_id message w
      else if cm_type message = kMessageGoAway then w
      else emit (OnError request_id
             (''invalid response on SUBSCRIBE stream: '' @ to_string (unat (cm_type message)))) w)"

definition request_on_receive :: "RequestId \<Rightarrow> ByteBuffer list \<Rightarrow> bool \<Rightarrow> 'a subscriber_scheme \<Rightarrow> 'a subscriber_scheme" where
  "request_on_receive request_id chunks fin w =
     (case sb_requests w request_id of
        None \<Rightarrow> w
      | Some rq \<Rightarrow>
          (case control_loop (\<lambda>w. request_phase request_id w = Sub_Terminated) (handle_control_message request_id) w
                  (rq_response_buffer rq @ concat chunks) of
             (w, buffer) \<Rightarrow>
               let w = w\<lparr>sb_requests := (sb_requests w)(request_id :=
                          map_option (\<lambda>rq. rq\<lparr>rq_response_buffer := buffer\<rparr>) (sb_requests w request_id))\<rparr>
               in if request_phase request_id w \<noteq> Sub_Terminated \<and> fin \<and> buffer \<noteq> []
                  then terminate request_id ''request stream ended mid-message'' w else w))"

section \<open>The role\<close>

definition handle_data_stream :: "u64 \<Rightarrow> stream_ref \<Rightarrow> ByteBuffer \<Rightarrow> bool \<Rightarrow> 'a subscriber_scheme \<Rightarrow> 'a subscriber_scheme" where
  "handle_data_stream type st prefix fin w =
     (if type = kFetchStreamType then abort_receive st 0 w else start_subgroup_stream callbacks st prefix fin w)"

definition handle_peer_request :: "ControlMessage \<Rightarrow> stream_ref \<Rightarrow> ByteBuffer \<Rightarrow> bool \<Rightarrow> 'a subscriber_scheme \<Rightarrow> 'a subscriber_scheme" where
  "handle_peer_request message st leftover fin w =
     (if \<not> known_peer_request_type (cm_type message)
      then protocol_violation terminate_subscriptions
             (''unknown peer request type '' @ to_string (unat (cm_type message))) w
      else
        let publish = (cm_type message = kMessagePublish) in
        case encode_request_error (if publish then RequestError_Uninterested else RequestError_NotSupported)
               (if publish then ''subscriber is not accepting PUBLISH'' else ''subscriber-only implementation'') 0 of
          Inl _ \<Rightarrow> emit StdTerminate w
        | Inr bytes \<Rightarrow> abort_receive st 0 (snd (send st bytes True w)))"

definition sub_role :: "('a subscriber_scheme) role" where
  "sub_role =
     \<lparr>role_terminate = terminate_subscriptions, role_on_ready = (\<lambda>w. w),
      role_data_stream = handle_data_stream, role_peer_request = handle_peer_request\<rparr>"

fun sink_receive :: "sink \<Rightarrow> stream_ref \<Rightarrow> ByteBuffer list \<Rightarrow> bool \<Rightarrow> 'a subscriber_scheme \<Rightarrow> 'a subscriber_scheme" where
  "sink_receive PeerStreamGateSink st chunks fin w = gate_on_receive sub_role st chunks fin w"
| "sink_receive SubgroupReceiverSink st chunks fin w = on_receive callbacks st chunks fin w"
| "sink_receive (SubscriberRequestSink request_id) st chunks fin w = request_on_receive request_id chunks fin w"
| "sink_receive _ st chunks fin w = w"

fun sink_send_aborted :: "sink \<Rightarrow> stream_ref \<Rightarrow> u64 \<Rightarrow> 'a subscriber_scheme \<Rightarrow> 'a subscriber_scheme" where
  "sink_send_aborted SubgroupReceiverSink st code w = on_peer_send_aborted st w"
| "sink_send_aborted (SubscriberRequestSink request_id) st code w =
     terminate request_id (''publisher reset request stream with error '' @ to_string (unat code)) w"
| "sink_send_aborted _ st code w = w"

fun sink_closed :: "sink \<Rightarrow> stream_ref \<Rightarrow> 'a subscriber_scheme \<Rightarrow> 'a subscriber_scheme" where
  "sink_closed (SubscriberRequestSink request_id) st w =
     terminate request_id ''request stream shut down before subscription ended'' w"
| "sink_closed _ st w = w"

definition sub_sinks :: "('a subscriber_scheme) sink_handlers" where
  "sub_sinks =
     \<lparr>on_sink_receive = sink_receive, on_sink_send_aborted = sink_send_aborted,
      on_sink_receive_aborted = (\<lambda>sink st code w. w), on_sink_closed = sink_closed\<rparr>"

definition sub_callbacks :: "('a subscriber_scheme) session_callbacks" where
  "sub_callbacks =
     \<lparr>sc_connected = connected terminate_subscriptions (\<lambda>w. w),
      sc_datagram_received = on_datagram callbacks,
      sc_transport_error = transport_error terminate_subscriptions\<rparr>"

text \<open>Everything that can happen to a subscriber: events of MsQuic and calls of the application.\<close>

datatype subscriber_event =
    SubConnection connection_event
  | SubStream stream_ref stream_event
  | SubReady
  | SubSubscribe SubscribeRequest bool
  | SubUpdate RequestId "Parameter list"
  | SubStop RequestId
  | SubClose u64
  | SubCloseAndWait

fun subscriber_step :: "subscriber_event \<Rightarrow> 'a subscriber_scheme \<Rightarrow> 'a subscriber_scheme" where
  "subscriber_step (SubConnection event) w = connection_callback sub_callbacks event w"
| "subscriber_step (SubStream st event) w =
     stream_callback sub_sinks (transport_error terminate_subscriptions) st event w"
| "subscriber_step SubReady w = snd (ready w)"
| "subscriber_step (SubSubscribe request handler) w = snd (subscribe request handler w)"
| "subscriber_step (SubUpdate request_id update) w = snd (request_update request_id update w)"
| "subscriber_step (SubStop request_id) w = stop_subscription request_id w"
| "subscriber_step (SubClose error) w = close terminate_subscriptions error w"
| "subscriber_step SubCloseAndWait w = close_and_wait terminate_subscriptions w"

definition initial_subscriber ::
  "(nat \<Rightarrow> bool) \<Rightarrow> (nat \<Rightarrow> string) \<Rightarrow> MsQuicClientConfig \<Rightarrow> SubscriberConfig \<Rightarrow> (Object \<Rightarrow> app_call list) \<Rightarrow> subscriber" where
  "initial_subscriber answer status config sub_config app =
     \<lparr>tp_answer = answer, tp_status = status, tp_calls = 0, tp_streams = Map.empty, tp_next_stream = 0,
      tp_registered = [], tp_alive = True, tp_shutdown_requested = False, tp_log = [],
      se_config = config, se_phase = Init, se_local_setup_sent = False, se_peer_setup_received = False,
      se_negotiated_version = None, se_close_reason = None, se_next_request_id = 0, se_promises = Map.empty,
      se_next_promise = 0, se_ready_waiters = [], se_gates = Map.empty,
      dp_config = sub_config, dp_heap = Map.empty, dp_next_route = 0, dp_routes_by_alias = Map.empty,
      dp_pending_subgroups_by_alias = Map.empty, dp_pending_subgroup_stream_count = 0,
      dp_unknown_datagrams = Map.empty, dp_buffered_datagram_bytes = 0, dp_receivers = Map.empty,
      sb_requests = Map.empty, sb_subscriptions = [], sb_app = app\<rparr>"

end
