(* ===== verification/Data_Plane_Inv.thy ===== *)
theory Data_Plane_Inv
  imports Data_Plane
begin

text \<open>
  What the data plane keeps true. \<open>plane_client\<close> is the contract its callbacks have to
  meet: they may retire routes, they touch neither the buffers nor the receivers. Under it every
  entry point keeps the bounds on buffered datagrams and parked streams, the counters equal to
  what they count, and every waiting stream listed under its alias.
\<close>

section \<open>The contract of the callbacks\<close>

definition route_ages :: "ReceiveRoute \<Rightarrow> ReceiveRoute \<Rightarrow> bool" where
  "route_ages r r' \<longleftrightarrow> rr_request_id r' = rr_request_id r \<and> (rr_active r' \<longrightarrow> rr_active r)"

definition plane_frame :: "'a plane_scheme \<Rightarrow> 'a plane_scheme \<Rightarrow> bool" where
  "plane_frame w w' \<longleftrightarrow>
     dp_config w' = dp_config w \<and> dp_next_route w' = dp_next_route w \<and>
     dp_pending_subgroups_by_alias w' = dp_pending_subgroups_by_alias w \<and>
     dp_pending_subgroup_stream_count w' = dp_pending_subgroup_stream_count w \<and>
     dp_unknown_datagrams w' = dp_unknown_datagrams w \<and>
     dp_buffered_datagram_bytes w' = dp_buffered_datagram_bytes w \<and>
     dp_receivers w' = dp_receivers w \<and>
     dp_routes_by_alias w' \<subseteq>\<^sub>m dp_routes_by_alias w \<and>
     (\<forall>ref. rel_option route_ages (dp_heap w ref) (dp_heap w' ref))"

lemma route_ages_refl [simp]: "route_ages r r"
  by (simp add: route_ages_def)

lemma route_ages_trans: "route_ages a b \<Longrightarrow> route_ages b c \<Longrightarrow> route_ages a c"
  by (simp add: route_ages_def)

lemma rel_option_ages_refl [simp]: "rel_option route_ages x x"
  by (cases x) simp_all

lemma rel_option_ages_trans:
  "rel_option route_ages a b \<Longrightarrow> rel_option route_ages b c \<Longrightarrow> rel_option route_ages a c"
  by (cases a; cases b; cases c) (auto intro: route_ages_trans)

lemma plane_frame_refl [simp, intro]: "plane_frame w w"
  by (simp add: plane_frame_def)

lemma plane_frame_trans [trans]: "plane_frame a b \<Longrightarrow> plane_frame b c \<Longrightarrow> plane_frame a c"
  unfolding plane_frame_def by (auto intro: map_le_trans rel_option_ages_trans)

lemma plane_frame_update_route:
  "(\<And>r. route_ages r (f r)) \<Longrightarrow> plane_frame w (update_route ref f w)"
  by (auto simp: plane_frame_def update_route_def option.rel_map option.rel_refl)

lemma plane_frame_retire_route [simp]: "plane_frame w (retire_route track_alias w)"
proof -
  have "(dp_routes_by_alias w)(track_alias := None) \<subseteq>\<^sub>m dp_routes_by_alias w"
    by (auto simp: map_le_def)
  then show ?thesis
    by (auto simp: plane_frame_def retire_route_def update_route_def option.rel_map route_ages_def
        option.rel_refl split: option.split)
qed

text \<open>The same for actions that park streams or take them off the lists.\<close>

definition plane_step :: "'a plane_scheme \<Rightarrow> 'a plane_scheme \<Rightarrow> bool" where
  "plane_step w w' \<longleftrightarrow> plane_frame w
     (w'\<lparr>dp_pending_subgroups_by_alias := dp_pending_subgroups_by_alias w,
        dp_pending_subgroup_stream_count := dp_pending_subgroup_stream_count w\<rparr>)"

lemma plane_step_frame [intro]: "plane_frame w w' \<Longrightarrow> plane_step w w'"
  by (simp add: plane_frame_def plane_step_def)

lemma plane_step_trans [trans]: "plane_step a b \<Longrightarrow> plane_step b c \<Longrightarrow> plane_step a c"
  unfolding plane_step_def plane_frame_def by (auto intro: map_le_trans rel_option_ages_trans)

lemma plane_step_same:
  "plane_step w w' \<Longrightarrow> dp_receivers w' = dp_receivers w" "plane_step w w' \<Longrightarrow> dp_config w' = dp_config w"
  by (simp_all add: plane_step_def plane_frame_def)

lemma plane_step_discard: "plane_step w (discard_pending_subgroup a st w)"
  by (auto simp: plane_step_def plane_frame_def discard_pending_subgroup_def Let_def split: option.split)

lemma plane_step_park: "find_or_park_subgroup a st w = (f, ref, w') \<Longrightarrow> plane_step w w'"
  by (auto simp: plane_step_def plane_frame_def find_or_park_subgroup_def Let_def split: option.splits if_splits)

text \<open>An action that ages the plane and neither reads nor writes the receivers.\<close>

definition quiet :: "('a plane_scheme \<Rightarrow> 'a plane_scheme) \<Rightarrow> bool" where
  "quiet f \<longleftrightarrow> (\<forall>w R. f (w\<lparr>dp_receivers := R\<rparr>) = (f w)\<lparr>dp_receivers := R\<rparr>) \<and> (\<forall>w. plane_frame w (f w))"

lemma quietI:
  "(\<And>w R. f (w\<lparr>dp_receivers := R\<rparr>) = (f w)\<lparr>dp_receivers := R\<rparr>) \<Longrightarrow> (\<And>w. plane_frame w (f w)) \<Longrightarrow> quiet f"
  by (simp add: quiet_def)

lemma quiet_frame: "quiet f \<Longrightarrow> plane_frame w (f w)"
  by (simp add: quiet_def)

lemma quiet_commute: "quiet f \<Longrightarrow> f (w\<lparr>dp_receivers := R\<rparr>) = (f w)\<lparr>dp_receivers := R\<rparr>"
  by (simp add: quiet_def)

lemma quiet_id [simp]: "quiet (\<lambda>w. w)"
  by (rule quietI) auto

lemma quiet_comp: "quiet f \<Longrightarrow> quiet g \<Longrightarrow> quiet (\<lambda>w. f (g w))"
  by (rule quietI) (auto simp: quiet_commute intro: plane_frame_trans quiet_frame)

lemma quiet_if: "(\<And>w R. b (w\<lparr>dp_receivers := R\<rparr>) = b w) \<Longrightarrow> quiet f \<Longrightarrow> quiet g \<Longrightarrow> quiet (\<lambda>w. if b w then f w else g w)"
  by (rule quietI) (auto simp: quiet_commute quiet_frame)

lemma quiet_update_route: "(\<And>r. route_ages r (f r)) \<Longrightarrow> quiet (update_route ref f)"
  by (rule quietI) (simp add: update_route_def, rule plane_frame_update_route)

lemma quiet_after_update:
  "(\<And>r. route_ages r (f r)) \<Longrightarrow> quiet g \<Longrightarrow> plane_frame w (g (update_route ref f w))"
  by (rule plane_frame_trans [OF plane_frame_update_route quiet_frame])

lemma quiet_retire_route: "quiet (retire_route track_alias)"
  by (rule quietI [OF _ plane_frame_retire_route])
    (simp add: retire_route_def update_route_def split: option.split)

lemma route_ages_set_final: "route_ages r (set_final_in_group g ob r)"
  by (simp add: route_ages_def set_final_in_group_def)

lemma route_ages_note_final: "route_ages r (note_final ob r)"
  by (simp add: route_ages_def note_final_def set_final_in_group_def Let_def)

lemma quiet_emit: "quiet (emit e)"
  by (rule quietI) (auto simp: emit_def plane_frame_def)

lemma quiet_abort_receive: "quiet (abort_receive st code)"
  by (rule quietI) (auto simp: abort_receive_def has_handle_def emit_def plane_frame_def split: option.split)

section \<open>Buffered datagrams\<close>

definition datagram_bytes :: "ByteBuffer list \<Rightarrow> nat" where
  "datagram_bytes ds = sum_list (map length ds)"

text \<open>
  The byte counter is what is buffered plus \<open>n\<close> bytes of a list that is being replayed;
  it is within the limit, no alias exceeds its share, and an alias with a route has nothing
  buffered.
\<close>

definition datagrams_inv :: "nat \<Rightarrow> 'a plane_scheme \<Rightarrow> bool" where
  "datagrams_inv n w \<longleftrightarrow>
     finite (dom (dp_unknown_datagrams w)) \<and>
     dp_buffered_datagram_bytes w = map_sum datagram_bytes (dp_unknown_datagrams w) + n \<and>
     dp_buffered_datagram_bytes w \<le> sub_max_buffered_datagram_bytes (dp_config w) \<and>
     (\<forall>a ds. dp_unknown_datagrams w a = Some ds \<longrightarrow>
        length ds \<le> sub_max_buffered_datagrams_per_alias (dp_config w) \<and> dp_routes_by_alias w a = None)"

lemma map_le_None: "m \<subseteq>\<^sub>m m' \<Longrightarrow> m' a = None \<Longrightarrow> m a = None"
  by (metis domIff map_le_implies_dom_le subsetD)

lemma datagrams_inv_frame: "datagrams_inv n w \<Longrightarrow> plane_frame w w' \<Longrightarrow> datagrams_inv n w'"
  by (auto simp: datagrams_inv_def plane_frame_def intro: map_le_None)

lemma datagrams_inv_step: "datagrams_inv n w \<Longrightarrow> plane_step w w' \<Longrightarrow> datagrams_inv n w'"
  by (auto simp: datagrams_inv_def plane_frame_def plane_step_def intro: map_le_None)

lemma datagram_bytes_simps [simp]:
  "datagram_bytes [] = 0" "datagram_bytes (d # ds) = length d + datagram_bytes ds"
  "datagram_bytes (ds @ es) = datagram_bytes ds + datagram_bytes es"
  by (simp_all add: datagram_bytes_def)

section \<open>Parked streams\<close>

definition waits_for :: "SubgroupReceiver option \<Rightarrow> TrackAlias option" where
  "waits_for x = (case x of None \<Rightarrow> None | Some r \<Rightarrow> if sr_waiting_for_route r then Some (sr_alias r) else None)"

text \<open>
  The lists of parked streams hold exactly the waiting receivers, each under its alias, without
  repetition; the counter is their number and within the limit. \<open>S\<close> are streams that
  \<open>install_route\<close> has taken off the lists and not resumed yet.
\<close>

definition parked_inv :: "stream_ref set \<Rightarrow> (stream_ref \<rightharpoonup> SubgroupReceiver) \<Rightarrow> 'a plane_scheme \<Rightarrow> bool" where
  "parked_inv S R w \<longleftrightarrow>
     finite (dom (dp_pending_subgroups_by_alias w)) \<and>
     dp_pending_subgroup_stream_count w = map_sum length (dp_pending_subgroups_by_alias w) \<and>
     dp_pending_subgroup_stream_count w \<le> sub_max_pending_subgroup_streams (dp_config w) \<and>
     (\<forall>a p. dp_pending_subgroups_by_alias w a = Some p \<longrightarrow> p \<noteq> [] \<and> distinct p \<and> dp_routes_by_alias w a = None) \<and>
     (\<forall>st a. (\<exists>p. dp_pending_subgroups_by_alias w a = Some p \<and> st \<in> set p) \<longleftrightarrow>
        st \<notin> S \<and> waits_for (R st) = Some a)"

lemma parked_inv_frame: "parked_inv S R w \<Longrightarrow> plane_frame w w' \<Longrightarrow> parked_inv S R w'"
  unfolding parked_inv_def plane_frame_def by (auto intro: map_le_None)

lemma parked_inv_updates [simp]:
  "parked_inv S R (w\<lparr>dp_receivers := R'\<rparr>) = parked_inv S R w"
  "parked_inv S R (w\<lparr>dp_unknown_datagrams := u\<rparr>) = parked_inv S R w"
  "parked_inv S R (w\<lparr>dp_buffered_datagram_bytes := n\<rparr>) = parked_inv S R w"
  by (simp_all add: parked_inv_def)

lemma datagrams_inv_updates [simp]:
  "datagrams_inv n (w\<lparr>dp_receivers := R'\<rparr>) = datagrams_inv n w"
  "datagrams_inv n (w\<lparr>dp_pending_subgroups_by_alias := p\<rparr>) = datagrams_inv n w"
  "datagrams_inv n (w\<lparr>dp_pending_subgroup_stream_count := c\<rparr>) = datagrams_inv n w"
  by (simp_all add: datagrams_inv_def)

lemma parked_inv_cong:
  "(\<And>st. waits_for (R st) = waits_for (R' st)) \<Longrightarrow> parked_inv S R w = parked_inv S R' w"
  by (simp add: parked_inv_def)

lemma waits_for_upd: "waits_for ((R(st \<mapsto> r)) st') = (if st' = st then waits_for (Some r) else waits_for (R st'))"
  by simp

lemma parked_inv_swap:
  "waits_for (Some r) = waits_for (Some r') \<Longrightarrow> parked_inv S (R(st \<mapsto> r)) w = parked_inv S (R(st \<mapsto> r')) w"
  by (rule parked_inv_cong) simp

lemma find_or_park_inv:
  assumes inv: "parked_inv {} (R(st \<mapsto> r)) w" and r: "\<not> sr_waiting_for_route r"
    and park: "find_or_park_subgroup a st w = (True, None, w')"
    and r': "waits_for (Some r') = Some a"
  shows "parked_inv {} (R(st \<mapsto> r')) w'"
proof -
  let ?P = "dp_pending_subgroups_by_alias w"
  let ?old = "case ?P a of None \<Rightarrow> [] | Some p \<Rightarrow> p"
  have route: "dp_routes_by_alias w a = None"
    and room: "dp_pending_subgroup_stream_count w < sub_max_pending_subgroup_streams (dp_config w)"
    and w': "w' = w\<lparr>dp_pending_subgroups_by_alias := ?P(a \<mapsto> ?old @ [st]),
                  dp_pending_subgroup_stream_count := dp_pending_subgroup_stream_count w + 1\<rparr>"
    using park by (auto simp: find_or_park_subgroup_def Let_def split: option.splits if_splits)
  note i = inv [unfolded parked_inv_def]
  have member: "(\<exists>p. ?P b = Some p \<and> s \<in> set p) \<longleftrightarrow> s \<noteq> st \<and> waits_for (R s) = Some b" for s b
    using i r by (auto simp: waits_for_def)
  have new: "st \<notin> set ?old" using member [of a st] by (auto split: option.splits)
  have "map_sum length (?P(a \<mapsto> ?old @ [st])) = map_sum length ?P + 1"
    using map_sum_insert [of ?P length a "?old @ [st]"] i by (cases "?P a") auto
  moreover have "\<forall>b p. (?P(a \<mapsto> ?old @ [st])) b = Some p \<longrightarrow> p \<noteq> [] \<and> distinct p \<and> dp_routes_by_alias w b = None"
    using i route new by (auto split: option.splits)
  moreover have "(\<exists>p. (?P(a \<mapsto> ?old @ [st])) b = Some p \<and> s \<in> set p) \<longleftrightarrow> waits_for ((R(st \<mapsto> r')) s) = Some b" for s b
    using member [of b s] r' by (cases "?P a") auto
  ultimately show ?thesis
    using i room unfolding parked_inv_def w' by auto
qed

lemma discard_pending_inv:
  assumes inv: "parked_inv {} (R(st \<mapsto> r)) w" and r: "waits_for (Some r) = Some a"
    and r': "waits_for (Some r') = None"
  shows "parked_inv {} (R(st \<mapsto> r')) (discard_pending_subgroup a st w)"
proof -
  let ?P = "dp_pending_subgroups_by_alias w"
  note i = inv [unfolded parked_inv_def]
  have member: "(\<exists>p. ?P b = Some p \<and> s \<in> set p) \<longleftrightarrow> waits_for ((R(st \<mapsto> r)) s) = Some b" for s b
    using i by simp
  from member [of a st] r obtain p where p: "?P a = Some p" "st \<in> set p" by auto
  define k where "k = filter (\<lambda>candidate. candidate \<noteq> st) p"
  define Q where "Q = ?P(a := if k = [] then None else Some k)"
  have fin: "finite (dom ?P)" using i by simp
  have k: "length k \<le> length p" "set k = set p - {st}" "distinct k"
    using i p by (auto simp: k_def)
  have le: "length p \<le> map_sum length ?P" by (rule map_sum_le [OF fin p(1)])
  have sum: "map_sum length Q = map_sum length ?P - (length p - length k)"
    using map_sum_remove [OF fin, of length a] map_sum_insert [OF fin, of length a k] p(1) k(1) le
    by (cases "k = []") (simp_all add: Q_def)
  have lists: "\<forall>b q. Q b = Some q \<longrightarrow> q \<noteq> [] \<and> distinct q \<and> dp_routes_by_alias w b = None"
    using i p(1) k(3) by (auto simp: Q_def split: if_splits)
  have members: "(\<exists>q. Q b = Some q \<and> s \<in> set q) \<longleftrightarrow> waits_for ((R(st \<mapsto> r')) s) = Some b" for s b
  proof (cases "b = a")
    case True
    have "(\<exists>q. Q b = Some q \<and> s \<in> set q) \<longleftrightarrow> s \<in> set k"
      using True by (auto simp: Q_def)
    with member [of a s] p(1) True r' k(2) show ?thesis by auto
  next
    case False
    with member [of b s] r r' show ?thesis by (auto simp: Q_def)
  qed
  have w': "discard_pending_subgroup a st w =
      w\<lparr>dp_pending_subgroup_stream_count := dp_pending_subgroup_stream_count w - (length p - length k),
        dp_pending_subgroups_by_alias := Q\<rparr>"
    by (simp add: discard_pending_subgroup_def p(1) Let_def Q_def k_def)
  have "finite (dom Q)" using fin by (simp add: Q_def)
  then show ?thesis
    using i sum lists members diff_le_self [THEN le_trans] unfolding parked_inv_def w' by simp
qed

lemma take_pending_inv:
  assumes inv: "parked_inv {} R w" and t: "take_pending a w = (ps, w')"
  shows "parked_inv (set ps) R w'" and "set ps = {st. waits_for (R st) = Some a}" and "distinct ps"
    and "w' = w\<lparr>dp_pending_subgroup_stream_count := dp_pending_subgroup_stream_count w',
               dp_pending_subgroups_by_alias := dp_pending_subgroups_by_alias w'\<rparr>"
proof -
  let ?P = "dp_pending_subgroups_by_alias w"
  note i = inv [unfolded parked_inv_def]
  have member: "(\<exists>p. ?P b = Some p \<and> s \<in> set p) \<longleftrightarrow> waits_for (R s) = Some b" for s b
    using i by simp
  have taken: "ps = (case ?P a of None \<Rightarrow> [] | Some p \<Rightarrow> p)"
    using t by (auto simp: take_pending_def split: option.splits)
  show ps: "set ps = {st. waits_for (R st) = Some a}"
    unfolding taken set_eq_iff mem_Collect_eq using member [of a] by (cases "?P a") auto
  show "distinct ps" using i unfolding taken by (auto split: option.splits)
  show "w' = w\<lparr>dp_pending_subgroup_stream_count := dp_pending_subgroup_stream_count w',
               dp_pending_subgroups_by_alias := dp_pending_subgroups_by_alias w'\<rparr>"
    using t by (auto simp: take_pending_def split: option.splits)
  define Q where "Q = ?P(a := None)"
  have sum: "map_sum length Q = map_sum length ?P - length ps"
    using map_sum_remove [of ?P length a] i unfolding taken by (cases "?P a") (simp_all add: Q_def)
  have members: "(\<exists>p. Q b = Some p \<and> st \<in> set p) \<longleftrightarrow> st \<notin> set ps \<and> waits_for (R st) = Some b" for st b
    using member [of b st] ps by (auto simp: Q_def)
  have "?P a = None \<Longrightarrow> Q = ?P" by (auto simp: Q_def)
  then have w': "w' = w\<lparr>dp_pending_subgroup_stream_count := dp_pending_subgroup_stream_count w - length ps,
        dp_pending_subgroups_by_alias := Q\<rparr>"
    using t unfolding take_pending_def by (cases "?P a") (auto simp: Q_def)
  have lists: "\<forall>b q. Q b = Some q \<longrightarrow> q \<noteq> [] \<and> distinct q \<and> dp_routes_by_alias w b = None"
    using i by (auto simp: Q_def split: if_splits)
  have "finite (dom Q)" using i by (simp add: Q_def)
  then show "parked_inv (set ps) R w'"
    using i sum lists members diff_le_self [THEN le_trans] unfolding parked_inv_def w' by simp
qed

text \<open>A waiting receiver has its header and is open; at the end of every entry point its stash is within the limit.\<close>

definition may_wait :: "SubgroupReceiver \<Rightarrow> bool" where
  "may_wait r \<longleftrightarrow> (sr_waiting_for_route r \<longrightarrow> sr_header_done r \<and> \<not> sr_closed r)"

definition stash_ok :: "nat \<Rightarrow> SubgroupReceiver \<Rightarrow> bool" where
  "stash_ok n r \<longleftrightarrow> (sr_waiting_for_route r \<longrightarrow> length (sr_stash r) \<le> n)"

definition plane_inv_except :: "stream_ref set \<Rightarrow> 'a plane_scheme \<Rightarrow> bool" where
  "plane_inv_except S w \<longleftrightarrow> datagrams_inv 0 w \<and> parked_inv S (dp_receivers w) w \<and>
     (\<forall>st r. dp_receivers w st = Some r \<longrightarrow>
        may_wait r \<and> stash_ok (sub_max_buffered_subgroup_bytes_per_stream (dp_config w)) r)"

definition plane_inv :: "'a plane_scheme \<Rightarrow> bool" where
  "plane_inv w \<longleftrightarrow> plane_inv_except {} w"

lemmas plane_inv_unfold = plane_inv_def plane_inv_except_def

lemma plane_inv_put:
  assumes "plane_inv w" "plane_step w w'" "parked_inv {} ((dp_receivers w)(st \<mapsto> r)) w'" "may_wait r"
    "stash_ok (sub_max_buffered_subgroup_bytes_per_stream (dp_config w)) r"
  shows "plane_inv (put_receiver st (r, w'))"
  using assms datagrams_inv_step [of 0 w w'] by (auto simp: plane_inv_unfold put_receiver_def plane_step_same)

lemma plane_inv_frame: "plane_inv w \<Longrightarrow> plane_frame w w' \<Longrightarrow> plane_inv w'"
  unfolding plane_inv_unfold
  by (intro conjI; elim conjE)
    (auto intro: datagrams_inv_frame parked_inv_frame simp: plane_step_same [OF plane_step_frame])

lemma plane_inv_parked: "plane_inv w \<Longrightarrow> dp_receivers w st = Some r \<Longrightarrow> parked_inv {} ((dp_receivers w)(st \<mapsto> r)) w"
  by (simp add: plane_inv_unfold fun_upd_idem)

definition same_parking :: "SubgroupReceiver \<Rightarrow> SubgroupReceiver \<Rightarrow> bool" where
  "same_parking r r' \<longleftrightarrow> sr_waiting_for_route r' = sr_waiting_for_route r \<and> sr_alias r' = sr_alias r \<and>
     sr_header_done r' = sr_header_done r"

lemma same_parking_refl [simp]: "same_parking r r"
  by (simp add: same_parking_def)

lemma same_parking_trans: "same_parking a b \<Longrightarrow> same_parking b c \<Longrightarrow> same_parking a c"
  by (simp add: same_parking_def)

lemma same_parking_waits: "same_parking r r' \<Longrightarrow> waits_for (Some r') = waits_for (Some r)"
  by (simp add: same_parking_def waits_for_def)

lemma stash_update [simp]:
  "may_wait (r\<lparr>sr_stash := b\<rparr>) = may_wait r" "waits_for (Some (r\<lparr>sr_stash := b\<rparr>)) = waits_for (Some r)"
  by (simp_all add: may_wait_def waits_for_def)

lemma parked_inv_stash [simp]: "parked_inv S (R(st \<mapsto> r\<lparr>sr_stash := b\<rparr>)) w = parked_inv S (R(st \<mapsto> r)) w"
  by (rule parked_inv_swap) simp

locale plane_client =
  fixes cb :: "('a plane_scheme) plane_callbacks"
  assumes quiet_protocol_error: "quiet (cb_protocol_error cb e)"
    and quiet_track_error: "quiet (cb_track_error cb request_id e)"
    and quiet_on_object: "quiet (cb_on_object cb ob)"
begin

lemmas frame_callbacks =
  quiet_frame [OF quiet_protocol_error] quiet_frame [OF quiet_track_error] quiet_frame [OF quiet_on_object]

lemmas commute_callbacks =
  quiet_commute [OF quiet_protocol_error] quiet_commute [OF quiet_track_error] quiet_commute [OF quiet_on_object]

lemma quiet_deliver: "quiet (deliver cb ref ob)"
proof (rule quietI)
  show "deliver cb ref ob (w\<lparr>dp_receivers := R\<rparr>) = (deliver cb ref ob w)\<lparr>dp_receivers := R\<rparr>" for w R
    by (auto simp: deliver_def commute_callbacks
        quiet_commute [OF quiet_update_route [OF route_ages_note_final]] split: option.split)
  show "plane_frame w (deliver cb ref ob w)" for w
    by (auto simp: deliver_def frame_callbacks quiet_on_object route_ages_note_final quiet_after_update
        split: option.split)
qed

lemma quiet_replayed: "quiet (deliver_datagram cb bytes False)"
proof (rule quietI)
  show "deliver_datagram cb bytes False (w\<lparr>dp_receivers := R\<rparr>) =
      (deliver_datagram cb bytes False w)\<lparr>dp_receivers := R\<rparr>" for w R
    by (auto simp: deliver_datagram_def commute_callbacks find_route_def route_request_def Let_def
        quiet_commute [OF quiet_deliver] quiet_commute [OF quiet_update_route [OF route_ages_set_final]]
        split: option.split sum.split)
  show "plane_frame w (deliver_datagram cb bytes False w)" for w
    by (auto simp: deliver_datagram_def frame_callbacks find_route_def Let_def
        quiet_after_update route_ages_set_final quiet_deliver quiet_frame [OF quiet_deliver]
        split: option.split sum.split)
qed

section \<open>Datagrams keep the bounds\<close>

lemma buffer_unknown_datagram_inv:
  assumes inv: "datagrams_inv 0 w" and route: "dp_routes_by_alias w a = None"
  shows "datagrams_inv 0 (buffer_unknown_datagram cb a bytes w)"
proof (cases "sub_unknown_alias_policy (dp_config w)")
  case BufferUnknown
  define ds where "ds = (case dp_unknown_datagrams w a of None \<Rightarrow> [] | Some ds \<Rightarrow> ds)"
  note i = inv [unfolded datagrams_inv_def]
  have sum: "map_sum datagram_bytes ((dp_unknown_datagrams w)(a \<mapsto> es)) + datagram_bytes ds =
      map_sum datagram_bytes (dp_unknown_datagrams w) + datagram_bytes es" for es
    using map_sum_insert [of "dp_unknown_datagrams w" datagram_bytes a es] i
    by (cases "dp_unknown_datagrams w a") (simp_all add: ds_def)
  have ds: "length ds \<le> sub_max_buffered_datagrams_per_alias (dp_config w)"
    using i by (auto simp: ds_def split: option.split)
  show ?thesis
    using i route ds sum [of ds] sum [of "ds @ [bytes]"] BufferUnknown
    by (auto simp: buffer_unknown_datagram_def datagrams_inv_def Let_def ds_def [symmetric])
qed (auto simp: buffer_unknown_datagram_def inv intro: datagrams_inv_frame [OF inv] frame_callbacks)

lemma on_datagram_inv: "datagrams_inv 0 w \<Longrightarrow> datagrams_inv 0 (on_datagram cb bytes w)"
proof -
  assume inv: "datagrams_inv 0 w"
  have "on_datagram cb bytes w = deliver_datagram cb bytes False w \<or>
      (\<exists>a. dp_routes_by_alias w a = None \<and> on_datagram cb bytes w = buffer_unknown_datagram cb a bytes w)"
    by (auto simp: on_datagram_def deliver_datagram_def find_route_def split: option.split sum.split)
  with inv quiet_frame [OF quiet_replayed] show ?thesis
    by (auto intro: datagrams_inv_frame buffer_unknown_datagram_inv)
qed

lemma buffer_unknown_datagram_parked:
  "parked_inv S R w \<Longrightarrow> parked_inv S R (buffer_unknown_datagram cb a bytes w)"
  by (cases "sub_unknown_alias_policy (dp_config w)")
    (auto simp: buffer_unknown_datagram_def Let_def intro: parked_inv_frame frame_callbacks)

lemma replay_datagrams_inv:
  "datagrams_inv (datagram_bytes ds) w \<Longrightarrow> datagrams_inv 0 (replay_datagrams cb ds w)"
proof (induction ds arbitrary: w)
  case (Cons d ds)
  then have "datagrams_inv (datagram_bytes ds)
      (w\<lparr>dp_buffered_datagram_bytes := dp_buffered_datagram_bytes w - length d\<rparr>)"
    by (auto simp: datagrams_inv_def)
  from datagrams_inv_frame [OF this quiet_frame [OF quiet_replayed]] Cons.IH show ?case by simp
qed simp

section \<open>Receivers keep the lists\<close>

lemma receiver_fail_frame:
  "receiver_fail cb e r w = (r', w') \<Longrightarrow> plane_frame w w' \<and> r' = r\<lparr>sr_closed := True\<rparr>"
  by (auto simp: receiver_fail_def frame_callbacks)

lemma parse_object_frame:
  "parse_object cb st c r w = (status, c', r', w') \<Longrightarrow> plane_frame w w' \<and> same_parking r r'"
  by (auto simp: parse_object_def Let_def take_object_def same_parking_def
      dest!: receiver_fail_frame intro: quiet_frame [OF quiet_deliver]
      split: if_splits option.splits sum.splits)

lemma run_objects_frame:
  "run_objects cb st fin c r w = (c', r', w') \<Longrightarrow> plane_frame w w' \<and> same_parking r r'"
proof (induction "remaining c" arbitrary: c r w rule: less_induct)
  case less
  obtain status c1 r1 w1 where p: "parse_object cb st c r w = (status, c1, r1, w1)" by (metis prod_cases4)
  note f = parse_object_frame [OF p]
  show ?case
  proof (cases "sr_closed r \<or> status \<noteq> Done")
    case True
    then have "(r', w') = (r, w) \<or> (r', w') = (r1, w1) \<or>
        (r', w') = receiver_fail cb ''subgroup stream ended mid-object'' r1 w1"
      using less.prems p by (subst (asm) run_objects.simps) (cases status; auto split: if_splits)
    then show ?thesis
      using f receiver_fail_frame [of _ r1 w1 r' w'] by (auto intro: plane_frame_trans simp: same_parking_def)
  next
    case False
    with p have "remaining c1 < remaining c" using parse_object_shrinks by metis
    moreover have "run_objects cb st fin c1 r1 w1 = (c', r', w')"
      using less.prems p False by (subst (asm) run_objects.simps) simp
    ultimately have "plane_frame w1 w' \<and> same_parking r1 r'" by (rule less.hyps)
    with f show ?thesis by (auto intro: plane_frame_trans same_parking_trans)
  qed
qed

lemma finish_stream_frame:
  "finish_stream fin r w = (r', w') \<Longrightarrow> plane_frame w w' \<and> same_parking r r'"
  by (auto simp: finish_stream_def same_parking_def plane_frame_update_route route_ages_set_final
      split: if_splits option.splits bool.splits)

lemma run_body_frame:
  "run_body cb st fin c r w = (c', r', w') \<Longrightarrow> plane_frame w w' \<and> same_parking r r'"
  by (auto simp: run_body_def same_parking_def
      dest!: run_objects_frame finish_stream_frame intro: plane_frame_trans split: if_splits prod.splits)

lemma abandon_inv:
  assumes "parked_inv {} (R(st \<mapsto> r)) w" and "abandon st r w = (r', w')"
  shows "plane_step w w'" and "parked_inv {} (R(st \<mapsto> r')) w'" and "sr_closed r'" and "\<not> sr_waiting_for_route r'"
proof -
  let ?d = "if sr_waiting_for_route r then discard_pending_subgroup (sr_alias r) st w else w"
  have r': "r' = r\<lparr>sr_closed := True, sr_waiting_for_route := False, sr_stash := []\<rparr>" and w': "w' = abort_receive st 0 ?d"
    using assms(2) by (auto simp: abandon_def Let_def)
  note ab = quiet_frame [OF quiet_abort_receive [of st 0], of ?d]
  show "plane_step w w'"
    unfolding w' by (rule plane_step_trans [OF _ plane_step_frame [OF ab]]) (auto intro: plane_step_discard)
  have "parked_inv {} (R(st \<mapsto> r')) ?d"
  proof (cases "sr_waiting_for_route r")
    case True
    with discard_pending_inv [OF assms(1), of "sr_alias r" r'] show ?thesis by (simp add: waits_for_def r')
  next
    case False
    then have "waits_for (Some r) = waits_for (Some r')" by (simp add: waits_for_def r')
    with assms(1) False show ?thesis using parked_inv_swap by fastforce
  qed
  then show "parked_inv {} (R(st \<mapsto> r')) w'" unfolding w' by (rule parked_inv_frame [OF _ ab])
  show "sr_closed r'" "\<not> sr_waiting_for_route r'" by (simp_all add: r')
qed

lemma resolve_alias_inv:
  assumes inv: "parked_inv {} (R(st \<mapsto> r)) w" and r: "\<not> sr_waiting_for_route r"
    and p: "resolve_alias cb st r w = (status, r', w')"
  shows "plane_step w w' \<and> parked_inv {} (R(st \<mapsto> r')) w' \<and>
    (sr_waiting_for_route r' \<longrightarrow> sr_header_done r' \<and> sr_closed r' = sr_closed r)"
proof -
  have "(\<exists>e. receiver_fail cb e r w = (r', w')) \<or> abandon st r w = (r', w') \<or>
    (\<exists>ref. r' = header_parsed (Some ref) r \<and> w' = w) \<or>
    find_or_park_subgroup (sr_alias r) st w = (True, None, w') \<and> r' = header_parsed None r"
  proof (cases "sub_unknown_alias_policy (dp_config w)")
    case BufferUnknown
    obtain f ref w1 where fp: "find_or_park_subgroup (sr_alias r) st w = (f, ref, w1)" by (metis prod_cases3)
    then have "\<not> f \<or> ref \<noteq> None \<Longrightarrow> w1 = w"
      by (auto simp: find_or_park_subgroup_def Let_def split: option.splits if_splits)
    with p fp BufferUnknown show ?thesis
      by (cases f; cases ref) (auto simp: resolve_alias_def)
  next
    case ErrorUnknown
    with p show ?thesis
      by (cases "find_route (sr_alias r) w") (auto simp: resolve_alias_def simp del: append.simps)
  next
    case DropUnknown
    with p show ?thesis by (cases "find_route (sr_alias r) w") (auto simp: resolve_alias_def)
  qed
  then consider (fail) e where "receiver_fail cb e r w = (r', w')"
    | (abandon) "abandon st r w = (r', w')"
    | (found) ref where "r' = header_parsed (Some ref) r" "w' = w"
    | (parked) "find_or_park_subgroup (sr_alias r) st w = (True, None, w')" "r' = header_parsed None r"
    by metis
  then show ?thesis
  proof cases
    case fail
    note f = receiver_fail_frame [OF fail]
    have "parked_inv {} (R(st \<mapsto> r')) w"
      using inv parked_inv_swap [of r r' _ R st w] f by (simp add: waits_for_def)
    with f r show ?thesis by (auto intro: parked_inv_frame)
  next
    case abandon
    from abandon_inv [OF inv this] show ?thesis by simp
  next
    case found
    have "waits_for (Some r) = waits_for (Some r')"
      using found r by (simp add: header_parsed_def waits_for_def Let_def)
    then have "parked_inv {} (R(st \<mapsto> r')) w" using inv parked_inv_swap by fastforce
    with found r show ?thesis by (auto simp: header_parsed_def Let_def)
  next
    case parked
    have "waits_for (Some r') = Some (sr_alias r)"
      using parked by (simp add: header_parsed_def waits_for_def Let_def)
    from find_or_park_inv [OF inv r parked(1) this] plane_step_park [OF parked(1)] parked(2)
    show ?thesis by (simp add: header_parsed_def Let_def)
  qed
qed

lemma parse_header_inv:
  assumes inv: "parked_inv {} (R(st \<mapsto> r)) w" and r: "\<not> sr_waiting_for_route r" "\<not> sr_closed r"
    and p: "parse_header cb st c r w = (status, c', r', w')"
  shows "plane_step w w' \<and> parked_inv {} (R(st \<mapsto> r')) w' \<and> may_wait r'"
proof (cases "parse_header_fields c")
  case None
  with p inv r show ?thesis by (auto simp: parse_header_def may_wait_def)
next
  case (Some x)
  show ?thesis
  proof (cases x)
    case (Inl e)
    with p Some have "receiver_fail cb e r w = (r', w')" by (simp add: parse_header_def)
    note f = receiver_fail_frame [OF this]
    have "parked_inv {} (R(st \<mapsto> r')) w"
      using inv parked_inv_swap [of r r' _ R st w] f by (simp add: waits_for_def)
    with f r show ?thesis by (auto simp: may_wait_def intro: parked_inv_frame)
  next
    case (Inr hc)
    obtain h c1 where hc: "hc = (h, c1)" by (cases hc)
    have t: "\<not> sr_waiting_for_route (take_header h r)" "\<not> sr_closed (take_header h r)"
      using r by (simp_all add: take_header_def)
    then have "parked_inv {} (R(st \<mapsto> take_header h r)) w"
      using inv r parked_inv_swap [of r "take_header h r" _ R st w] by (simp add: waits_for_def)
    moreover have "resolve_alias cb st (take_header h r) w = (status, r', w')"
      using p Some Inr hc by (auto simp: parse_header_def split: prod.splits)
    ultimately show ?thesis using resolve_alias_inv [OF _ t(1)] t(2) by (simp add: may_wait_def)
  qed
qed

lemma parked_inv_same:
  "parked_inv S (R(st \<mapsto> r)) w \<Longrightarrow> plane_frame w w' \<Longrightarrow> same_parking r r' \<Longrightarrow> parked_inv S (R(st \<mapsto> r')) w'"
  using parked_inv_swap [of r r' S R st w'] parked_inv_frame by (fastforce dest: same_parking_waits)

lemma run_body_inv:
  assumes "parked_inv {} (R(st \<mapsto> r)) w" "may_wait r" "run_body cb st fin c r w = (c', r', w')"
  shows "plane_step w w' \<and> parked_inv {} (R(st \<mapsto> r')) w' \<and> may_wait r'"
proof -
  note f = run_body_frame [OF assms(3)]
  moreover have "sr_waiting_for_route r \<Longrightarrow> sr_closed r' = sr_closed r"
    using assms(3) by (auto simp: run_body_def)
  ultimately show ?thesis
    using parked_inv_same [OF assms(1)] assms(2) by (auto simp: may_wait_def same_parking_def)
qed

lemma run_inv:
  assumes inv: "parked_inv {} (R(st \<mapsto> r)) w" and r: "may_wait r" "\<not> sr_closed r"
    and p: "run cb st fin c r w = (c', r', w')"
  shows "plane_step w w' \<and> parked_inv {} (R(st \<mapsto> r')) w' \<and> may_wait r'"
proof (cases "sr_header_done r")
  case True
  with p run_body_inv [OF inv r(1)] show ?thesis by (simp add: run_def)
next
  case False
  with r have nw: "\<not> sr_waiting_for_route r" by (simp add: may_wait_def)
  obtain status c1 r1 w1 where h: "parse_header cb st c r w = (status, c1, r1, w1)" by (metis prod_cases4)
  note i = parse_header_inv [OF inv nw r(2) h]
  consider (stop) "r' = r1" "w' = w1" | (fail) "status = NeedMoreData" "receiver_fail cb ''SUBGROUP_HEADER ended mid-header'' r1 w1 = (r', w')"
    | (go) "run_body cb st fin c1 r1 w1 = (c', r', w')"
    using p h False by (auto simp: run_def split: if_splits)
  then show ?thesis
  proof cases
    case stop
    with i show ?thesis by simp
  next
    case fail
    note f = receiver_fail_frame [OF fail(2)]
    have same: "r1 = r"
      using h fail(1) by (auto simp: parse_header_def resolve_alias_def Let_def
          split: option.splits sum.splits prod.splits UnknownAliasPolicy.splits if_splits)
    have "parked_inv {} (R(st \<mapsto> r')) w'"
      by (rule parked_inv_same [of _ _ _ r1]) (use i f in \<open>auto simp: same_parking_def\<close>)
    with f i same nw show ?thesis by (auto simp: may_wait_def intro: plane_step_trans)
  next
    case go
    with run_body_inv [of R st r1 w1 fin c1 c' r' w'] i show ?thesis by (auto intro: plane_step_trans)
  qed
qed

lemma enforce_inv:
  assumes "parked_inv {} (R(st \<mapsto> r)) w" "may_wait r" "enforce_pending_buffer_limit st r w = (r', w')"
  shows "plane_step w w' \<and> parked_inv {} (R(st \<mapsto> r')) w' \<and> may_wait r' \<and>
    stash_ok (sub_max_buffered_subgroup_bytes_per_stream (dp_config w)) r'"
proof (cases "sr_waiting_for_route r \<and>
    length (sr_stash r) > sub_max_buffered_subgroup_bytes_per_stream (dp_config w)")
  case False
  with assms show ?thesis by (auto simp: enforce_pending_buffer_limit_def stash_ok_def)
next
  case True
  with assms have "abandon st r w = (r', w')" by (simp add: enforce_pending_buffer_limit_def)
  from abandon_inv [OF assms(1) this] show ?thesis by (simp add: may_wait_def stash_ok_def)
qed

text \<open>Both paths of \<open>on_receive\<close> end in a receiver that is within its limit.\<close>

lemma receive_in_place_inv:
  assumes "parked_inv {} (R(st \<mapsto> r)) w" "may_wait r" "\<not> sr_closed r"
    and p: "receive_in_place cb st chunk fin r w = (r', w')"
  shows "plane_step w w' \<and> parked_inv {} (R(st \<mapsto> r')) w' \<and> may_wait r' \<and>
    stash_ok (sub_max_buffered_subgroup_bytes_per_stream (dp_config w)) r'"
proof -
  obtain c1 r1 w1 where run: "run cb st fin \<lparr>cur_bytes = chunk, cur_offset = 0\<rparr> r w = (c1, r1, w1)"
    by (metis prod_cases3)
  note i = run_inv [OF assms(1-3) run]
  let ?r = "if \<not> sr_closed r1 \<and> remaining c1 \<noteq> 0
      then r1\<lparr>sr_stash := drop (cur_offset c1) (cur_bytes c1)\<rparr> else r1"
  have e: "enforce_pending_buffer_limit st ?r w1 = (r', w')"
    using p run by (simp add: receive_in_place_def Let_def)
  have "parked_inv {} (R(st \<mapsto> ?r)) w1" "may_wait ?r" using i by simp_all
  from enforce_inv [OF this e] i show ?thesis by (auto simp: plane_step_same intro: plane_step_trans)
qed

lemma receive_stashed_inv:
  assumes "parked_inv {} (R(st \<mapsto> r)) w" "may_wait r" "\<not> sr_closed r"
    and p: "receive_stashed cb st chunks fin r w = (r', w')"
  shows "plane_step w w' \<and> parked_inv {} (R(st \<mapsto> r')) w' \<and> may_wait r' \<and>
    stash_ok (sub_max_buffered_subgroup_bytes_per_stream (dp_config w)) r'"
proof -
  let ?r = "r\<lparr>sr_stash := sr_stash r @ concat chunks\<rparr>"
  obtain c1 r1 w1 where run: "run cb st fin \<lparr>cur_bytes = sr_stash ?r, cur_offset = 0\<rparr> ?r w = (c1, r1, w1)"
    by (metis prod_cases3)
  have i: "plane_step w w1 \<and> parked_inv {} (R(st \<mapsto> r1)) w1 \<and> may_wait r1"
    by (rule run_inv [OF _ _ _ run]) (use assms in simp_all)
  show ?thesis
  proof (cases "sr_closed r1")
    case True
    with p run have "r' = r1\<lparr>sr_stash := []\<rparr>" "w' = w1" by (auto simp: receive_stashed_def Let_def)
    with i True show ?thesis by (simp add: stash_ok_def)
  next
    case False
    with p run have "enforce_pending_buffer_limit st (r1\<lparr>sr_stash := drop (cur_offset c1) (sr_stash r1)\<rparr>) w1 = (r', w')"
      by (simp add: receive_stashed_def Let_def)
    from enforce_inv [OF _ _ this, of R] i show ?thesis by (auto simp: plane_step_same intro: plane_step_trans)
  qed
qed

lemma on_receive_inv:
  assumes inv: "plane_inv w"
  shows "plane_inv (on_receive cb st chunks fin w) \<and> dom (dp_receivers (on_receive cb st chunks fin w)) = dom (dp_receivers w)"
proof -
  show ?thesis
  proof (cases "dp_receivers w st")
    case None
    with inv show ?thesis by (simp add: on_receive_def)
  next
    case (Some r)
    show ?thesis
    proof (cases "sr_closed r")
      case True
      with inv Some show ?thesis by (simp add: on_receive_def)
    next
      case False
      obtain r' w' where e: "on_receive cb st chunks fin w = put_receiver st (r', w')"
        "receive_stashed cb st chunks fin r w = (r', w') \<or> (\<exists>chunk. receive_in_place cb st chunk fin r w = (r', w'))"
      proof -
        define rw where "rw = (case (sr_stash r, chunks) of ([], [chunk]) \<Rightarrow> receive_in_place cb st chunk fin r w
          | _ \<Rightarrow> receive_stashed cb st chunks fin r w)"
        have "on_receive cb st chunks fin w = put_receiver st (fst rw, snd rw)"
          using Some False by (simp add: on_receive_def rw_def)
        moreover have "receive_stashed cb st chunks fin r w = (fst rw, snd rw) \<or>
            (\<exists>chunk. receive_in_place cb st chunk fin r w = (fst rw, snd rw))"
          by (cases "sr_stash r"; cases chunks rule: remdups_adj.cases) (auto simp: rw_def)
        ultimately show ?thesis by (rule that)
      qed
      have "may_wait r" using inv Some by (simp add: plane_inv_unfold)
      with e(2) plane_inv_parked [OF inv Some] False
      have i: "plane_step w w'" "parked_inv {} ((dp_receivers w)(st \<mapsto> r')) w'" "may_wait r'"
        "stash_ok (sub_max_buffered_subgroup_bytes_per_stream (dp_config w)) r'"
        by (auto dest: receive_stashed_inv receive_in_place_inv)
      have "dom (dp_receivers (put_receiver st (r', w'))) = dom (dp_receivers w)"
        using Some by (auto simp: put_receiver_def plane_step_same [OF i(1)])
      with plane_inv_put [OF inv i] show ?thesis unfolding e(1) by blast
    qed
  qed
qed

lemma on_datagram_plane_inv: "plane_inv w \<Longrightarrow> plane_inv (on_datagram cb bytes w)"
proof -
  assume inv: "plane_inv w"
  have "on_datagram cb bytes w = deliver_datagram cb bytes False w \<or>
      (\<exists>a. on_datagram cb bytes w = buffer_unknown_datagram cb a bytes w)"
    by (auto simp: on_datagram_def deliver_datagram_def find_route_def split: option.split sum.split)
  then show ?thesis
  proof (elim disjE exE)
    assume "on_datagram cb bytes w = deliver_datagram cb bytes False w"
    with plane_inv_frame [OF inv quiet_frame [OF quiet_replayed]] show ?thesis by simp
  next
    fix a assume e: "on_datagram cb bytes w = buffer_unknown_datagram cb a bytes w"
    have "dp_receivers (buffer_unknown_datagram cb a bytes w) = dp_receivers w \<and>
        dp_config (buffer_unknown_datagram cb a bytes w) = dp_config w"
      using plane_step_same [OF plane_step_frame [OF frame_callbacks(1)]]
      by (auto simp: buffer_unknown_datagram_def Let_def split: UnknownAliasPolicy.split)
    with inv on_datagram_inv [of w bytes] buffer_unknown_datagram_parked [of "{}" "dp_receivers w" w a bytes]
    show ?thesis unfolding e by (auto simp: plane_inv_unfold)
  qed
qed

lemma establish_inv:
  assumes inv: "plane_inv_except S w" and st: "st \<in> S"
  shows "plane_inv_except (S - {st}) (establish cb ref st w) \<and> dom (dp_receivers (establish cb ref st w)) = dom (dp_receivers w)"
proof -
  note i = inv [unfolded plane_inv_except_def]
  have drop: "parked_inv (S - {st}) (R(st := x)) w'" if "parked_inv S R w'" "waits_for x = None"
    for R x and w' :: "'a plane_scheme"
    using that st unfolding parked_inv_def by (auto simp: waits_for_def)
  show ?thesis
  proof (cases "waits_for (dp_receivers w st)")
    case None
    then have "establish cb ref st w = w"
      by (auto simp: establish_def waits_for_def split: option.splits if_splits)
    with i drop [OF _ None, of "dp_receivers w" w] show ?thesis by (simp add: plane_inv_except_def)
  next
    case (Some a)
    then obtain r where r: "dp_receivers w st = Some r" "sr_waiting_for_route r"
      by (auto simp: waits_for_def split: option.splits if_splits)
    with i have m: "sr_header_done r" "\<not> sr_closed r" by (auto simp: may_wait_def)
    let ?r = "r\<lparr>sr_route := Some ref, sr_waiting_for_route := False\<rparr>"
    obtain c1 r1 w1 where b: "run_body cb st (sr_fin_while_pending r) \<lparr>cur_bytes = sr_stash r, cur_offset = 0\<rparr> ?r w
        = (c1, r1, w1)" by (metis prod_cases3)
    note f = run_body_frame [OF b]
    define r2 where "r2 = (if sr_closed r1 then r1\<lparr>sr_stash := []\<rparr>
        else r1\<lparr>sr_stash := drop (cur_offset c1) (sr_stash r1)\<rparr>)"
    have nw: "\<not> sr_waiting_for_route r2" using f by (simp add: same_parking_def r2_def)
    have e: "establish cb ref st w = put_receiver st (r2, w1)"
      using r m b by (simp add: establish_def run_def Let_def r2_def)
    have "parked_inv (S - {st}) ((dp_receivers w)(st \<mapsto> r2)) w1"
      using drop parked_inv_frame [of S "dp_receivers w" w w1] i f nw by (simp add: waits_for_def)
    then show ?thesis
      using i f nw r plane_step_same [OF plane_step_frame, of w w1] datagrams_inv_frame [of 0 w w1]
      unfolding e by (auto simp: plane_inv_except_def put_receiver_def may_wait_def stash_ok_def)
  qed
qed

lemma establish_all_inv:
  "plane_inv_except S w \<Longrightarrow> set sts \<subseteq> S \<Longrightarrow> distinct sts \<Longrightarrow>
     plane_inv_except (S - set sts) (establish_all cb ref sts w) \<and> dom (dp_receivers (establish_all cb ref sts w)) = dom (dp_receivers w)"
proof (induction sts arbitrary: S w)
  case (Cons st sts)
  then have e: "plane_inv_except (S - {st}) (establish cb ref st w)" "dom (dp_receivers (establish cb ref st w)) = dom (dp_receivers w)"
    using establish_inv [of S w st ref] by simp_all
  from Cons.prems have "set sts \<subseteq> S - {st}" "distinct sts" by auto
  from Cons.IH [OF e(1) this] e(2) show ?case by (simp add: Diff_insert2 [symmetric])
qed simp

lemma replay_datagrams_frame:
  "plane_frame w ((replay_datagrams cb ds w)\<lparr>dp_buffered_datagram_bytes := dp_buffered_datagram_bytes w\<rparr>)"
proof (induction ds arbitrary: w)
  case (Cons d ds)
  let ?w = "w\<lparr>dp_buffered_datagram_bytes := dp_buffered_datagram_bytes w - length d\<rparr>"
  from quiet_frame [OF quiet_replayed, of ?w d] Cons.IH [of "deliver_datagram cb d False ?w"]
  show ?case unfolding plane_frame_def
    by (auto intro: map_le_trans rel_option_ages_trans)
qed simp

lemma install_route_inv:
  assumes inv: "plane_inv w"
  shows "plane_inv (snd (install_route cb a ref w)) \<and> dom (dp_receivers (snd (install_route cb a ref w))) = dom (dp_receivers w)"
proof (cases "dp_routes_by_alias w a")
  case (Some x)
  with inv show ?thesis by (simp add: install_route_def)
next
  case None
  note i = inv [unfolded plane_inv_unfold]
  obtain ps w1 where t: "take_pending a w = (ps, w1)" by fastforce
  note t1 = take_pending_inv [OF conjunct1 [OF conjunct2 [OF i]] t]
  define w2 where "w2 = w1\<lparr>dp_routes_by_alias := (dp_routes_by_alias w)(a \<mapsto> ref)\<rparr>"
  have t2: "take_pending a (w\<lparr>dp_routes_by_alias := (dp_routes_by_alias w)(a \<mapsto> ref)\<rparr>) = (ps, w2)"
    using t by (auto simp: take_pending_def w2_def split: option.splits)
  have w1: "dp_receivers w1 = dp_receivers w" "dp_config w1 = dp_config w" "dp_routes_by_alias w1 = dp_routes_by_alias w"
    "dp_unknown_datagrams w1 = dp_unknown_datagrams w" "dp_buffered_datagram_bytes w1 = dp_buffered_datagram_bytes w"
    by (subst t1(4), simp)+
  have "dp_pending_subgroups_by_alias w1 a = None"
    using t by (auto simp: take_pending_def split: option.splits)
  then have p2: "parked_inv (set ps) (dp_receivers w) w2"
    using t1(1) unfolding parked_inv_def w2_def by (auto simp: w1(3))
  define w3 where "w3 = (case dp_unknown_datagrams w2 a of None \<Rightarrow> w2
    | Some ds \<Rightarrow> replay_datagrams cb ds (w2\<lparr>dp_unknown_datagrams := (dp_unknown_datagrams w2)(a := None)\<rparr>))"
  have "plane_inv_except (set ps) w3 \<and> dp_receivers w3 = dp_receivers w"
  proof (cases "dp_unknown_datagrams w a")
    case None
    then have "w3 = w2" by (simp add: w3_def w2_def w1)
    moreover have "datagrams_inv 0 w2" using i None by (auto simp: datagrams_inv_def w2_def w1)
    ultimately show ?thesis using p2 i by (auto simp: plane_inv_except_def w2_def w1)
  next
    case (Some ds)
    let ?w = "w2\<lparr>dp_unknown_datagrams := (dp_unknown_datagrams w)(a := None)\<rparr>"
    have w3: "w3 = replay_datagrams cb ds ?w" using Some by (simp add: w3_def w2_def w1)
    have "map_sum datagram_bytes ((dp_unknown_datagrams w)(a := None)) + datagram_bytes ds
        = map_sum datagram_bytes (dp_unknown_datagrams w)"
      using map_sum_remove [of "dp_unknown_datagrams w" datagram_bytes a] Some i by (simp add: datagrams_inv_def)
    then have "datagrams_inv (datagram_bytes ds) ?w"
      using i by (auto simp: datagrams_inv_def w2_def w1)
    then have d3: "datagrams_inv 0 w3" unfolding w3 by (rule replay_datagrams_inv)
    note f = replay_datagrams_frame [of ?w ds, folded w3]
    have "parked_inv (set ps) (dp_receivers w) ?w" using p2 by simp
    from parked_inv_frame [OF this f] have "parked_inv (set ps) (dp_receivers w) w3" by simp
    with d3 i f show ?thesis by (auto simp: plane_inv_except_def plane_frame_def w2_def w1)
  qed
  with establish_all_inv [OF conjunct1 [OF this] subset_refl t1(3), of ref] show ?thesis
    using None t2 by (simp add: install_route_def plane_inv_def Let_def w3_def)
qed

lemma on_peer_send_aborted_inv: "plane_inv w \<Longrightarrow> plane_inv (on_peer_send_aborted st w)"
proof -
  assume inv: "plane_inv w"
  show ?thesis
  proof (cases "dp_receivers w st")
    case None
    with inv show ?thesis by (simp add: on_peer_send_aborted_def)
  next
    case (Some r)
    let ?r = "r\<lparr>sr_closed := True, sr_waiting_for_route := False, sr_stash := []\<rparr>"
    let ?w = "if sr_waiting_for_route r then discard_pending_subgroup (sr_alias r) st w else w"
    have "parked_inv {} ((dp_receivers w)(st \<mapsto> ?r)) ?w"
    proof (cases "sr_waiting_for_route r")
      case True
      with discard_pending_inv [OF plane_inv_parked [OF inv Some], of "sr_alias r" ?r]
      show ?thesis by (simp add: waits_for_def)
    next
      case False
      then have same: "waits_for (Some r) = waits_for (Some ?r)" by (simp add: waits_for_def)
      from plane_inv_parked [OF inv Some] False show ?thesis unfolding parked_inv_swap [OF same] by simp
    qed
    moreover have "plane_step w ?w" by (auto intro: plane_step_discard)
    ultimately have "plane_inv (put_receiver st (?r, ?w))"
      by (intro plane_inv_put [OF inv]) (auto simp: may_wait_def stash_ok_def)
    with Some show ?thesis by (simp add: on_peer_send_aborted_def)
  qed
qed

lemma set_sink_frame: "plane_frame w (set_sink st k w)"
  by (simp add: set_sink_def plane_frame_def)

lemma start_subgroup_stream_inv:
  assumes inv: "plane_inv w" and fresh: "waits_for (dp_receivers w st) = None"
  shows "plane_inv (start_subgroup_stream cb st prefix fin w) \<and>
    dom (dp_receivers (start_subgroup_stream cb st prefix fin w)) = insert st (dom (dp_receivers w))"
proof -
  have new: "waits_for (Some (new_receiver prefix)) = None" by (simp add: waits_for_def new_receiver_def)
  have "parked_inv {} ((dp_receivers w)(st \<mapsto> new_receiver prefix)) w = parked_inv {} (dp_receivers w) w"
    by (rule parked_inv_cong) (simp add: fresh new)
  then have "parked_inv {} ((dp_receivers w)(st \<mapsto> new_receiver prefix)) w"
    using inv by (simp add: plane_inv_unfold)
  then have "plane_inv (put_receiver st (new_receiver prefix, w))"
    by (intro plane_inv_put [OF inv]) (auto simp: may_wait_def stash_ok_def new_receiver_def)
  then have "plane_inv (set_sink st (Some SubgroupReceiverSink) (put_receiver st (new_receiver prefix, w)))"
    by (rule plane_inv_frame [OF _ set_sink_frame])
  from on_receive_inv [OF this, of st "[]" fin] show ?thesis
    unfolding start_subgroup_stream_def by (auto simp: set_sink_def put_receiver_def)
qed

end

end
