(* ===== verification/Subgroup_Stream.thy ===== *)
theory Subgroup_Stream
  imports Data_Plane_Inv Control_Frames
begin

text \<open>
  A subgroup stream seen as a sequence of items. The header and each object are one round of a
  receive loop; the fast and the slow path of \<open>on_receive\<close> are both that loop on the
  stash and the new bytes, so it does not matter how QUIC cuts the stream into receive events.
\<close>

section \<open>One round\<close>

definition receiver_step ::
  "('a plane_scheme) plane_callbacks \<Rightarrow> stream_ref \<Rightarrow> SubgroupReceiver \<times> 'a plane_scheme \<Rightarrow> ByteBuffer
     \<Rightarrow> ((SubgroupReceiver \<times> 'a plane_scheme) \<times> nat) option" where
  "receiver_step cb st rw xs =
     (case rw of (r, w) \<Rightarrow>
        if sr_closed r \<or> sr_waiting_for_route r then None
        else if \<not> sr_header_done r
        then case parse_header_fields (standing [] xs) of
               None \<Rightarrow> None
             | Some (Inl e) \<Rightarrow> Some (receiver_fail cb e r w, 1)
             | Some (Inr (h, c)) \<Rightarrow> Some (snd (resolve_alias cb st (take_header h r) w), cur_offset c)
        else case parse_object_fields (sr_properties_per_object r) (sr_last_object_id r) (stream_id w st) (standing [] xs) of
               None \<Rightarrow> None
             | Some (Inl e) \<Rightarrow> Some (receiver_fail cb e r w, 1)
             | Some (Inr (ob, c)) \<Rightarrow>
                 let r = take_object ob r
                 in Some ((r, case sr_route r of None \<Rightarrow> w | Some ref \<Rightarrow> deliver cb ref (subgroup_object st ob ref r w) w),
                      cur_offset c))"

lemma read_byte_shrinks: "read_byte c = Some (b, c') \<Longrightarrow> remaining c' \<le> remaining c"
  by (auto simp: read_byte_def remaining_def split: if_splits)

lemma parse_header_fields_shrinks:
  "parse_header_fields c = Some (Inr (h, c')) \<Longrightarrow> remaining c' < remaining c"
  by (auto simp: parse_header_fields_def Let_def parser_Inr dest!: cursor_varint_shrinks read_byte_shrinks
      split: if_splits)

text \<open>A verdict on the front of a stream: a consumed part that is not empty, or an error on at least one byte.\<close>

lemma settled_consumed:
  assumes "settled p" and shrink: "remaining c < remaining (standing pre xs)"
    and "p (standing pre xs) = Some (Inr (x, c))"
  obtains us ws where "us \<noteq> []" "xs = us @ ws" "c = standing (pre @ us) ws"
    "\<And>pre' ys. p (standing pre' (xs @ ys)) = Some (Inr (x, standing (pre' @ us) (ws @ ys)))"
proof -
  obtain us ws where *: "xs = us @ ws" "c = standing (pre @ us) ws"
    "\<And>pre' ys. p (standing pre' (xs @ ys)) = Some (Inr (x, standing (pre' @ us) (ws @ ys)))"
    using settled_Inr [OF assms(1,3)] by metis
  have "us \<noteq> []" using shrink *(1,2) by auto
  from that [OF this *] show ?thesis .
qed

lemmas header_consumed = settled_consumed [OF settled_header parse_header_fields_shrinks]
lemmas object_consumed = settled_consumed [OF settled_object parse_object_fields_shrinks]

lemma header_error_nonempty: "parse_header_fields (standing pre xs) = Some x \<Longrightarrow> xs \<noteq> []"
  using parse_header_Nil [of pre] by (cases xs) auto

lemma object_error_nonempty: "parse_object_fields b l s (standing pre xs) = Some x \<Longrightarrow> xs \<noteq> []"
  using parse_object_Nil [of b l s pre] by (cases xs) auto

interpretation receiver: receive_loop "receiver_step cb st"
proof unfold_locales
  fix s s' :: "SubgroupReceiver \<times> 'a plane_scheme" and xs n ys
  assume step: "receiver_step cb st s xs = Some (s', n)"
  obtain r w where s: "s = (r, w)" by (cases s)
  have open_r: "\<not> sr_closed r" "\<not> sr_waiting_for_route r"
    using step s by (auto simp: receiver_step_def)
  have "0 < n \<and> n \<le> length xs \<and> receiver_step cb st s (xs @ ys) = Some (s', n)"
  proof (cases "sr_header_done r")
    case False
    then obtain v where v: "parse_header_fields (standing [] xs) = Some v"
      using step open_r by (auto simp: receiver_step_def s split: option.splits)
    show ?thesis
    proof (cases v)
      case (Inl e)
      with step open_r False v settled_Inl [OF settled_header, of "[]" xs e "[]" ys] header_error_nonempty [OF v]
      show ?thesis by (cases xs) (auto simp: receiver_step_def s)
    next
      case (Inr hc)
      obtain h c where hc: "hc = (h, c)" by (cases hc)
      from v Inr hc have "parse_header_fields (standing [] xs) = Some (Inr (h, c))" by simp
      from header_consumed [OF this this] obtain us ws where *: "us \<noteq> []" "xs = us @ ws" "c = standing us ws"
        "parse_header_fields (standing [] (xs @ ys)) = Some (Inr (h, standing us (ws @ ys)))"
        by (metis append_Nil)
      with step open_r False v Inr hc show ?thesis by (auto simp: receiver_step_def s)
    qed
  next
    case True
    let ?p = "parse_object_fields (sr_properties_per_object r) (sr_last_object_id r) (stream_id w st)"
    from True obtain v where v: "?p (standing [] xs) = Some v"
      using step open_r by (auto simp: receiver_step_def s split: option.splits)
    show ?thesis
    proof (cases v)
      case (Inl e)
      with step open_r True v settled_Inl [OF settled_object, of _ _ _ "[]" xs e "[]" ys] object_error_nonempty [OF v]
      show ?thesis by (cases xs) (auto simp: receiver_step_def s)
    next
      case (Inr oc)
      obtain ob c where oc: "oc = (ob, c)" by (cases oc)
      from v Inr oc have "?p (standing [] xs) = Some (Inr (ob, c))" by simp
      from object_consumed [OF this this] obtain us ws where *: "us \<noteq> []" "xs = us @ ws" "c = standing us ws"
        "?p (standing [] (xs @ ys)) = Some (Inr (ob, standing us (ws @ ys)))"
        by (metis append_Nil)
      with step open_r True v Inr oc show ?thesis by (auto simp: receiver_step_def s Let_def)
    qed
  qed
  then show "0 < n \<and> n \<le> length xs" "receiver_step cb st s (xs @ ys) = Some (s', n)" by auto
qed

section \<open>A receive event is the loop\<close>

text \<open>
  The receiver without its stash: while \<open>run\<close> works, the stash only holds the bytes
  the cursor is walking over. \<open>conclude\<close> is what \<open>run\<close> does behind the last
  complete item, with \<open>left\<close> the bytes that remain.
\<close>

definition bare :: "SubgroupReceiver \<Rightarrow> SubgroupReceiver" where
  "bare r = r\<lparr>sr_stash := []\<rparr>"

definition conclude ::
  "('a plane_scheme) plane_callbacks \<Rightarrow> bool \<Rightarrow> ByteBuffer \<Rightarrow> SubgroupReceiver \<Rightarrow> 'a plane_scheme
     \<Rightarrow> SubgroupReceiver \<times> 'a plane_scheme" where
  "conclude cb fin left r w =
     (if sr_closed r then (r, w)
      else if sr_waiting_for_route r then (r\<lparr>sr_fin_while_pending := sr_fin_while_pending r \<or> fin\<rparr>, w)
      else if \<not> fin then (r, w)
      else if \<not> sr_header_done r then receiver_fail cb ''SUBGROUP_HEADER ended mid-header'' r w
      else if left \<noteq> [] then receiver_fail cb ''subgroup stream ended mid-object'' r w
      else finish_stream True r w)"

lemma bare_simps [simp]:
  "sr_closed (bare r) = sr_closed r" "sr_waiting_for_route (bare r) = sr_waiting_for_route r"
  "sr_header_done (bare r) = sr_header_done r" "sr_route (bare r) = sr_route r"
  "sr_properties_per_object (bare r) = sr_properties_per_object r" "sr_last_object_id (bare r) = sr_last_object_id r"
  "sr_alias (bare r) = sr_alias r" "sr_stash (bare r) = []" "bare (bare r) = bare r"
  by (simp_all add: bare_def)

lemma bare_take [simp]:
  "take_object ob (bare r) = bare (take_object ob r)" "take_header h (bare r) = bare (take_header h r)"
  by (simp_all add: bare_def take_object_def take_header_def Let_def split: option.split)

lemma bare_object [simp]: "subgroup_object st ob ref (bare r) w = subgroup_object st ob ref r w"
  by (simp add: bare_def subgroup_object_def)

lemma bare_fail: "receiver_fail cb e (bare r) w = apfst bare (receiver_fail cb e r w)"
  by (simp add: receiver_fail_def bare_def)

lemma bare_header_parsed: "header_parsed ref (bare r) = bare (header_parsed ref r)"
  by (simp add: header_parsed_def bare_def Let_def)

lemma bare_abandon: "abandon st (bare r) w = apfst bare (abandon st r w)"
  by (simp add: abandon_def bare_def Let_def)

lemma bare_resolve: "resolve_alias cb st (bare r) w = apsnd (apfst bare) (resolve_alias cb st r w)"
  by (simp add: resolve_alias_def bare_fail bare_abandon bare_header_parsed del: append.simps
      split: UnknownAliasPolicy.split option.split prod.split)

text \<open>\<open>parse_object\<close> on a cursor in the middle of a buffer is one round of the loop.\<close>

lemma parse_object_step:
  assumes "\<not> sr_closed r" "\<not> sr_waiting_for_route r" "sr_header_done r"
    and p: "parse_object cb st (standing pre xs) r w = (status, c', r', w')"
  shows "status = NeedMoreData \<Longrightarrow> receiver_step cb st (bare r, w) xs = None \<and> r' = r \<and> w' = w"
    and "status = Error \<Longrightarrow> receiver_step cb st (bare r, w) xs = Some ((bare r', w'), 1) \<and> sr_closed r' \<and> sr_stash r' = sr_stash r"
    and "status = Done \<Longrightarrow> \<exists>us ws. xs = us @ ws \<and> c' = standing (pre @ us) ws \<and>
      receiver_step cb st (bare r, w) xs = Some ((bare r', w'), length us) \<and> \<not> sr_closed r' \<and> sr_stash r' = sr_stash r"
proof -
  let ?p = "parse_object_fields (sr_properties_per_object r) (sr_last_object_id r) (stream_id w st)"
  have nil: "?p (standing [] []) = None" by (rule parse_object_Nil)
  consider (more) "?p (standing pre xs) = None" | (err) e where "?p (standing pre xs) = Some (Inl e)"
    | (ok) ob c where "?p (standing pre xs) = Some (Inr (ob, c))"
    by (cases "?p (standing pre xs)") (auto, metis old.sum.exhaust surj_pair)
  then have "(status = NeedMoreData \<and> receiver_step cb st (bare r, w) xs = None \<and> r' = r \<and> w' = w) \<or>
    (status = Error \<and> receiver_step cb st (bare r, w) xs = Some ((bare r', w'), 1) \<and> sr_closed r' \<and> sr_stash r' = sr_stash r) \<or>
    (status = Done \<and> (\<exists>us ws. xs = us @ ws \<and> c' = standing (pre @ us) ws \<and>
      receiver_step cb st (bare r, w) xs = Some ((bare r', w'), length us) \<and> \<not> sr_closed r' \<and> sr_stash r' = sr_stash r))"
  proof cases
    case more
    then have "?p (standing [] xs) = None" by (rule settled_None [OF settled_object])
    with assms more show ?thesis by (auto simp: parse_object_def receiver_step_def split: if_splits)
  next
    case err
    then have "?p (standing [] xs) = Some (Inl e)" using settled_Inl [OF settled_object err, of "[]" "[]"] by simp
    moreover have "xs \<noteq> []" by (rule object_error_nonempty [OF err])
    ultimately show ?thesis
      using assms err by (auto simp: parse_object_def receiver_step_def receiver_fail_def bare_def)
  next
    case ok
    from object_consumed [OF ok ok] obtain us ws where *: "xs = us @ ws" "c = standing (pre @ us) ws"
      "?p (standing [] xs) = Some (Inr (ob, standing us ws))" by (metis append_Nil append_Nil2)
    moreover have "xs \<noteq> []" by (rule object_error_nonempty [OF ok])
    moreover have "sr_closed (take_object ob r) = sr_closed r" "sr_stash (take_object ob r) = sr_stash r"
      by (simp_all add: take_object_def Let_def)
    ultimately show ?thesis
      using assms ok by (auto simp: parse_object_def receiver_step_def Let_def cong: option.case_cong)
  qed
  then show "status = NeedMoreData \<Longrightarrow> receiver_step cb st (bare r, w) xs = None \<and> r' = r \<and> w' = w"
    and "status = Error \<Longrightarrow> receiver_step cb st (bare r, w) xs = Some ((bare r', w'), 1) \<and> sr_closed r' \<and> sr_stash r' = sr_stash r"
    and "status = Done \<Longrightarrow> \<exists>us ws. xs = us @ ws \<and> c' = standing (pre @ us) ws \<and>
      receiver_step cb st (bare r, w) xs = Some ((bare r', w'), length us) \<and> \<not> sr_closed r' \<and> sr_stash r' = sr_stash r"
    by auto
qed

lemma run_objects_drains:
  assumes "\<not> sr_waiting_for_route r" "sr_header_done r"
    and "run_objects cb st fin (standing pre xs) r w = (c', r', w')"
  shows "\<exists>r1 w1 left. receiver.drains cb st (bare r, w) xs (bare r1, w1) left \<and> same_parking r r1 \<and>
    finish_stream fin r' w' = conclude cb fin left r1 w1 \<and>
    sr_stash r1 = sr_stash r \<and> (\<not> sr_closed r1 \<longrightarrow> (\<exists>us. xs = us @ left \<and> c' = standing (pre @ us) left))"
  using assms
proof (induction "length xs" arbitrary: xs pre r w rule: less_induct)
  case less
  note open_r = less.prems(1,2)
  obtain status c1 r1 w1 where p: "parse_object cb st (standing pre xs) r w = (status, c1, r1, w1)"
    by (metis prod_cases4)
  show ?case
  proof (cases "sr_closed r")
    case True
    then have "receiver_step cb st (bare r, w) xs = None" by (simp add: receiver_step_def)
    then have "receiver.drains cb st (bare r, w) xs (bare r, w) xs" by (rule receiver.drains_stop)
    with True less.prems(3) show ?thesis
      by (intro exI [of _ r] exI [of _ w] exI [of _ xs])
        (auto simp: run_objects.simps finish_stream_def conclude_def)
  next
    case False
    note ps = parse_object_step [OF False open_r p]
    have keep: "same_parking r r1"
      using p by (auto simp: parse_object_def Let_def take_object_def same_parking_def receiver_fail_def
          split: if_splits option.splits sum.splits)
    show ?thesis
    proof (cases status)
      case NeedMoreData
      with ps(1) have d: "receiver.drains cb st (bare r, w) xs (bare r, w) xs" and r1: "r1 = r" "w1 = w"
        by (auto intro: receiver.drains_stop)
      from less.prems(3) False p NeedMoreData r1 have
        "c' = standing pre xs \<and> (r', w') = (if fin \<and> xs \<noteq> []
           then receiver_fail cb ''subgroup stream ended mid-object'' r w else (r, w))"
        by (subst (asm) run_objects.simps) (auto split: if_splits)
      with d False open_r show ?thesis
        by (intro exI [of _ r] exI [of _ w] exI [of _ xs])
          (auto simp: conclude_def finish_stream_def receiver_fail_def split: if_splits)
    next
      case Error
      with ps(2) have s: "receiver_step cb st (bare r, w) xs = Some ((bare r1, w1), 1)" and c: "sr_closed r1" "sr_stash r1 = sr_stash r"
        by auto
      have "receiver.drains cb st (bare r1, w1) (drop 1 xs) (bare r1, w1) (drop 1 xs)"
        using c by (intro receiver.drains_stop) (simp add: receiver_step_def)
      with s have "receiver.drains cb st (bare r, w) xs (bare r1, w1) (drop 1 xs)"
        by (rule receiver.drains_step)
      moreover have "r' = r1" "w' = w1"
        using less.prems(3) False p Error by (subst (asm) run_objects.simps; simp)+
      ultimately show ?thesis
        using c keep by (intro exI [of _ r1] exI [of _ w1] exI [of _ "drop 1 xs"])
          (auto simp: conclude_def finish_stream_def)
    next
      case Done
      from ps(3) [OF Done] obtain us ws where *: "xs = us @ ws" "c1 = standing (pre @ us) ws"
        "receiver_step cb st (bare r, w) xs = Some ((bare r1, w1), length us)" "\<not> sr_closed r1" "sr_stash r1 = sr_stash r"
        by auto
      have "length ws < length xs"
        using receiver.step_progress [OF *(3)] *(1) by simp
      moreover have "\<not> sr_waiting_for_route r1" "sr_header_done r1" using keep open_r by (auto simp: same_parking_def)
      moreover have "run_objects cb st fin (standing (pre @ us) ws) r1 w1 = (c', r', w')"
        using less.prems(3) False p Done *(2) by (subst (asm) run_objects.simps) simp
      ultimately obtain r2 w2 left where IH: "receiver.drains cb st (bare r1, w1) ws (bare r2, w2) left"
        "same_parking r1 r2" "finish_stream fin r' w' = conclude cb fin left r2 w2" "sr_stash r2 = sr_stash r1"
        "\<not> sr_closed r2 \<longrightarrow> (\<exists>us'. ws = us' @ left \<and> c' = standing ((pre @ us) @ us') left)"
        using less.hyps [of ws r1 "pre @ us" w1] by auto
      have "receiver.drains cb st (bare r, w) xs (bare r2, w2) left"
        by (rule receiver.drains_step [OF *(3)]) (use IH(1) *(1) in simp)
      with IH *(1,5) keep show ?thesis
        by (intro exI [of _ r2] exI [of _ w2] exI [of _ left])
          (auto intro: same_parking_trans)
    qed
  qed
qed

definition drained ::
  "('a plane_scheme) plane_callbacks \<Rightarrow> stream_ref \<Rightarrow> bool \<Rightarrow> ByteBuffer \<Rightarrow> ByteBuffer \<Rightarrow> SubgroupReceiver \<Rightarrow> 'a plane_scheme
     \<Rightarrow> Cursor \<times> SubgroupReceiver \<times> 'a plane_scheme \<Rightarrow> bool" where
  "drained cb st fin pre xs r w res \<longleftrightarrow> (case res of (c', rw') \<Rightarrow>
     \<exists>r1 w1 left. receiver.drains cb st (bare r, w) xs (bare r1, w1) left \<and> may_wait r1 \<and>
       rw' = conclude cb fin left r1 w1 \<and> (sr_stash r1 = sr_stash r \<or> sr_closed r1 \<and> sr_stash r1 = []) \<and>
       (\<not> sr_closed r1 \<longrightarrow> (\<exists>us. xs = us @ left \<and> c' = standing (pre @ us) left)))"

lemma drainedE:
  assumes "drained cb st fin pre xs r w (c', r', w')"
  obtains r1 w1 left where "receiver.drains cb st (bare r, w) xs (bare r1, w1) left" "may_wait r1"
    "conclude cb fin left r1 w1 = (r', w')" "sr_stash r1 = sr_stash r \<or> sr_closed r1 \<and> sr_stash r1 = []"
    "\<not> sr_closed r1 \<longrightarrow> (\<exists>us. xs = us @ left \<and> c' = standing (pre @ us) left)"
  using assms unfolding drained_def prod.case by metis

lemma drained_stop:
  assumes "receiver_step cb st (bare r, w) xs = None" "may_wait r" "rw' = conclude cb fin xs r w"
  shows "drained cb st fin pre xs r w (standing pre xs, rw')"
proof -
  have "receiver.drains cb st (bare r, w) xs (bare r, w) xs" by (rule receiver.drains_stop [OF assms(1)])
  with assms(2,3) show ?thesis
    unfolding drained_def prod.case by (intro exI [of _ r] exI [of _ w] exI [of _ xs]) auto
qed

lemma drained_closed:
  assumes s: "receiver_step cb st (bare r, w) xs = Some ((bare r1, w1), n)" and "sr_closed r1" "may_wait r1"
    and "sr_stash r1 = sr_stash r \<or> sr_stash r1 = []"
  shows "drained cb st fin pre xs r w (c, r1, w1)"
proof -
  have "receiver.drains cb st (bare r1, w1) (drop n xs) (bare r1, w1) (drop n xs)"
    using assms(2) by (intro receiver.drains_stop) (simp add: receiver_step_def)
  with s have "receiver.drains cb st (bare r, w) xs (bare r1, w1) (drop n xs)" by (rule receiver.drains_step)
  with assms(2-4) show ?thesis
    unfolding drained_def prod.case
    by (intro exI [of _ r1] exI [of _ w1] exI [of _ "drop n xs"]) (auto simp: conclude_def)
qed

lemma drained_step:
  assumes s: "receiver_step cb st (bare r, w) (us @ xs) = Some ((bare r1, w1), length us)"
    and "sr_stash r1 = sr_stash r" and d: "drained cb st fin (pre @ us) xs r1 w1 res"
  shows "drained cb st fin pre (us @ xs) r w res"
proof -
  obtain c' rw' where res: "res = (c', rw')" by (cases res)
  from d obtain r2 w2 left where *: "receiver.drains cb st (bare r1, w1) xs (bare r2, w2) left" "may_wait r2"
    "rw' = conclude cb fin left r2 w2" "sr_stash r2 = sr_stash r1 \<or> sr_closed r2 \<and> sr_stash r2 = []"
    "\<not> sr_closed r2 \<longrightarrow> (\<exists>us'. xs = us' @ left \<and> c' = standing ((pre @ us) @ us') left)"
    unfolding drained_def res by auto
  have "receiver.drains cb st (bare r, w) (us @ xs) (bare r2, w2) left"
    by (rule receiver.drains_step [OF s]) (use *(1) in simp)
  with * assms(2) show ?thesis
    unfolding drained_def res prod.case by (intro exI [of _ r2] exI [of _ w2] exI [of _ left]) auto
qed

lemma run_body_drained:
  assumes "sr_header_done r" "\<not> sr_closed r"
  shows "drained cb st fin pre xs r w (run_body cb st fin (standing pre xs) r w)"
proof (cases "sr_waiting_for_route r")
  case True
  then show ?thesis
    using assms by (auto simp: run_body_def receiver_step_def may_wait_def conclude_def intro!: drained_stop)
next
  case False
  obtain c' r' w' where ro: "run_objects cb st fin (standing pre xs) r w = (c', r', w')" by (metis prod_cases3)
  from run_objects_drains [OF False assms(1) this] obtain r1 w1 left where *:
    "receiver.drains cb st (bare r, w) xs (bare r1, w1) left" "same_parking r r1"
    "finish_stream fin r' w' = conclude cb fin left r1 w1" "sr_stash r1 = sr_stash r"
    "\<not> sr_closed r1 \<longrightarrow> (\<exists>us. xs = us @ left \<and> c' = standing (pre @ us) left)"
    by blast
  have "may_wait r1" using *(2) False by (simp add: may_wait_def same_parking_def)
  moreover have "run_body cb st fin (standing pre xs) r w = (c', finish_stream fin r' w')"
    using False ro by (simp add: run_body_def)
  ultimately show ?thesis
    unfolding drained_def using * by (simp only: prod.case) blast
qed

lemma resolve_alias_result:
  assumes "resolve_alias cb st r w = (status, r', w')"
  shows "status \<noteq> NeedMoreData" "status = Error \<Longrightarrow> sr_closed r'" "sr_closed r' \<or> sr_header_done r' \<and> sr_stash r' = sr_stash r"
    "sr_stash r' = sr_stash r \<or> sr_stash r' = []"
    "\<not> sr_waiting_for_route r \<Longrightarrow> \<not> sr_closed r \<Longrightarrow> may_wait r'"
proof -
  have "r' = r\<lparr>sr_closed := True\<rparr> \<and> status = Error \<or>
      r' = r\<lparr>sr_closed := True, sr_waiting_for_route := False, sr_stash := []\<rparr> \<and> status = Done \<or>
      (\<exists>ref. r' = header_parsed ref r) \<and> status = Done"
    using assms
    by (cases "sub_unknown_alias_policy (dp_config w)"; cases "find_route (sr_alias r) w")
      (auto simp: resolve_alias_def receiver_fail_def abandon_def simp del: append.simps split: prod.splits if_splits)
  then show "status \<noteq> NeedMoreData" "status = Error \<Longrightarrow> sr_closed r'" "sr_closed r' \<or> sr_header_done r' \<and> sr_stash r' = sr_stash r"
    "sr_stash r' = sr_stash r \<or> sr_stash r' = []"
    "\<not> sr_waiting_for_route r \<Longrightarrow> \<not> sr_closed r \<Longrightarrow> may_wait r'"
    by (auto simp: header_parsed_def Let_def may_wait_def split: if_splits)
qed

lemma run_drained:
  assumes "may_wait r" "\<not> sr_closed r"
  shows "drained cb st fin pre xs r w (run cb st fin (standing pre xs) r w)"
proof (cases "sr_header_done r")
  case True
  then show ?thesis using run_body_drained assms(2) by (simp add: run_def)
next
  case False
  then have nw: "\<not> sr_waiting_for_route r" using assms by (simp add: may_wait_def)
  consider (more) "parse_header_fields (standing pre xs) = None" | (err) e where "parse_header_fields (standing pre xs) = Some (Inl e)"
    | (ok) h c where "parse_header_fields (standing pre xs) = Some (Inr (h, c))"
    by (cases "parse_header_fields (standing pre xs)") (auto, metis old.sum.exhaust surj_pair)
  then show ?thesis
  proof cases
    case more
    then have "parse_header_fields (standing [] xs) = None" by (rule settled_None [OF settled_header])
    then have "receiver_step cb st (bare r, w) xs = None" using False nw assms by (simp add: receiver_step_def)
    with more False nw assms show ?thesis
      by (auto simp: run_def parse_header_def conclude_def intro!: drained_stop)
  next
    case err
    then have "parse_header_fields (standing [] xs) = Some (Inl e)"
      using settled_Inl [OF settled_header err, of "[]" "[]"] by simp
    then have "receiver_step cb st (bare r, w) xs = Some ((bare (r\<lparr>sr_closed := True\<rparr>), cb_protocol_error cb e w), 1)"
      using False nw assms by (simp add: receiver_step_def receiver_fail_def bare_def)
    from drained_closed [OF this] nw show ?thesis
      using err False by (simp add: run_def parse_header_def receiver_fail_def may_wait_def)
  next
    case ok
    from header_consumed [OF ok ok] obtain us ws where *: "xs = us @ ws" "c = standing (pre @ us) ws"
      "parse_header_fields (standing [] xs) = Some (Inr (h, standing us ws))" by (metis append_Nil append_Nil2)
    obtain status r1 w1 where ra: "resolve_alias cb st (take_header h r) w = (status, r1, w1)" by (metis prod_cases3)
    have s: "receiver_step cb st (bare r, w) (us @ ws) = Some ((bare r1, w1), length us)"
      using False nw assms(2) *(1,3) ra by (simp add: receiver_step_def bare_resolve)
    have t: "\<not> sr_waiting_for_route (take_header h r)" "\<not> sr_closed (take_header h r)" "sr_stash (take_header h r) = sr_stash r"
      using nw assms(2) by (simp_all add: take_header_def)
    note rr = resolve_alias_result [OF ra]
    show ?thesis
    proof (cases "sr_closed r1")
      case True
      with drained_closed [OF s this rr(5) [OF t(1,2)]] rr(4) t(3) show ?thesis
        using False ok ra *(1,2) by (simp add: run_def parse_header_def)
    next
      case open_r1: False
      with rr have h1: "sr_header_done r1" "sr_stash r1 = sr_stash r" "status = Done" using t(3) by (cases status; auto)+
      have "run cb st fin (standing pre xs) r w = run_body cb st fin (standing (pre @ us) ws) r1 w1"
        using False ok ra *(1,2) h1(3) open_r1 by (simp add: run_def parse_header_def)
      with drained_step [OF s h1(2) run_body_drained [OF h1(1) open_r1]] *(1) show ?thesis by simp
    qed
  qed
qed

definition settle :: "stream_ref \<Rightarrow> ByteBuffer \<Rightarrow> SubgroupReceiver \<times> 'a plane_scheme \<Rightarrow> SubgroupReceiver \<times> 'a plane_scheme" where
  "settle st left rw = (case rw of (r, w) \<Rightarrow>
     if sr_closed r then (bare r, w) else enforce_pending_buffer_limit st (r\<lparr>sr_stash := left\<rparr>) w)"

lemma conclude_result:
  assumes "conclude cb fin left r w = (r', w')"
  shows "sr_stash r' = sr_stash r" "sr_closed r \<Longrightarrow> r' = r" "may_wait r \<Longrightarrow> may_wait r'"
    "\<not> sr_closed r' \<Longrightarrow> \<not> sr_closed r"
  using assms by (auto simp: conclude_def receiver_fail_def finish_stream_def may_wait_def split: if_splits)

lemma bare_finish: "finish_stream fin (bare r) w = apfst bare (finish_stream fin r w)"
  by (simp add: finish_stream_def bare_def split: option.split bool.split)

lemma conclude_bare: "conclude cb fin left (bare r) w = apfst bare (conclude cb fin left r w)"
  by (simp add: conclude_def bare_fail bare_finish del: append.simps) (simp add: bare_def)

lemma settle_bare: "settle st left (bare r, w) = settle st left (r, w)"
  by (simp add: settle_def bare_def)

text \<open>Both paths of \<open>on_receive\<close> are the loop on the stash and the new bytes.\<close>

lemma on_receive_drains:
  assumes "dp_receivers w st = Some r" "\<not> sr_closed r" "may_wait r"
  shows "\<exists>r1 w1 left. receiver.drains cb st (bare r, w) (sr_stash r @ concat chunks) (bare r1, w1) left \<and>
    may_wait r1 \<and> on_receive cb st chunks fin w = put_receiver st (settle st left (conclude cb fin left (bare r1) w1))"
proof (cases "sr_stash r = [] \<and> (\<exists>chunk. chunks = [chunk])")
  case True
  then obtain chunk where c: "sr_stash r = []" "chunks = [chunk]" by blast
  obtain c' r' w' where run: "run cb st fin (standing [] chunk) r w = (c', r', w')" by (metis prod_cases3)
  from run_drained [OF assms(3,2), of cb st fin "[]" chunk w] run
  have "drained cb st fin [] chunk r w (c', r', w')" by simp
  then obtain r1 w1 left where *: "receiver.drains cb st (bare r, w) chunk (bare r1, w1) left" "may_wait r1"
    "conclude cb fin left r1 w1 = (r', w')" "sr_stash r1 = sr_stash r \<or> sr_closed r1 \<and> sr_stash r1 = []"
    "\<not> sr_closed r1 \<longrightarrow> (\<exists>us. chunk = us @ left \<and> c' = standing ([] @ us) left)"
    by (rule drainedE)
  from *(4) c(1) have stash: "sr_stash r1 = []" by auto
  note cr = conclude_result [OF *(3)]
  have "receive_in_place cb st chunk fin r w = settle st left (r', w')"
  proof (cases "sr_closed r'")
    case True
    then have "\<not> sr_waiting_for_route r'" using cr(3) [OF *(2)] by (simp add: may_wait_def)
    moreover have "bare r' = r'" using cr(1) stash by (simp add: bare_def)
    ultimately show ?thesis
      using True run by (simp add: receive_in_place_def standing_start settle_def enforce_pending_buffer_limit_def)
  next
    case False
    from *(5) cr(4) [OF False] obtain us where us: "chunk = us @ left" "c' = standing us left" by auto
    have "(if remaining c' \<noteq> 0 then r'\<lparr>sr_stash := left\<rparr> else r') = r'\<lparr>sr_stash := left\<rparr>"
      using us cr(1) stash by (cases left) auto
    moreover have "drop (cur_offset c') (cur_bytes c') = left" unfolding us(2) by (simp add: standing_def)
    ultimately show ?thesis
      using False run by (cases "remaining c' = 0") (simp_all add: receive_in_place_def standing_start settle_def)
  qed
  then have "on_receive cb st chunks fin w = put_receiver st (settle st left (conclude cb fin left (bare r1) w1))"
    using assms c *(3) by (simp add: on_receive_def conclude_bare settle_bare)
  with *(1,2) c show ?thesis by (intro exI [of _ r1] exI [of _ w1] exI [of _ left]) simp
next
  case False
  let ?r = "r\<lparr>sr_stash := sr_stash r @ concat chunks\<rparr>"
  have or: "on_receive cb st chunks fin w = put_receiver st (receive_stashed cb st chunks fin r w)"
    using assms False by (cases "sr_stash r"; cases chunks rule: remdups_adj.cases) (auto simp: on_receive_def)
  obtain c' r' w' where run: "run cb st fin (standing [] (sr_stash ?r)) ?r w = (c', r', w')" by (metis prod_cases3)
  from assms have ok: "may_wait ?r" "\<not> sr_closed ?r" by simp_all
  from run_drained [OF ok, of cb st fin "[]" "sr_stash ?r" w] run
  have "drained cb st fin [] (sr_stash ?r) ?r w (c', r', w')" by simp
  then obtain r1 w1 left where *: "receiver.drains cb st (bare ?r, w) (sr_stash ?r) (bare r1, w1) left" "may_wait r1"
    "conclude cb fin left r1 w1 = (r', w')" "sr_stash r1 = sr_stash ?r \<or> sr_closed r1 \<and> sr_stash r1 = []"
    "\<not> sr_closed r1 \<longrightarrow> (\<exists>us. sr_stash ?r = us @ left \<and> c' = standing ([] @ us) left)"
    by (rule drainedE)
  note cr = conclude_result [OF *(3)]
  have "receive_stashed cb st chunks fin r w = settle st left (r', w')"
  proof (cases "sr_closed r'")
    case True
    with run show ?thesis by (simp add: receive_stashed_def standing_start settle_def bare_def)
  next
    case False
    have "sr_stash r' = sr_stash ?r" using *(4) cr(1) cr(4) [OF False] by auto
    moreover from *(5) cr(4) [OF False] obtain us where "sr_stash ?r = us @ left" "c' = standing us left" by auto
    ultimately show ?thesis using False run by (simp add: receive_stashed_def standing_start settle_def)
  qed
  moreover have "bare ?r = bare r" by (simp add: bare_def)
  ultimately show ?thesis
    using or *(1-3) by (intro exI [of _ r1] exI [of _ w1] exI [of _ left]) (simp add: conclude_bare settle_bare)
qed

section \<open>Fragmentation\<close>

lemma put_receiver_twice:
  "put_receiver st (r, (put_receiver st (r0, w0))\<lparr>tp_log := l\<rparr>) = put_receiver st (r, w0\<lparr>tp_log := l\<rparr>)"
  by (simp add: put_receiver_def)

context plane_client
begin

definition on_receivers :: "(stream_ref \<rightharpoonup> SubgroupReceiver) \<Rightarrow> SubgroupReceiver \<times> 'a plane_scheme \<Rightarrow> SubgroupReceiver \<times> 'a plane_scheme" where
  "on_receivers R rw = (fst rw, (snd rw)\<lparr>dp_receivers := R\<rparr>)"

lemma on_receivers_pair [simp]: "on_receivers R (r, w) = (r, w\<lparr>dp_receivers := R\<rparr>)"
  by (simp add: on_receivers_def)

lemma fail_commute: "receiver_fail cb e r (w\<lparr>dp_receivers := R\<rparr>) = on_receivers R (receiver_fail cb e r w)"
  by (simp add: receiver_fail_def commute_callbacks)

lemma discard_commute:
  "discard_pending_subgroup a st (w\<lparr>dp_receivers := R\<rparr>) = (discard_pending_subgroup a st w)\<lparr>dp_receivers := R\<rparr>"
  by (simp add: discard_pending_subgroup_def Let_def split: option.split)

lemma abandon_commute: "abandon st r (w\<lparr>dp_receivers := R\<rparr>) = on_receivers R (abandon st r w)"
  by (simp add: abandon_def Let_def discard_commute quiet_commute [OF quiet_abort_receive])

lemma resolve_commute:
  "resolve_alias cb st r (w\<lparr>dp_receivers := R\<rparr>) = apsnd (on_receivers R) (resolve_alias cb st r w)"
  by (cases "sub_unknown_alias_policy (dp_config w)"; cases "dp_routes_by_alias w (sr_alias r)")
    (simp_all add: resolve_alias_def find_route_def find_or_park_subgroup_def fail_commute abandon_commute Let_def
      del: append.simps)

lemma step_commute:
  "receiver_step cb st (on_receivers R rw) xs = map_option (apfst (on_receivers R)) (receiver_step cb st rw xs)"
proof -
  obtain r w where rw: "rw = (r, w)" by (cases rw)
  have [simp]: "stream_id (w\<lparr>dp_receivers := R\<rparr>) st = stream_id w st"
    "subgroup_object st ob ref r' (w\<lparr>dp_receivers := R\<rparr>) = subgroup_object st ob ref r' w" for ob ref r'
    by (simp_all add: stream_id_def subgroup_object_def route_request_def)
  show ?thesis
  proof (cases "sr_header_done r")
    case False
    then show ?thesis
      unfolding rw receiver_step_def on_receivers_pair prod.case
      by (cases "parse_header_fields (standing [] xs)")
        (auto simp: fail_commute resolve_commute split: sum.split)
  next
    case True
    then show ?thesis
      unfolding rw receiver_step_def on_receivers_pair prod.case
      by (cases "parse_object_fields (sr_properties_per_object r) (sr_last_object_id r) (stream_id w st) (standing [] xs)")
        (auto simp: fail_commute Let_def quiet_commute [OF quiet_deliver] split: sum.split option.split)
  qed
qed

lemma drains_commute:
  "receiver.drains cb st rw xs rw' left \<Longrightarrow> receiver.drains cb st (on_receivers R rw) xs (on_receivers R rw') left"
proof (induction rule: receiver.drains.induct)
  case (drains_stop s xs)
  then show ?case by (intro receiver.drains_stop) (simp add: step_commute)
next
  case (drains_step s xs s1 n s' r)
  from drains_step.hyps(1) have "receiver_step cb st (on_receivers R s) xs = Some (on_receivers R s1, n)"
    by (simp add: step_commute)
  from receiver.drains_step [OF this drains_step.IH] show ?case .
qed

lemma drains_receivers:
  assumes "receiver.drains cb st (r, w) xs (r', w') left"
  shows "dp_receivers w' = dp_receivers w"
proof -
  have "receiver.drains cb st (r, w) xs (r', w'\<lparr>dp_receivers := dp_receivers w\<rparr>) left"
    using drains_commute [OF assms, of "dp_receivers w"] by simp
  from receiver.drains_deterministic [OF assms this] have "w'\<lparr>dp_receivers := dp_receivers w\<rparr> = w'" by simp
  then have "dp_receivers (w'\<lparr>dp_receivers := dp_receivers w\<rparr>) = dp_receivers w'" by (rule arg_cong)
  then show ?thesis by simp
qed

lemma finish_commute: "finish_stream fin r (w\<lparr>dp_receivers := R\<rparr>) = on_receivers R (finish_stream fin r w)"
  by (simp add: finish_stream_def quiet_commute [OF quiet_update_route [OF route_ages_set_final]]
      split: option.split bool.split)

lemma conclude_commute:
  "conclude cb fin left r (w\<lparr>dp_receivers := R\<rparr>) = on_receivers R (conclude cb fin left r w)"
  by (simp add: conclude_def fail_commute finish_commute del: append.simps)

lemma settle_commute: "settle st left (on_receivers R rw) = on_receivers R (settle st left rw)"
  by (cases rw) (simp add: settle_def enforce_pending_buffer_limit_def abandon_commute)

lemma put_commute:
  "put_receiver st (on_receivers ((dp_receivers w)(st \<mapsto> r)) rw) = put_receiver st (on_receivers (dp_receivers w) rw)"
  by (cases rw) (simp add: put_receiver_def)

text \<open>Two receive events in a row are one event with all their chunks, unless the stream is parked in between.\<close>

lemma on_receive_append:
  assumes r: "dp_receivers w st = Some r" "may_wait r"
    and free: "\<And>r'. dp_receivers (on_receive cb st cs False w) st = Some r' \<Longrightarrow>
      \<not> sr_closed r' \<and> \<not> sr_waiting_for_route r'"
  shows "on_receive cb st ds fin (on_receive cb st cs False w) = on_receive cb st (cs @ ds) fin w"
proof (cases "sr_closed r")
  case True
  with r show ?thesis by (simp add: on_receive_def)
next
  case False
  obtain r1 w1 left where 1: "receiver.drains cb st (bare r, w) (sr_stash r @ concat cs) (bare r1, w1) left" "may_wait r1"
    "on_receive cb st cs False w = put_receiver st (settle st left (conclude cb False left (bare r1) w1))"
    using on_receive_drains [OF r(1) False r(2)] by blast
  obtain r2 w2 left2 where 2: "receiver.drains cb st (bare r, w) (sr_stash r @ concat (cs @ ds)) (bare r2, w2) left2"
    "on_receive cb st (cs @ ds) fin w = put_receiver st (settle st left2 (conclude cb fin left2 (bare r2) w2))"
    using on_receive_drains [OF r(1) False r(2)] by blast
  have w1: "dp_receivers w1 = dp_receivers w" using drains_receivers [OF 1(1)] .
  have stop: "receiver.drains cb st (bare r1, w1) (left @ concat ds) (bare r2, w2) left2"
  proof -
    obtain r3 w3 left3 where d: "receiver.drains cb st (bare r1, w1) (left @ concat ds) (r3, w3) left3"
      using receiver.drains_total by (metis surj_pair)
    from receiver.drains_append [OF 1(1) this] 2(1) have "(bare r2, w2) = (r3, w3) \<and> left2 = left3"
      by (auto dest: receiver.drains_deterministic)
    with d show ?thesis by simp
  qed
  obtain rs ws where settled: "settle st left (conclude cb False left (bare r1) w1) = (rs, ws)" by fastforce
  then have "\<not> sr_closed rs \<and> \<not> sr_waiting_for_route rs"
    using free 1(3) by (simp add: put_receiver_def)
  with settled have open_r1: "\<not> sr_closed r1" "\<not> sr_waiting_for_route r1"
    by (auto simp: settle_def conclude_def enforce_pending_buffer_limit_def abandon_def Let_def split: if_splits)
  let ?r = "r1\<lparr>sr_stash := left\<rparr>"
  let ?R = "(dp_receivers w)(st \<mapsto> ?r)"
  let ?w = "w1\<lparr>dp_receivers := ?R\<rparr>"
  have bare: "bare ?r = bare r1" "(bare r1)\<lparr>sr_stash := left\<rparr> = ?r" by (simp_all add: bare_def)
  have first: "on_receive cb st cs False w = ?w"
    using 1(3) open_r1 w1 bare(2)
    by (simp add: settle_def conclude_def enforce_pending_buffer_limit_def put_receiver_def)
  have "dp_receivers ?w st = Some ?r" "\<not> sr_closed ?r" "may_wait ?r" using open_r1 1(2) by simp_all
  from on_receive_drains [OF this, of cb ds fin] obtain r4 w4 left4 where 4:
    "receiver.drains cb st (bare r1, ?w) (left @ concat ds) (bare r4, w4) left4"
    "on_receive cb st ds fin ?w = put_receiver st (settle st left4 (conclude cb fin left4 (bare r4) w4))"
    unfolding bare(1) by auto
  have "receiver.drains cb st (bare r1, ?w) (left @ concat ds) (bare r2, w2\<lparr>dp_receivers := ?R\<rparr>) left2"
    using drains_commute [OF stop, of ?R] by simp
  from receiver.drains_deterministic [OF this 4(1)]
  have e: "bare r4 = bare r2" "w4 = w2\<lparr>dp_receivers := ?R\<rparr>" "left4 = left2" by simp_all
  have "w2\<lparr>dp_receivers := dp_receivers w\<rparr> = w2"
    using drains_receivers [OF 2(1)] by simp
  then have "settle st left2 (conclude cb fin left2 (bare r2) w2) =
      on_receivers (dp_receivers w) (settle st left2 (conclude cb fin left2 (bare r2) w2))"
    by (metis conclude_commute settle_commute)
  then show ?thesis
    unfolding first 4(2) 2(2) e conclude_commute settle_commute put_commute by simp
qed

end

end
