(* ===== verification/Subscriber_Plane.thy ===== *)
theory Subscriber_Plane
  imports Subscriber Subgroup_Stream
begin

text \<open>
  The subscriber meets the contract \<open>plane_client\<close> of its data plane: whatever a callback
  does, up to closing the session from inside \<open>on_object\<close>, it only retires routes.
  The interpretation carries the facts about the data plane over to the subscriber.
\<close>

section \<open>The callbacks are quiet\<close>

lemma quiet_fail: "quiet (Session.fail p e)"
  by (rule quietI) (auto simp: Session.fail_def plane_frame_def)

lemma quiet_fail_all: "quiet (fail_all ps e)"
proof (induction ps)
  case (Cons p ps)
  from quiet_comp [OF Cons quiet_fail [of p e]] show ?case by simp
qed simp

lemma quiet_put_request: "quiet (put_request request_id rq)"
  by (rule quietI) (auto simp: put_request_def plane_frame_def)

lemma quiet_subscriptions: "quiet (\<lambda>w. w\<lparr>sb_subscriptions := f (sb_subscriptions w)\<rparr>)"
  by (rule quietI) (auto simp: plane_frame_def)

lemma quiet_abort_send: "quiet (abort_send st code)"
  by (rule quietI) (auto simp: abort_send_def has_handle_def emit_def plane_frame_def split: option.split)

lemma quiet_set_sink: "quiet (set_sink st k)"
  by (rule quietI) (auto simp: set_sink_def plane_frame_def)

lemma quiet_option: "quiet f \<Longrightarrow> (\<And>x. quiet (g x)) \<Longrightarrow> quiet (\<lambda>w. case v of None \<Rightarrow> f w | Some x \<Rightarrow> g x w)"
  by (cases v) simp_all

lemma quiet_const_if: "quiet f \<Longrightarrow> quiet g \<Longrightarrow> quiet (\<lambda>w. if b then f w else g w)"
  by (cases b) simp_all

text \<open>An action chosen by something the receivers do not enter.\<close>

lemma quiet_read:
  assumes "\<And>w R. h (w\<lparr>dp_receivers := R\<rparr>) = h w" and g: "\<And>x. quiet (g x)"
  shows "quiet (\<lambda>w. g (h w) w)"
  by (rule quietI) (simp_all add: assms(1) quiet_commute [OF g] quiet_frame [OF g])

lemma quiet_terminate: "quiet (terminate request_id reason)"
proof -
  have live: "quiet (\<lambda>w.
      let w = (case rq_result rq of None \<Rightarrow> w | Some p \<Rightarrow> Session.fail p e1 w);
          w = fail_updates e2 rq w;
          w = put_request request_id rq' w;
          w = (case rq_track_alias rq of None \<Rightarrow> w | Some a \<Rightarrow> retire_route a w);
          w = w\<lparr>sb_subscriptions := removeAll request_id (sb_subscriptions w)\<rparr>
      in if reason \<noteq> [] then emit (OnError request_id reason) w else w)" for rq e1 e2 and rq' :: SubscriptionRequest
    unfolding Let_def fail_updates_def
    by (rule quiet_comp [OF quiet_const_if [OF quiet_emit quiet_id]
          quiet_comp [OF quiet_subscriptions [of "removeAll request_id"]
          quiet_comp [OF quiet_option [OF quiet_id quiet_retire_route]
          quiet_comp [OF quiet_put_request quiet_comp [OF quiet_fail_all quiet_option [OF quiet_id quiet_fail]]]]]])
  have "quiet (\<lambda>w. case sb_requests w request_id of None \<Rightarrow> w | Some rq \<Rightarrow>
          if rq_phase rq = Sub_Terminated then w
          else
            let w = (case rq_result rq of
                       None \<Rightarrow> w
                     | Some p \<Rightarrow> Session.fail p (rejected_exception RequestError_InternalError 0
                                   (if reason = [] then ''subscription terminated'' else reason)) w);
                w = fail_updates (PError (if reason = [] then ''subscription terminated before REQUEST_UPDATE completed''
                                          else reason)) rq w;
                w = put_request request_id (rq\<lparr>rq_result := None, rq_updates := [], rq_phase := Sub_Terminated\<rparr>) w;
                w = (case rq_track_alias rq of None \<Rightarrow> w | Some track_alias \<Rightarrow> retire_route track_alias w);
                w = w\<lparr>sb_subscriptions := removeAll request_id (sb_subscriptions w)\<rparr>
            in if reason \<noteq> [] then emit (OnError request_id reason) w else w)"
    by (rule quiet_read [of "\<lambda>w. sb_requests w request_id"])
      (simp, intro quiet_option quiet_id quiet_const_if live)
  then show ?thesis unfolding terminate_def by simp
qed

lemma quiet_terminate_all: "quiet (terminate_all request_ids reason)"
proof (induction request_ids)
  case (Cons request_id request_ids)
  from quiet_comp [OF Cons quiet_terminate [of request_id reason]] show ?case by simp
qed simp

lemma quiet_terminate_subscriptions: "quiet (terminate_subscriptions reason)"
proof -
  have "quiet (\<lambda>w. terminate_all (sb_subscriptions w) reason w)"
    by (rule quiet_read [of "\<lambda>w. sb_subscriptions w"]) (simp_all add: quiet_terminate_all)
  then show ?thesis unfolding terminate_subscriptions_def by simp
qed

lemma quiet_fail_ready_waiters: "quiet (fail_ready_waiters reason)"
proof -
  have "quiet (\<lambda>w. w\<lparr>se_ready_waiters := []\<rparr>)" by (rule quietI) (auto simp: plane_frame_def)
  moreover have "quiet (\<lambda>w. fail_all (se_ready_waiters w) (PError reason) w)"
    by (rule quiet_read [of "\<lambda>w. se_ready_waiters w"]) (simp_all add: quiet_fail_all)
  ultimately show ?thesis unfolding fail_ready_waiters_def by (rule quiet_comp)
qed

lemma quiet_begin_close:
  assumes t: "\<And>reason. quiet (t reason)"
  shows "quiet (begin_close t code reason)"
proof -
  have sd: "quiet (\<lambda>w. if tp_alive w then shutdown code w else w)"
    by (rule quietI) (auto simp: shutdown_def emit_def plane_frame_def)
  have up: "quiet (\<lambda>w. w\<lparr>se_phase := Closing, se_close_reason := Some (code, reason)\<rparr>)"
    by (rule quietI) (auto simp: plane_frame_def)
  show ?thesis
    unfolding begin_close_def Let_def
    by (rule quiet_if [OF _ quiet_id quiet_comp [OF sd quiet_comp [OF t quiet_comp [OF quiet_fail_ready_waiters up]]]]) simp
qed

lemmas quiet_close = quiet_begin_close [OF quiet_terminate_subscriptions]

lemma stop_subscription_now_read:
  "stop_subscription_now request_id reason code =
    (\<lambda>w. case (if request_id \<in> set (sb_subscriptions w) then sb_requests w request_id else None) of
      None \<Rightarrow> w
    | Some rq \<Rightarrow> abort_receive (rq_stream rq) code (abort_send (rq_stream rq) code (terminate request_id reason w)))"
  by (rule ext) (simp add: stop_subscription_now_def)

lemma quiet_stop: "quiet (stop_subscription_now request_id reason code)"
  unfolding stop_subscription_now_read
  by (rule quiet_read [of "\<lambda>w. if request_id \<in> set (sb_subscriptions w) then sb_requests w request_id else None"])
    (simp, intro quiet_option quiet_id quiet_comp [OF quiet_abort_receive quiet_comp [OF quiet_abort_send quiet_terminate]])

text \<open>The same for actions with a result.\<close>

definition quiet_result :: "('a plane_scheme \<Rightarrow> 'r \<times> 'a plane_scheme) \<Rightarrow> bool" where
  "quiet_result f \<longleftrightarrow> (\<forall>w R. f (w\<lparr>dp_receivers := R\<rparr>) = apsnd (\<lambda>w. w\<lparr>dp_receivers := R\<rparr>) (f w)) \<and>
     (\<forall>w. plane_frame w (snd (f w)))"

lemma quiet_resultI:
  "(\<And>w R. f (w\<lparr>dp_receivers := R\<rparr>) = apsnd (\<lambda>w. w\<lparr>dp_receivers := R\<rparr>) (f w)) \<Longrightarrow> (\<And>w. plane_frame w (snd (f w)))
     \<Longrightarrow> quiet_result f"
  by (simp add: quiet_result_def)

lemma quiet_bind:
  assumes f: "quiet_result f" and g: "\<And>x. quiet (g x)"
  shows "quiet (\<lambda>w. case f w of (x, w) \<Rightarrow> g x w)"
proof (rule quietI)
  show "(case f (w\<lparr>dp_receivers := R\<rparr>) of (x, w) \<Rightarrow> g x w) = (case f w of (x, w) \<Rightarrow> g x w)\<lparr>dp_receivers := R\<rparr>" for w R
    using f by (simp add: quiet_result_def quiet_commute [OF g] split: prod.split)
  show "plane_frame w (case f w of (x, w) \<Rightarrow> g x w)" for w
    using f [unfolded quiet_result_def, THEN conjunct2, rule_format, of w]
    by (auto intro: plane_frame_trans quiet_frame [OF g] split: prod.split)
qed

lemma quiet_result_bind:
  assumes f: "quiet_result f" and g: "\<And>x. quiet_result (g x)"
  shows "quiet_result (\<lambda>w. case f w of (x, w) \<Rightarrow> g x w)"
proof (rule quiet_resultI)
  show "(case f (w\<lparr>dp_receivers := R\<rparr>) of (x, w) \<Rightarrow> g x w) = apsnd (\<lambda>w. w\<lparr>dp_receivers := R\<rparr>) (case f w of (x, w) \<Rightarrow> g x w)" for w R
    using f g by (simp add: quiet_result_def split: prod.split)
  show "plane_frame w (snd (case f w of (x, w) \<Rightarrow> g x w))" for w
    using f [unfolded quiet_result_def, THEN conjunct2, rule_format, of w]
      g [unfolded quiet_result_def, THEN conjunct2, rule_format]
    by (auto intro: plane_frame_trans split: prod.split)
qed

lemma quiet_result_const: "quiet f \<Longrightarrow> quiet_result (\<lambda>w. (x, f w))"
  by (rule quiet_resultI) (simp_all add: quiet_commute quiet_frame)

lemma quiet_result_allocate: "quiet_result allocate_request_id"
  by (rule quiet_resultI) (auto simp: allocate_request_id_def plane_frame_def)

lemma quiet_result_promise: "quiet_result new_promise"
  by (rule quiet_resultI) (auto simp: new_promise_def plane_frame_def)

lemma quiet_result_send: "quiet_result (send st bytes fin)"
  by (rule quiet_resultI) (auto simp: send_def has_handle_def quic_call_def emit_def plane_frame_def split: option.split)

lemma quiet_result_open: "quiet_result (open_stream uni)"
  by (rule quiet_resultI)
    (auto simp: open_stream_def quic_call_def quic_status_def new_stream_def close_handle_def remove_stream_def
      emit_def plane_frame_def Let_def simp del: append.simps)

lemma quiet_result_sum:
  "(\<And>e. quiet_result (f e)) \<Longrightarrow> (\<And>x. quiet_result (g x)) \<Longrightarrow>
     quiet_result (\<lambda>w. case v of Inl e \<Rightarrow> f e w | Inr x \<Rightarrow> g x w)"
  by (cases v) simp_all

lemma quiet_sum:
  "(\<And>e. quiet (f e)) \<Longrightarrow> (\<And>x. quiet (g x)) \<Longrightarrow> quiet (\<lambda>w. case v of Inl e \<Rightarrow> f e w | Inr x \<Rightarrow> g x w)"
  by (cases v) simp_all

lemma quiet_result_bool: "quiet_result f \<Longrightarrow> quiet_result g \<Longrightarrow> quiet_result (\<lambda>w. case b of True \<Rightarrow> f w | False \<Rightarrow> g w)"
  by (cases b) simp_all

lemma quiet_result_comp: "quiet_result g \<Longrightarrow> quiet f \<Longrightarrow> quiet_result (\<lambda>w. g (f w))"
  by (rule quiet_resultI) (auto simp: quiet_result_def quiet_commute intro: plane_frame_trans quiet_frame)

text \<open>Entering a request: the state before SUBSCRIBE is encoded and sent.\<close>

definition enter_request :: "RequestId \<Rightarrow> stream_ref \<Rightarrow> promise \<Rightarrow> 'a subscriber_scheme \<Rightarrow> 'a subscriber_scheme" where
  "enter_request request_id st p w =
     (let w = put_request request_id (new_request st p) w;
          w = set_sink st (Some (SubscriberRequestSink request_id)) w
      in w\<lparr>sb_subscriptions := sb_subscriptions w @ [request_id]\<rparr>)"

lemma quiet_enter: "quiet (enter_request request_id st p)"
  unfolding enter_request_def Let_def
  by (rule quiet_comp [OF quiet_subscriptions [of "\<lambda>l. l @ [request_id]"] quiet_comp [OF quiet_set_sink quiet_put_request]])

definition send_entered :: "RequestId \<Rightarrow> stream_ref \<Rightarrow> SubscribeRequest \<Rightarrow> 'a subscriber_scheme \<Rightarrow> exn option \<times> 'a subscriber_scheme" where
  "send_entered request_id st request w =
     (case encode_subscribe request_id request of
        Inl e \<Rightarrow> (Some e, w)
      | Inr bytes \<Rightarrow>
          (case send st bytes False w of (ok, w) \<Rightarrow>
             (case ok of True \<Rightarrow> (None, w)
              | False \<Rightarrow> (Some (runtime_error ''StreamSend failed for SUBSCRIBE''),
                   stop_subscription_now request_id ''StreamSend failed for SUBSCRIBE'' 0 w))))"

lemma quiet_send_entered: "quiet_result (send_entered request_id st request)"
  unfolding send_entered_def
  by (intro quiet_result_sum quiet_result_bind [OF quiet_result_send] quiet_result_bool quiet_result_const quiet_id quiet_stop)

lemma send_subscribe_eq:
  "send_subscribe p request = (\<lambda>w. case allocate_request_id w of (x, w) \<Rightarrow>
     case x of Inl e \<Rightarrow> (Some e, w)
     | Inr request_id \<Rightarrow> (case open_stream False w of (y, w) \<Rightarrow>
         case y of Inl e \<Rightarrow> (Some e, w) | Inr st \<Rightarrow> send_entered request_id st request (enter_request request_id st p w)))"
  by (rule ext) (simp add: send_subscribe_def send_entered_def enter_request_def Let_def
      split: prod.split sum.split bool.split)

lemma quiet_send_subscribe: "quiet_result (send_subscribe p request)"
  unfolding send_subscribe_eq
  by (intro quiet_result_bind [OF quiet_result_allocate] quiet_result_bind [OF quiet_result_open] quiet_result_sum
      quiet_result_const quiet_id quiet_result_comp [OF quiet_send_entered quiet_enter])

lemma subscribe_eq:
  "snd (subscribe request handler w) = (case new_promise w of (p, w) \<Rightarrow>
     if \<not> handler then Session.fail p (PError ''SUBSCRIBE requires an ObjectHandler'') w
     else if se_phase w \<noteq> Ready then Session.fail p (PError ''MOQT session is not ready for SUBSCRIBE'') w
     else case send_subscribe p request w of (e, w) \<Rightarrow>
       (case e of None \<Rightarrow> w | Some e \<Rightarrow> Session.fail p (PError (exn_what e)) w))"
  by (simp add: subscribe_def split: prod.split option.split)

lemma quiet_subscribe: "quiet (\<lambda>w. snd (subscribe request handler w))"
  unfolding subscribe_eq
  by (intro quiet_bind [OF quiet_result_promise] quiet_const_if quiet_fail quiet_if
      quiet_bind [OF quiet_send_subscribe] quiet_option quiet_id) simp

lemma send_request_update_eq:
  "send_request_update request_id allocated update p = (\<lambda>w. case sb_requests w request_id of
     None \<Rightarrow> (None, w)
   | Some rq \<Rightarrow> (case encode_request_update allocated update of
       Inl e \<Rightarrow> (Some e, w)
     | Inr bytes \<Rightarrow> (case send (rq_stream rq) bytes False w of (ok, w) \<Rightarrow>
         (case ok of True \<Rightarrow> (None, put_request request_id (rq\<lparr>rq_updates := rq_updates rq @ [p]\<rparr>) w)
          | False \<Rightarrow> (Some (runtime_error ''StreamSend failed for REQUEST_UPDATE''), w)))))"
  by (rule ext) (simp add: send_request_update_def split: option.split sum.split prod.split bool.split)

lemma quiet_result_read:
  assumes "\<And>w R. h (w\<lparr>dp_receivers := R\<rparr>) = h w" and g: "\<And>x. quiet_result (g x)"
  shows "quiet_result (\<lambda>w. g (h w) w)"
  using g by (auto simp: quiet_result_def assms(1))

lemma quiet_result_option:
  "quiet_result f \<Longrightarrow> (\<And>x. quiet_result (g x)) \<Longrightarrow> quiet_result (\<lambda>w. case v of None \<Rightarrow> f w | Some x \<Rightarrow> g x w)"
  by (cases v) simp_all

lemma quiet_send_request_update: "quiet_result (send_request_update request_id allocated update p)"
  unfolding send_request_update_eq
  by (rule quiet_result_read [of "\<lambda>w. sb_requests w request_id"])
    (simp, intro quiet_result_option quiet_result_sum quiet_result_bind [OF quiet_result_send] quiet_result_bool
      quiet_result_const quiet_id quiet_put_request)

lemma request_update_eq:
  "snd (request_update request_id update w) = (case new_promise w of (p, w) \<Rightarrow>
     if request_id \<notin> set (sb_subscriptions w) \<or> request_phase request_id w \<noteq> Sub_Established
     then Session.fail p (PError ''REQUEST_UPDATE requires an established subscription'') w
     else case allocate_request_id w of (x, w) \<Rightarrow>
       (case x of Inl e \<Rightarrow> Session.fail p (PError (exn_what e)) w
        | Inr allocated \<Rightarrow> (case send_request_update request_id allocated update p w of (e, w) \<Rightarrow>
            (case e of None \<Rightarrow> w | Some e \<Rightarrow> Session.fail p (PError (exn_what e)) w))))"
  by (simp add: request_update_def split: prod.split option.split sum.split)

lemma quiet_request_update: "quiet (\<lambda>w. snd (request_update request_id update w))"
  unfolding request_update_eq
  by (intro quiet_bind [OF quiet_result_promise] quiet_if quiet_fail quiet_bind [OF quiet_result_allocate] quiet_sum
      quiet_bind [OF quiet_send_request_update] quiet_option quiet_id) (simp add: request_phase_def)

lemma quiet_app_step: "quiet (app_step c)"
proof (cases c)
  case (CallSubscribe request)
  then show ?thesis using quiet_subscribe [of request True] by (simp add: quiet_def)
next
  case (CallUpdate request_id update)
  then show ?thesis using quiet_request_update [of request_id update] by (simp add: quiet_def)
next
  case (CallStop request_id)
  then show ?thesis using quiet_stop [of request_id] by (simp add: quiet_def stop_subscription_def)
next
  case (CallClose code)
  then show ?thesis using quiet_close by (simp add: quiet_def close_def)
qed

lemma quiet_app_steps: "quiet (app_steps cs)"
proof (induction cs)
  case (Cons c cs)
  from quiet_comp [OF Cons quiet_app_step [of c]] show ?case by simp
qed simp

lemma quiet_on_object: "quiet (on_object ob)"
proof -
  have "quiet (\<lambda>w. app_steps (sb_app w ob) (emit (OnObject ob) w))"
    by (rule quiet_read [of "\<lambda>w. sb_app w ob"]) (simp, rule quiet_comp [OF quiet_app_steps quiet_emit])
  then show ?thesis by (simp add: quiet_def on_object_def)
qed

interpretation sub: plane_client callbacks
proof unfold_locales
  show "quiet (cb_protocol_error callbacks e)" for e
    using quiet_close by (simp add: callbacks_def quiet_def protocol_violation_def)
  show "quiet (cb_track_error callbacks request_id e)" for request_id e
    by (simp add: callbacks_def quiet_stop)
  show "quiet (cb_on_object callbacks ob)" for ob
    by (simp add: callbacks_def quiet_on_object)
qed

end
