(* ===== verification/Plane_Lifting.thy ===== *)
theory Plane_Lifting
  imports Data_Plane
begin

text \<open>
  Lifting an invariant through the data plane. A client's invariant that survives its own
  callbacks and does not depend on the buffers, the receivers or the final objects of a route
  survives every entry point of the data plane, however many objects it delivers.
\<close>

locale plane_lifting =
  fixes cb :: "('a plane_scheme) plane_callbacks" and I :: "'a plane_scheme \<Rightarrow> bool"
  assumes I_protocol_error: "I w \<Longrightarrow> I (cb_protocol_error cb e w)"
    and I_track_error: "I w \<Longrightarrow> I (cb_track_error cb request_id e w)"
    and I_on_object: "I w \<Longrightarrow> I (cb_on_object cb ob w)"
    and I_set_final: "I w \<Longrightarrow> I (update_route ref (set_final_in_group g o_id) w)"
    and I_note_final: "I w \<Longrightarrow> I (update_route ref (note_final ob) w)"
    and I_pending: "I w \<Longrightarrow> I (w\<lparr>dp_pending_subgroups_by_alias := p\<rparr>)"
    and I_count: "I w \<Longrightarrow> I (w\<lparr>dp_pending_subgroup_stream_count := n\<rparr>)"
    and I_unknown: "I w \<Longrightarrow> I (w\<lparr>dp_unknown_datagrams := u\<rparr>)"
    and I_buffered: "I w \<Longrightarrow> I (w\<lparr>dp_buffered_datagram_bytes := n\<rparr>)"
    and I_receivers: "I w \<Longrightarrow> I (w\<lparr>dp_receivers := R\<rparr>)"
    and I_abort_receive: "I w \<Longrightarrow> I (abort_receive st code w)"
begin

lemmas I_intros = I_protocol_error I_track_error I_on_object I_set_final I_note_final
  I_pending I_count I_unknown I_buffered I_receivers I_abort_receive

lemma I_deliver: "I w \<Longrightarrow> I (deliver cb ref ob w)"
  by (auto simp: deliver_def intro!: I_intros split: option.split)

lemma I_buffer_unknown: "I w \<Longrightarrow> I (buffer_unknown_datagram cb a bytes w)"
  by (cases "sub_unknown_alias_policy (dp_config w)")
    (auto simp: buffer_unknown_datagram_def Let_def intro!: I_intros)

lemma I_deliver_datagram: "I w \<Longrightarrow> I (deliver_datagram cb bytes allow w)"
  by (auto simp: deliver_datagram_def Let_def intro!: I_deliver I_buffer_unknown I_intros
      split: option.split sum.split)

lemma I_on_datagram: "I w \<Longrightarrow> I (on_datagram cb bytes w)"
  by (simp add: on_datagram_def I_deliver_datagram)

lemma I_replay: "I w \<Longrightarrow> I (replay_datagrams cb ds w)"
  by (induction ds arbitrary: w) (simp_all add: I_deliver_datagram I_buffered)

lemma I_fail: "I w \<Longrightarrow> I (snd (receiver_fail cb e r w))"
  by (simp add: receiver_fail_def I_protocol_error)

lemma I_discard: "I w \<Longrightarrow> I (discard_pending_subgroup a st w)"
  by (auto simp: discard_pending_subgroup_def Let_def intro!: I_intros split: option.split)

lemma I_abandon: "I w \<Longrightarrow> I (snd (abandon st r w))"
  by (simp add: abandon_def Let_def I_abort_receive I_discard)

lemma I_enforce: "I w \<Longrightarrow> I (snd (enforce_pending_buffer_limit st r w))"
  by (simp add: enforce_pending_buffer_limit_def I_abandon)

lemma I_park: "I w \<Longrightarrow> I (snd (snd (find_or_park_subgroup a st w)))"
  by (auto simp: find_or_park_subgroup_def Let_def intro!: I_intros split: option.split)

lemma I_resolve: "I w \<Longrightarrow> I (snd (snd (resolve_alias cb st r w)))"
proof (cases "sub_unknown_alias_policy (dp_config w)")
  case BufferUnknown
  assume "I w"
  obtain f ref w1 where fp: "find_or_park_subgroup (sr_alias r) st w = (f, ref, w1)" by (metis prod_cases3)
  with I_park [OF \<open>I w\<close>, of "sr_alias r" st] have "I w1" by simp
  with BufferUnknown fp show ?thesis by (simp add: resolve_alias_def I_abandon)
qed (auto simp: resolve_alias_def I_abandon I_fail simp del: append.simps split: option.split)

lemma I_parse_header: "I w \<Longrightarrow> I (snd (snd (snd (parse_header cb st c r w))))"
  using I_resolve [of w st] by (auto simp: parse_header_def I_fail case_prod_beta split: option.split sum.split)

lemma I_parse_object: "I w \<Longrightarrow> I (snd (snd (snd (parse_object cb st c r w))))"
  by (auto simp: parse_object_def Let_def I_fail I_deliver split: option.split sum.split)

lemma I_run_objects: "I w \<Longrightarrow> I (snd (snd (run_objects cb st fin c r w)))"
proof (induction "remaining c" arbitrary: c r w rule: less_induct)
  case less
  obtain status c1 r1 w1 where p: "parse_object cb st c r w = (status, c1, r1, w1)" by (metis prod_cases4)
  have i1: "I w1" using I_parse_object [OF less.prems, of st c r] p by simp
  show ?case
  proof (cases "\<not> sr_closed r \<and> status = Done")
    case True
    with p have "remaining c1 < remaining c" using parse_object_shrinks by metis
    from less.hyps [OF this i1] True p show ?thesis by (subst run_objects.simps) simp
  next
    case False
    with p less.prems i1 show ?thesis
      by (subst run_objects.simps) (cases status; auto simp: I_fail)
  qed
qed

lemma I_finish: "I w \<Longrightarrow> I (snd (finish_stream fin r w))"
  by (auto simp: finish_stream_def intro!: I_intros split: option.split bool.split)

lemma I_run_body: "I w \<Longrightarrow> I (snd (snd (run_body cb st fin c r w)))"
proof -
  assume "I w"
  from I_run_objects [OF this] have "I (snd (snd (run_objects cb st fin c r w)))" .
  with \<open>I w\<close> show ?thesis by (auto simp: run_body_def I_finish split: prod.split)
qed

lemma I_run: "I w \<Longrightarrow> I (snd (snd (run cb st fin c r w)))"
proof -
  assume i: "I w"
  obtain status c1 r1 w1 where h: "parse_header cb st c r w = (status, c1, r1, w1)" by (metis prod_cases4)
  have "I w1" using I_parse_header [OF i, of st c r] h by simp
  with i h show ?thesis by (auto simp: run_def I_run_body I_fail)
qed

lemma I_put: "I (snd rw) \<Longrightarrow> I (put_receiver st rw)"
  by (cases rw) (simp add: put_receiver_def I_receivers)

lemma I_in_place: "I w \<Longrightarrow> I (snd (receive_in_place cb st chunk fin r w))"
proof -
  assume "I w"
  from I_run [OF this] have "I (snd (snd (run cb st fin \<lparr>cur_bytes = chunk, cur_offset = 0\<rparr> r w)))" .
  then show ?thesis by (auto simp: receive_in_place_def Let_def I_enforce split: prod.split)
qed

lemma I_stashed: "I w \<Longrightarrow> I (snd (receive_stashed cb st chunks fin r w))"
proof -
  assume "I w"
  let ?r = "r\<lparr>sr_stash := sr_stash r @ concat chunks\<rparr>"
  from I_run [OF \<open>I w\<close>] have "I (snd (snd (run cb st fin \<lparr>cur_bytes = sr_stash ?r, cur_offset = 0\<rparr> ?r w)))" .
  then show ?thesis by (auto simp: receive_stashed_def Let_def I_enforce split: prod.split)
qed

lemma I_on_receive: "I w \<Longrightarrow> I (on_receive cb st chunks fin w)"
  by (auto simp: on_receive_def I_in_place I_stashed intro!: I_put split: option.split list.split)

lemma I_on_peer_send_aborted: "I w \<Longrightarrow> I (on_peer_send_aborted st w)"
  by (auto simp: on_peer_send_aborted_def I_discard intro!: I_put split: option.split)

lemma I_establish: "I w \<Longrightarrow> I (establish cb ref st w)"
proof -
  assume "I w"
  with I_run [OF this] show ?thesis
    by (auto simp: establish_def Let_def case_prod_beta intro!: I_put split: option.split)
qed

lemma I_establish_all: "I w \<Longrightarrow> I (establish_all cb ref sts w)"
  by (induction sts arbitrary: w) (simp_all add: I_establish)

text \<open>The new entry of the table is the client's business; everything after it is not.\<close>

lemma I_install_new:
  assumes None: "dp_routes_by_alias w a = None" and I: "I (w\<lparr>dp_routes_by_alias := (dp_routes_by_alias w)(a \<mapsto> ref)\<rparr>)"
  shows "I (snd (install_route cb a ref w))"
proof -
  let ?w = "w\<lparr>dp_routes_by_alias := (dp_routes_by_alias w)(a \<mapsto> ref)\<rparr>"
  obtain ps w1 where t: "take_pending a ?w = (ps, w1)" by fastforce
  have "I w1"
    using t I by (auto simp: take_pending_def I_count I_pending split: option.splits)
  with None t show ?thesis
    by (auto simp: install_route_def Let_def intro!: I_establish_all I_replay I_unknown split: option.split)
qed

lemma I_install_route:
  assumes "I w" and "dp_routes_by_alias w a = None \<Longrightarrow> I (w\<lparr>dp_routes_by_alias := (dp_routes_by_alias w)(a \<mapsto> ref)\<rparr>)"
  shows "I (snd (install_route cb a ref w))"
  using assms I_install_new by (cases "dp_routes_by_alias w a") (simp_all add: install_route_def)

lemma I_start_subgroup_stream:
  "(\<And>w. I w \<Longrightarrow> I (set_sink st (Some SubgroupReceiverSink) w)) \<Longrightarrow> I w \<Longrightarrow> I (start_subgroup_stream cb st prefix fin w)"
  by (simp add: start_subgroup_stream_def I_on_receive I_put)

end

end
