(* ===== verification/Subscriber_Inv.thy ===== *)
theory Subscriber_Inv
  imports Subscriber_Plane Plane_Lifting
begin

text \<open>
  What a subscriber keeps true between events: the table of subscriptions lists exactly the
  requests that are not terminated; every promise handed to the application has exactly one
  owner until it is settled; the route table holds exactly the routes of established
  subscriptions. \<open>E\<close> are promises an operation has made and not handed on yet, \<open>X\<close>
  the alias and the request of a SUBSCRIBE_OK that is being processed.
\<close>

section \<open>The invariant\<close>

definition rq_promises :: "SubscriptionRequest \<Rightarrow> promise list" where
  "rq_promises rq = (case rq_result rq of None \<Rightarrow> [] | Some p \<Rightarrow> [p]) @ rq_updates rq"

fun request_ok :: "SubscriptionPhase \<Rightarrow> SubscriptionRequest \<Rightarrow> bool" where
  "request_ok Sub_Pending rq = (rq_result rq \<noteq> None \<and> rq_track_alias rq = None \<and> rq_updates rq = [])"
| "request_ok Sub_Terminated rq = (rq_result rq = None \<and> rq_updates rq = [])"
| "request_ok _ rq = (rq_result rq = None \<and> rq_track_alias rq \<noteq> None)"

definition live :: "'a subscriber_scheme \<Rightarrow> RequestId \<Rightarrow> SubscriptionRequest \<Rightarrow> bool" where
  "live w request_id rq \<longleftrightarrow> sb_requests w request_id = Some rq \<and> rq_phase rq \<noteq> Sub_Terminated"

definition requests_inv :: "'a subscriber_scheme \<Rightarrow> bool" where
  "requests_inv w \<longleftrightarrow> distinct (sb_subscriptions w) \<and>
     (\<forall>i. i \<in> set (sb_subscriptions w) \<longleftrightarrow> (\<exists>rq. live w i rq)) \<and>
     (\<forall>i rq. sb_requests w i = Some rq \<longrightarrow> request_ok (rq_phase rq) rq \<and> i < se_next_request_id w)"

text \<open>The owners of promises: the list of ready waiters, and each request.\<close>

definition holds :: "'a subscriber_scheme \<Rightarrow> RequestId option \<Rightarrow> promise \<Rightarrow> bool" where
  "holds w x p \<longleftrightarrow> (case x of None \<Rightarrow> p \<in> set (se_ready_waiters w)
     | Some i \<Rightarrow> \<exists>rq. sb_requests w i = Some rq \<and> p \<in> set (rq_promises rq))"

definition own_inv :: "promise set \<Rightarrow> 'a subscriber_scheme \<Rightarrow> bool" where
  "own_inv E w \<longleftrightarrow>
     (\<forall>p. se_promises w p = Some Pending \<longleftrightarrow> p \<in> E \<or> (\<exists>x. holds w x p)) \<and>
     (\<forall>x p. holds w x p \<longrightarrow> p \<notin> E) \<and> (\<forall>x y p. holds w x p \<longrightarrow> holds w y p \<longrightarrow> x = y) \<and>
     distinct (se_ready_waiters w) \<and> (\<forall>i rq. sb_requests w i = Some rq \<longrightarrow> distinct (rq_promises rq)) \<and>
     (\<forall>p. se_promises w p \<noteq> None \<longrightarrow> p < se_next_promise w)"

definition route_of :: "'a plane_scheme \<Rightarrow> TrackAlias \<Rightarrow> RequestId \<Rightarrow> bool" where
  "route_of w a i \<longleftrightarrow> (\<exists>ref route. dp_routes_by_alias w a = Some ref \<and> dp_heap w ref = Some route \<and>
     rr_request_id route = i \<and> rr_active route)"

definition routes_inv :: "TrackAlias set \<Rightarrow> 'a subscriber_scheme \<Rightarrow> bool" where
  "routes_inv X w \<longleftrightarrow>
     (\<forall>a. a \<notin> X \<longrightarrow> dp_routes_by_alias w a \<noteq> None \<longrightarrow>
        (\<exists>i rq. route_of w a i \<and> live w i rq \<and> rq_track_alias rq = Some a)) \<and>
     (\<forall>i rq a. live w i rq \<longrightarrow> rq_track_alias rq = Some a \<longrightarrow> a \<notin> X \<and> route_of w a i) \<and>
     (\<forall>a b ref. dp_routes_by_alias w a = Some ref \<longrightarrow> dp_routes_by_alias w b = Some ref \<longrightarrow> a = b) \<and>
     (\<forall>a ref. dp_routes_by_alias w a = Some ref \<longrightarrow> ref < dp_next_route w)"

text \<open>The route of a SUBSCRIBE_OK is installed while its request is still pending.\<close>

definition installing :: "'a subscriber_scheme \<Rightarrow> TrackAlias \<times> RequestId \<Rightarrow> bool" where
  "installing w x \<longleftrightarrow> route_of w (fst x) (snd x) \<and>
     (\<exists>rq. sb_requests w (snd x) = Some rq \<and> (rq_phase rq = Sub_Pending \<or> rq_phase rq = Sub_Terminated))"

definition calm :: "'a transport_scheme \<Rightarrow> bool" where
  "calm w \<longleftrightarrow> StdTerminate \<notin> set (tp_log w)"

text \<open>
  A request SUBSCRIBE can be encoded for, whatever its Request ID. \<open>subscribe\<close> enters a
  request before it encodes it, so one that cannot be encoded leaves a request behind whose
  promise is already settled.
\<close>

definition encodable :: "SubscribeRequest \<Rightarrow> bool" where
  "encodable request \<longleftrightarrow> (\<forall>i. \<exists>bytes. encode_subscribe i request = Inr bytes)"

definition app_ok :: "'a subscriber_scheme \<Rightarrow> bool" where
  "app_ok w \<longleftrightarrow> (\<forall>ob request. CallSubscribe request \<in> set (sb_app w ob) \<longrightarrow> encodable request)"

definition sub_inv :: "promise set \<Rightarrow> (TrackAlias \<times> RequestId) set \<Rightarrow> 'a subscriber_scheme \<Rightarrow> bool" where
  "sub_inv E X w \<longleftrightarrow> requests_inv w \<and> own_inv E w \<and> routes_inv (fst ` X) w \<and> (\<forall>x\<in>X. installing w x) \<and>
     calm w \<and> app_ok w"

section \<open>Ownership\<close>

lemma own_inv_settle:
  assumes "own_inv E w"
    and "\<And>p. se_promises w' p = Some Pending \<longleftrightarrow> se_promises w p = Some Pending \<and> p \<notin> A"
    and "\<And>x p. holds w' x p \<longleftrightarrow> holds w x p \<and> p \<notin> A"
    and "distinct (se_ready_waiters w')" "\<And>i rq. sb_requests w' i = Some rq \<Longrightarrow> distinct (rq_promises rq)"
    and "\<And>p. se_promises w' p = None \<longleftrightarrow> se_promises w p = None" "se_next_promise w' = se_next_promise w"
  shows "own_inv (E - A) w'"
proof -
  note i = assms(1) [unfolded own_inv_def]
  have "\<forall>p. se_promises w' p \<noteq> None \<longrightarrow> p < se_next_promise w'" using i assms(6,7) by metis
  with i show ?thesis unfolding own_inv_def assms(2,3) using assms(4,5) by blast
qed

lemma own_inv_acquire:
  assumes "own_inv E w" "p \<in> E"
    and "\<And>q. se_promises w' q = se_promises w q"
    and "\<And>x q. holds w' x q \<longleftrightarrow> holds w x q \<or> x = y \<and> q = p"
    and "distinct (se_ready_waiters w')" "\<And>i rq. sb_requests w' i = Some rq \<Longrightarrow> distinct (rq_promises rq)"
    and "se_next_promise w' = se_next_promise w"
  shows "own_inv (E - {p}) w'"
proof -
  note i = assms(1) [unfolded own_inv_def]
  have "\<forall>p. se_promises w' p \<noteq> None \<longrightarrow> p < se_next_promise w'" using i assms(3,7) by metis
  with i assms(2) show ?thesis unfolding own_inv_def assms(3,4) using assms(5,6) by blast
qed

lemma own_inv_new:
  assumes "own_inv E w" "new_promise w = (p, w')"
  shows "own_inv (insert p E) w' \<and> p \<notin> E"
proof -
  note i = assms(1) [unfolded own_inv_def]
  have p: "p = se_next_promise w" "se_next_promise w' = Suc p" "se_promises w' = (se_promises w)(p \<mapsto> Pending)"
    and h: "holds w' x q = holds w x q" for x q
    using assms(2) by (auto simp: new_promise_def holds_def split: option.split)
  have "se_promises w p = None" using i p(1) by (metis less_irrefl)
  then have fresh: "p \<notin> E" "\<not> holds w x p" for x using i by (metis option.distinct(1))+
  have "\<forall>q. se_promises w' q \<noteq> None \<longrightarrow> q < se_next_promise w'"
    using i p by (auto simp: less_Suc_eq)
  moreover have "se_ready_waiters w' = se_ready_waiters w" "sb_requests w' = sb_requests w"
    using assms(2) by (auto simp: new_promise_def)
  ultimately show ?thesis
    using i fresh unfolding own_inv_def h p(3) by auto
qed

lemma fail_all_eq:
  "fail_all ps e w = w\<lparr>se_promises := (\<lambda>p. if p \<in> set ps \<and> se_promises w p = Some Pending
     then Some (Failed e) else se_promises w p)\<rparr>"
proof (induction ps arbitrary: w)
  case (Cons p ps)
  show ?case unfolding fail_all.simps Cons.IH by (auto simp: Session.fail_def fun_eq_iff)
qed simp

section \<open>Terminating a request\<close>

lemma terminate_idle: "\<not> (\<exists>rq. live w i rq) \<Longrightarrow> terminate i reason w = w"
  by (auto simp: terminate_def live_def split: option.split)

definition ended :: "SubscriptionRequest \<Rightarrow> SubscriptionRequest" where
  "ended rq = rq\<lparr>rq_result := None, rq_updates := [], rq_phase := Sub_Terminated\<rparr>"

text \<open>The fields a terminated request leaves behind.\<close>

lemma terminate_fields:
  assumes "live w i rq"
  shows "sb_requests (terminate i reason w) = (sb_requests w)(i \<mapsto> ended rq)"
    and "sb_subscriptions (terminate i reason w) = removeAll i (sb_subscriptions w)"
    and "se_promises (terminate i reason w) p = Some Pending \<longleftrightarrow>
      se_promises w p = Some Pending \<and> p \<notin> set (rq_promises rq)"
    and "se_promises (terminate i reason w) p = None \<longleftrightarrow> se_promises w p = None"
    and "dp_routes_by_alias (terminate i reason w) =
      (case rq_track_alias rq of None \<Rightarrow> dp_routes_by_alias w | Some a \<Rightarrow> dp_routes_by_alias (retire_route a w))"
    and "dp_heap (terminate i reason w) =
      (case rq_track_alias rq of None \<Rightarrow> dp_heap w | Some a \<Rightarrow> dp_heap (retire_route a w))"
    and "calm (terminate i reason w) = calm w"
  using assms
  by (auto simp: terminate_def live_def Let_def fail_updates_def fail_all_eq Session.fail_def put_request_def emit_def
      retire_route_def update_route_def rq_promises_def ended_def calm_def split: option.split)

lemma terminate_same [simp]:
  "se_phase (terminate i reason w) = se_phase w" "se_ready_waiters (terminate i reason w) = se_ready_waiters w"
  "se_next_promise (terminate i reason w) = se_next_promise w" "se_next_request_id (terminate i reason w) = se_next_request_id w"
  "sb_app (terminate i reason w) = sb_app w" "dp_next_route (terminate i reason w) = dp_next_route w"
  "se_gates (terminate i reason w) = se_gates w" "tp_streams (terminate i reason w) = tp_streams w"
  "tp_next_stream (terminate i reason w) = tp_next_stream w" "tp_alive (terminate i reason w) = tp_alive w"
  by (auto simp: terminate_def Let_def fail_updates_def fail_all_eq Session.fail_def put_request_def emit_def
      retire_route_def update_route_def split: option.split)

lemma rq_promises_ended [simp]: "rq_promises (ended rq) = []" "rq_phase (ended rq) = Sub_Terminated"
  by (simp_all add: rq_promises_def ended_def)

lemma terminate_live: "live w i rq \<Longrightarrow> live (terminate i reason w) j rq' \<longleftrightarrow> j \<noteq> i \<and> live w j rq'"
  by (cases "j = i") (auto simp: live_def terminate_fields(1) [unfolded live_def] ended_def)

lemma requests_inv_terminate:
  assumes "requests_inv w" "live w i rq"
  shows "requests_inv (terminate i reason w)"
  unfolding requests_inv_def terminate_live [OF assms(2)]
  using assms by (auto simp: requests_inv_def terminate_fields(1,2) [OF assms(2)] distinct_removeAll ended_def
      live_def [of w i rq])

lemma holds_terminate:
  assumes "own_inv E w" "live w i rq"
  shows "holds (terminate i reason w) x p \<longleftrightarrow> holds w x p \<and> p \<notin> set (rq_promises rq)"
proof -
  have rq: "holds w (Some i) p \<longleftrightarrow> p \<in> set (rq_promises rq)"
    using assms(2) by (simp add: holds_def live_def)
  have one: "holds w x p \<Longrightarrow> holds w (Some i) p \<Longrightarrow> x = Some i"
    using assms(1) unfolding own_inv_def by blast
  show ?thesis
  proof (cases "x = Some i")
    case True
    then show ?thesis using rq by (simp add: holds_def terminate_fields(1) [OF assms(2)])
  next
    case False
    then have "holds (terminate i reason w) x p = holds w x p"
      by (auto simp: holds_def terminate_fields(1) [OF assms(2)] split: option.split)
    with False one rq show ?thesis by auto
  qed
qed

lemma own_inv_terminate:
  assumes own: "own_inv E w" and rq: "live w i rq"
  shows "own_inv E (terminate i reason w)"
proof -
  have d: "distinct (se_ready_waiters w)" "\<And>j rq'. sb_requests w j = Some rq' \<Longrightarrow> distinct (rq_promises rq')"
    using own unfolding own_inv_def by blast+
  have "own_inv (E - set (rq_promises rq)) (terminate i reason w)"
  proof (rule own_inv_settle [OF own terminate_fields(3) [OF rq] holds_terminate [OF own rq]])
    show "distinct (rq_promises rq')" if "sb_requests (terminate i reason w) j = Some rq'" for j rq'
      using that d(2) by (cases "j = i") (auto simp: terminate_fields(1) [OF rq])
  qed (simp_all add: d terminate_fields(4) [OF rq])
  moreover have "E - set (rq_promises rq) = E"
  proof -
    have "holds w (Some i) p" if "p \<in> set (rq_promises rq)" for p
      using rq that by (simp add: holds_def live_def)
    then show ?thesis using own unfolding own_inv_def by blast
  qed
  ultimately show ?thesis by simp
qed

lemma routes_terminate:
  assumes inv: "routes_inv X w" and rq: "live w i rq"
  shows "dp_routes_by_alias (terminate i reason w) b = (if rq_track_alias rq = Some b then None else dp_routes_by_alias w b)"
    and "route_of (terminate i reason w) b j \<longleftrightarrow> rq_track_alias rq \<noteq> Some b \<and> route_of w b j"
proof -
  have "dp_routes_by_alias (terminate i reason w) b = (if rq_track_alias rq = Some b then None else dp_routes_by_alias w b)
    \<and> (route_of (terminate i reason w) b j \<longleftrightarrow> rq_track_alias rq \<noteq> Some b \<and> route_of w b j)"
  proof (cases "rq_track_alias rq")
    case None
    then show ?thesis by (simp add: route_of_def terminate_fields [OF rq])
  next
    case (Some a)
    with inv rq have "route_of w a i" unfolding routes_inv_def by blast
    then obtain ref route where ref: "dp_routes_by_alias w a = Some ref" "dp_heap w ref = Some route"
      unfolding route_of_def by blast
    have routes: "dp_routes_by_alias (terminate i reason w) = (dp_routes_by_alias w)(a := None)"
      and heap: "dp_heap (terminate i reason w) = (dp_heap w)(ref \<mapsto> route\<lparr>rr_active := False\<rparr>)"
      by (simp_all add: terminate_fields [OF rq] Some retire_route_def ref update_route_def)
    have "dp_routes_by_alias w b = Some ref \<Longrightarrow> b = a" using inv ref(1) unfolding routes_inv_def by blast
    then show ?thesis
      unfolding route_of_def routes heap using Some
      by (cases "dp_routes_by_alias w b"; cases "dp_routes_by_alias w b = Some ref") auto
  qed
  then show "dp_routes_by_alias (terminate i reason w) b = (if rq_track_alias rq = Some b then None else dp_routes_by_alias w b)"
    and "route_of (terminate i reason w) b j \<longleftrightarrow> rq_track_alias rq \<noteq> Some b \<and> route_of w b j"
    by blast+
qed

lemma routes_inv_terminate:
  assumes inv: "routes_inv X w" and rq: "live w i rq"
  shows "routes_inv X (terminate i reason w)"
proof -
  have owner: "j = i" if "live w j rq'" "rq_track_alias rq' = Some a" "rq_track_alias rq = Some a" for j rq' a
  proof -
    from inv rq that have "route_of w a i" "route_of w a j" unfolding routes_inv_def by blast+
    then show ?thesis unfolding route_of_def by auto
  qed
  have same: "rq' = rq" if "live w i rq'" for rq' using that rq by (simp add: live_def)
  note i = inv [unfolded routes_inv_def]
  show ?thesis
    unfolding routes_inv_def routes_terminate [OF inv rq] terminate_live [OF rq] terminate_same
  proof (intro conjI allI impI)
    fix b assume b: "b \<notin> X" "(if rq_track_alias rq = Some b then None else dp_routes_by_alias w b) \<noteq> None"
    with i obtain j rq' where "route_of w b j" "live w j rq'" "rq_track_alias rq' = Some b" by (metis (full_types))
    with b same show "\<exists>j rq'. (rq_track_alias rq \<noteq> Some b \<and> route_of w b j) \<and> (j \<noteq> i \<and> live w j rq') \<and> rq_track_alias rq' = Some b"
      by (metis (full_types))
  qed (use i owner in \<open>auto split: if_splits\<close>)
qed

lemma installing_terminate:
  assumes "routes_inv (fst ` X) w" "x \<in> X" "installing w x" and rq: "live w i rq"
  shows "installing (terminate i reason w) x"
proof -
  have "rq_track_alias rq \<noteq> Some (fst x)" using assms unfolding routes_inv_def by blast
  with assms(3) show ?thesis
    unfolding installing_def routes_terminate [OF assms(1) rq]
    by (cases "snd x = i") (auto simp: terminate_fields(1) [OF rq])
qed

lemma sub_inv_terminate: "sub_inv E X w \<Longrightarrow> sub_inv E X (terminate i reason w)"
proof (cases "\<exists>rq. live w i rq")
  case True
  then obtain rq where rq: "live w i rq" ..
  assume "sub_inv E X w"
  with rq show ?thesis
    by (auto simp: sub_inv_def app_ok_def terminate_fields(7) [OF rq]
        intro: requests_inv_terminate own_inv_terminate routes_inv_terminate installing_terminate)
qed (simp add: terminate_idle)

section \<open>Operations that leave the invariant alone\<close>

definition neutral :: "'a subscriber_scheme \<Rightarrow> 'a subscriber_scheme \<Rightarrow> bool" where
  "neutral w w' \<longleftrightarrow> sb_requests w' = sb_requests w \<and> sb_subscriptions w' = sb_subscriptions w \<and>
     se_promises w' = se_promises w \<and> se_next_promise w' = se_next_promise w \<and>
     se_ready_waiters w' = se_ready_waiters w \<and> se_next_request_id w \<le> se_next_request_id w' \<and>
     dp_routes_by_alias w' = dp_routes_by_alias w \<and> dp_heap w' = dp_heap w \<and> dp_next_route w' = dp_next_route w \<and>
     sb_app w' = sb_app w \<and> (calm w \<longrightarrow> calm w')"

lemma neutral_refl [simp, intro]: "neutral w w"
  by (simp add: neutral_def)

lemma neutral_trans [trans]: "neutral a b \<Longrightarrow> neutral b c \<Longrightarrow> neutral a c"
  by (auto simp: neutral_def)

lemma neutral_live: "neutral w w' \<Longrightarrow> live w' i rq = live w i rq"
  by (simp add: neutral_def live_def)

lemma neutral_holds: "neutral w w' \<Longrightarrow> holds w' x p = holds w x p"
  by (simp add: neutral_def holds_def split: option.split)

lemma neutral_route_of: "neutral w w' \<Longrightarrow> route_of w' a i = route_of w a i"
  by (simp add: neutral_def route_of_def)

lemma sub_inv_neutral:
  assumes n: "neutral w w'" and inv: "sub_inv E X w"
  shows "sub_inv E X w'"
proof -
  have "requests_inv w'"
    using inv n unfolding sub_inv_def requests_inv_def neutral_live [OF n] by (fastforce simp: neutral_def)
  moreover have "own_inv E w'"
    using inv n unfolding sub_inv_def own_inv_def neutral_holds [OF n] by (simp add: neutral_def)
  moreover have "routes_inv (fst ` X) w'"
    using inv n unfolding sub_inv_def routes_inv_def neutral_live [OF n] neutral_route_of [OF n] by (simp add: neutral_def)
  moreover have "installing w' x = installing w x" for x
    using n unfolding installing_def neutral_route_of [OF n] by (simp add: neutral_def)
  ultimately show ?thesis
    using inv n by (simp add: sub_inv_def neutral_def app_ok_def)
qed

lemma calm_emit [simp]: "calm (emit e w) \<longleftrightarrow> e \<noteq> StdTerminate \<and> calm w"
  by (auto simp: calm_def emit_def)

lemma neutral_emit: "e \<noteq> StdTerminate \<Longrightarrow> neutral w (emit e w)"
  by (auto simp: neutral_def calm_def emit_def)

lemma neutral_aborts: "neutral w (abort_receive st code w)" "neutral w (abort_send st code w)"
  by (auto simp: abort_receive_def abort_send_def intro: neutral_emit)

lemma neutral_updates:
  "neutral w (w\<lparr>se_phase := ph\<rparr>)" "neutral w (w\<lparr>se_close_reason := cr\<rparr>)" "neutral w (set_sink st k w)"
  "neutral w (w\<lparr>se_gates := g\<rparr>)" "neutral w (shutdown code w)"
  "neutral w (w\<lparr>tp_streams := s\<rparr>)" "neutral w (remove_stream st w)" "neutral w (close_handle st w)"
  by (auto simp: neutral_def calm_def set_sink_def shutdown_def emit_def remove_stream_def close_handle_def)

lemma neutral_send: "neutral w (snd (send st bytes fin w))"
  by (auto simp: send_def quic_call_def neutral_def calm_def emit_def)

lemma neutral_open: "neutral w (snd (open_stream uni w))"
  by (auto simp: open_stream_def quic_call_def quic_status_def new_stream_def close_handle_def remove_stream_def
      emit_def neutral_def calm_def Let_def simp del: append.simps)

lemma neutral_allocate: "neutral w (snd (allocate_request_id w))"
proof (cases "se_next_request_id w > u64_max - 2")
  case False
  then have "unat (se_next_request_id w) + unat (2 :: u64) < 2 ^ 64"
    unfolding not_less u64_max_add .
  then have "se_next_request_id w \<le> se_next_request_id w + 2"
    by (simp add: word_le_nat_alt unat_word_ariths(1))
  with False show ?thesis by (auto simp: allocate_request_id_def neutral_def calm_def)
qed (simp add: allocate_request_id_def)

section \<open>Closing\<close>

definition closing_inv :: "'a subscriber_scheme \<Rightarrow> bool" where
  "closing_inv w \<longleftrightarrow> (se_phase w = Closing \<longrightarrow> sb_subscriptions w = []) \<and> (se_phase w \<ge> Ready \<longrightarrow> se_ready_waiters w = [])"

lemma sub_inv_terminate_all: "sub_inv E X w \<Longrightarrow> sub_inv E X (terminate_all is reason w)"
  by (induction "is" arbitrary: w) (simp_all add: sub_inv_terminate)

lemma subscriptions_terminate:
  "requests_inv w \<Longrightarrow> sb_subscriptions (terminate i reason w) = removeAll i (sb_subscriptions w)"
  by (cases "\<exists>rq. live w i rq") (auto simp: terminate_fields(2) terminate_idle requests_inv_def)

lemma subscriptions_terminate_all:
  "sub_inv E X w \<Longrightarrow> sb_subscriptions (terminate_all is reason w) = filter (\<lambda>i. i \<notin> set is) (sb_subscriptions w)"
proof (induction "is" arbitrary: w)
  case (Cons i "is")
  then have "sb_subscriptions (terminate i reason w) = removeAll i (sb_subscriptions w)"
    by (intro subscriptions_terminate) (simp add: sub_inv_def)
  with Cons.IH [OF sub_inv_terminate [OF Cons.prems, of i reason]] show ?case
    by (simp add: removeAll_filter_not_eq conj_commute eq_commute [of i])
qed simp

lemma terminate_all_same [simp]:
  "se_phase (terminate_all is reason w) = se_phase w" "se_ready_waiters (terminate_all is reason w) = se_ready_waiters w"
  "tp_alive (terminate_all is reason w) = tp_alive w"
  by (induction "is" arbitrary: w) simp_all

lemma fail_ready_waiters_inv:
  assumes inv: "sub_inv E X w"
  shows "sub_inv E X (fail_ready_waiters reason w)"
proof -
  let ?w = "fail_ready_waiters reason w"
  have f: "?w = w\<lparr>se_promises := (\<lambda>p. if p \<in> set (se_ready_waiters w) \<and> se_promises w p = Some Pending
      then Some (Failed (PError reason)) else se_promises w p), se_ready_waiters := []\<rparr>"
    by (simp add: fail_ready_waiters_def fail_all_eq)
  have own: "own_inv E w" using inv by (simp add: sub_inv_def)
  have waiter: "holds w None p \<longleftrightarrow> p \<in> set (se_ready_waiters w)" for p by (simp add: holds_def)
  have held: "holds ?w x p \<longleftrightarrow> holds w x p \<and> p \<notin> set (se_ready_waiters w)" for x p
  proof (cases x)
    case None
    then show ?thesis by (simp add: holds_def f)
  next
    case (Some i)
    then have "holds ?w x p = holds w x p" by (simp add: holds_def f)
    moreover have "holds w x p \<Longrightarrow> \<not> holds w None p" using own Some unfolding own_inv_def by blast
    ultimately show ?thesis using waiter by blast
  qed
  have "own_inv (E - set (se_ready_waiters w)) ?w"
    by (rule own_inv_settle [OF own _ held]) (use own in \<open>auto simp: f own_inv_def\<close>)
  moreover have "E - set (se_ready_waiters w) = E" using own waiter unfolding own_inv_def by blast
  ultimately have "own_inv E ?w" by simp
  moreover have same: "live ?w = live w" "route_of ?w = route_of w"
    by (simp_all add: fun_eq_iff live_def route_of_def f)
  have "requests_inv ?w = requests_inv w" "routes_inv Y ?w = routes_inv Y w" "installing ?w x = installing w x" for Y x
    unfolding requests_inv_def routes_inv_def installing_def same by (simp_all add: f)
  ultimately show ?thesis
    using inv by (simp add: sub_inv_def calm_def app_ok_def f)
qed

lemma begin_close_inv:
  assumes inv: "sub_inv E X w" and c: "closing_inv w"
  shows "sub_inv E X (begin_close terminate_subscriptions code reason w)
    \<and> closing_inv (begin_close terminate_subscriptions code reason w)"
proof (cases "se_phase w \<ge> Closing")
  case True
  with assms show ?thesis by (simp add: begin_close_def)
next
  case False
  let ?r = "if reason = [] then ''MOQT session closing'' else reason"
  define w1 where "w1 = w\<lparr>se_phase := Closing, se_close_reason := Some (code, reason)\<rparr>"
  define w2 where "w2 = fail_ready_waiters ?r w1"
  define w3 where "w3 = terminate_subscriptions reason w2"
  have e: "begin_close terminate_subscriptions code reason w = (if tp_alive w3 then shutdown code w3 else w3)"
    using False by (simp add: begin_close_def w1_def w2_def w3_def Let_def)
  have "neutral w w1" by (simp add: w1_def neutral_def calm_def)
  then have i2: "sub_inv E X w2" unfolding w2_def by (intro fail_ready_waiters_inv sub_inv_neutral [OF _ inv])
  then have i3: "sub_inv E X w3" by (simp add: w3_def terminate_subscriptions_def sub_inv_terminate_all)
  have s2: "se_phase w2 = Closing" "se_ready_waiters w2 = []"
    by (simp_all add: w2_def fail_ready_waiters_def fail_all_eq w1_def)
  have "sb_subscriptions w3 = []"
    using subscriptions_terminate_all [OF i2] by (simp add: w3_def terminate_subscriptions_def filter_empty_conv)
  with s2 have "closing_inv w3" by (simp add: closing_inv_def w3_def terminate_subscriptions_def)
  then have "closing_inv (shutdown code w3)" by (simp add: closing_inv_def shutdown_def emit_def)
  with \<open>closing_inv w3\<close> i3 sub_inv_neutral [OF neutral_updates(5) i3] show ?thesis unfolding e by simp
qed

end
