(* ===== verification/Subscriber_Calls.thy ===== *)
theory Subscriber_Calls
  imports Subscriber_Inv
begin

text \<open>
  The public interface of the subscriber keeps its invariant: \<open>subscribe\<close>,
  \<open>request_update\<close>, \<open>stop_subscription\<close> and \<open>close\<close>, called from
  outside or from inside \<open>on_object\<close>. With them the invariant is lifted through the
  receive data plane.
\<close>

definition sub_ok :: "promise set \<Rightarrow> (TrackAlias \<times> RequestId) set \<Rightarrow> 'a subscriber_scheme \<Rightarrow> bool" where
  "sub_ok E X w \<longleftrightarrow> sub_inv E X w \<and> closing_inv w"

section \<open>Steps that only touch what the invariant does not speak of\<close>

definition still :: "'a subscriber_scheme \<Rightarrow> 'a subscriber_scheme \<Rightarrow> bool" where
  "still w w' \<longleftrightarrow> neutral w w' \<and> se_phase w' = se_phase w"

lemma still_refl [simp, intro]: "still w w"
  by (simp add: still_def)

lemma still_trans [trans]: "still a b \<Longrightarrow> still b c \<Longrightarrow> still a c"
  by (auto simp: still_def intro: neutral_trans)

lemma sub_ok_still: "still w w' \<Longrightarrow> sub_ok E X w \<Longrightarrow> sub_ok E X w'"
  using sub_inv_neutral by (auto simp: sub_ok_def still_def closing_inv_def neutral_def)

lemma still_emit: "e \<noteq> StdTerminate \<Longrightarrow> still w (emit e w)"
  by (simp add: still_def neutral_emit) (simp add: emit_def)

lemma still_aborts: "still w (abort_receive st code w)" "still w (abort_send st code w)"
  by (simp_all add: still_def neutral_aborts) (simp_all add: abort_receive_def abort_send_def emit_def)

lemma still_updates:
  "still w (set_sink st k w)" "still w (w\<lparr>se_gates := g\<rparr>)" "still w (shutdown code w)"
  "still w (w\<lparr>tp_streams := s\<rparr>)" "still w (remove_stream st w)" "still w (close_handle st w)"
  by (simp_all add: still_def neutral_updates)
    (simp_all add: set_sink_def shutdown_def remove_stream_def close_handle_def emit_def)

lemma still_send: "still w (snd (send st bytes fin w))"
  by (simp add: still_def neutral_send) (simp add: send_def quic_call_def emit_def)

lemma still_open: "still w (snd (open_stream uni w))"
  by (simp add: still_def neutral_open)
    (simp add: open_stream_def quic_call_def quic_status_def new_stream_def close_handle_def remove_stream_def
      emit_def Let_def del: append.simps)

lemma still_allocate: "still w (snd (allocate_request_id w))"
  by (simp add: still_def neutral_allocate) (simp add: allocate_request_id_def)

section \<open>Settling promises\<close>

lemma sub_parts_promises:
  "requests_inv (w\<lparr>se_promises := f\<rparr>) = requests_inv w" "routes_inv Y (w\<lparr>se_promises := f\<rparr>) = routes_inv Y w"
  "installing (w\<lparr>se_promises := f\<rparr>) x = installing w x" "calm (w\<lparr>se_promises := f\<rparr>) = calm w"
  "app_ok (w\<lparr>se_promises := f\<rparr>) = app_ok w" "closing_inv (w\<lparr>se_promises := f\<rparr>) = closing_inv w"
  "holds (w\<lparr>se_promises := f\<rparr>) y p = holds w y p"
proof -
  have same: "live (w\<lparr>se_promises := f\<rparr>) = live w" "route_of (w\<lparr>se_promises := f\<rparr>) = route_of w"
    by (simp_all add: fun_eq_iff live_def route_of_def)
  show "requests_inv (w\<lparr>se_promises := f\<rparr>) = requests_inv w" "routes_inv Y (w\<lparr>se_promises := f\<rparr>) = routes_inv Y w"
    "installing (w\<lparr>se_promises := f\<rparr>) x = installing w x" "calm (w\<lparr>se_promises := f\<rparr>) = calm w"
    "app_ok (w\<lparr>se_promises := f\<rparr>) = app_ok w" "closing_inv (w\<lparr>se_promises := f\<rparr>) = closing_inv w"
    unfolding requests_inv_def routes_inv_def installing_def same
    by (simp_all add: calm_def app_ok_def closing_inv_def)
  show "holds (w\<lparr>se_promises := f\<rparr>) y p = holds w y p"
    by (simp add: holds_def split: option.split)
qed

lemma own_inv_pending: "own_inv E w \<Longrightarrow> p \<in> E \<Longrightarrow> se_promises w p = Some Pending"
  unfolding own_inv_def by blast

lemma sub_ok_settle:
  assumes ok: "sub_ok E X w" and p: "p \<in> E" and v: "v \<noteq> Pending"
  shows "sub_ok (E - {p}) X (w\<lparr>se_promises := (se_promises w)(p \<mapsto> v)\<rparr>)"
proof -
  have own: "own_inv E w" using ok by (simp add: sub_ok_def sub_inv_def)
  then have "\<not> holds w x p" for x using p unfolding own_inv_def by blast
  then have "own_inv (E - {p}) (w\<lparr>se_promises := (se_promises w)(p \<mapsto> v)\<rparr>)"
    by (intro own_inv_settle [OF own])
      (use own v own_inv_pending [OF own p] in \<open>auto simp: sub_parts_promises own_inv_def\<close>)
  with ok show ?thesis by (simp add: sub_ok_def sub_inv_def sub_parts_promises)
qed

lemma sub_ok_fail: "sub_ok E X w \<Longrightarrow> p \<in> E \<Longrightarrow> sub_ok (E - {p}) X (Session.fail p e w)"
  using sub_ok_settle [of E X w p "Failed e"] own_inv_pending [of E w p]
  by (auto simp: Session.fail_def sub_ok_def sub_inv_def)

lemma sub_ok_set_value: "sub_ok E X w \<Longrightarrow> p \<in> E \<Longrightarrow> sub_ok (E - {p}) X (set_value p v w)"
  using sub_ok_settle [of E X w p "Fulfilled v"] own_inv_pending [of E w p]
  by (auto simp: set_value_def sub_ok_def sub_inv_def)

lemma sub_ok_new:
  assumes ok: "sub_ok E X w" and new: "new_promise w = (p, w')"
  shows "sub_ok (insert p E) X w'" "p \<notin> E" "se_phase w' = se_phase w"
proof -
  have own: "own_inv (insert p E) w'" "p \<notin> E"
    using ok own_inv_new [OF _ new] by (auto simp: sub_ok_def sub_inv_def)
  have w': "w' = w\<lparr>se_promises := (se_promises w)(p \<mapsto> Pending)\<rparr>\<lparr>se_next_promise := Suc p\<rparr>"
    using new by (auto simp: new_promise_def)
  have same: "live w' = live w" "route_of w' = route_of w"
    by (simp_all add: fun_eq_iff live_def route_of_def w')
  have "requests_inv w' = requests_inv w" "routes_inv Y w' = routes_inv Y w" "installing w' x = installing w x" for Y x
    unfolding requests_inv_def routes_inv_def installing_def same by (simp_all add: w')
  with ok own show "sub_ok (insert p E) X w'" "p \<notin> E" "se_phase w' = se_phase w"
    by (simp_all add: sub_ok_def sub_inv_def closing_inv_def calm_def app_ok_def w')
qed

section \<open>Ending and replacing a request\<close>

lemma sub_ok_terminate: "sub_ok E X w \<Longrightarrow> sub_ok E X (terminate i reason w)"
  using sub_inv_terminate [of E X w i reason] subscriptions_terminate [of w i reason]
  by (auto simp: sub_ok_def closing_inv_def sub_inv_def [of E X w])

lemma sub_ok_stop: "sub_ok E X w \<Longrightarrow> sub_ok E X (stop_subscription_now i reason code w)"
  by (auto simp: stop_subscription_now_def split: option.split
      intro: sub_ok_still [OF still_aborts(1)] sub_ok_still [OF still_aborts(2)] sub_ok_terminate)

lemma sub_ok_begin_close: "sub_ok E X w \<Longrightarrow> sub_ok E X (begin_close terminate_subscriptions code reason w)"
  unfolding sub_ok_def by (elim conjE) (rule begin_close_inv)

lemma holds_put:
  "holds (put_request i rq' w) x p \<longleftrightarrow> (if x = Some i then p \<in> set (rq_promises rq') else holds w x p)"
  by (auto simp: holds_def put_request_def split: option.split)

lemma live_put:
  "live (put_request i rq' w) j rq \<longleftrightarrow> (if j = i then rq = rq' \<and> rq_phase rq' \<noteq> Sub_Terminated else live w j rq)"
  by (auto simp: live_def put_request_def)

lemma put_request_same [simp]:
  "sb_subscriptions (put_request i rq w) = sb_subscriptions w" "se_next_request_id (put_request i rq w) = se_next_request_id w"
  "dp_routes_by_alias (put_request i rq w) = dp_routes_by_alias w" "dp_heap (put_request i rq w) = dp_heap w"
  "dp_next_route (put_request i rq w) = dp_next_route w" "se_promises (put_request i rq w) = se_promises w"
  "se_ready_waiters (put_request i rq w) = se_ready_waiters w" "se_next_promise (put_request i rq w) = se_next_promise w"
  "se_phase (put_request i rq w) = se_phase w" "sb_app (put_request i rq w) = sb_app w" "tp_log (put_request i rq w) = tp_log w"
  "sb_requests (put_request i rq w) = (sb_requests w)(i \<mapsto> rq)"
  by (simp_all add: put_request_def)

lemma route_of_put [simp]: "route_of (put_request i rq w) = route_of w"
  by (simp add: route_of_def fun_eq_iff)

lemma own_inv_put_settle:
  assumes own: "own_inv E w" and rq: "sb_requests w i = Some rq"
    and left: "set (rq_promises rq') = set (rq_promises rq) - A" "A \<subseteq> set (rq_promises rq)" "distinct (rq_promises rq')"
    and f: "\<And>p. f p = Some Pending \<longleftrightarrow> se_promises w p = Some Pending \<and> p \<notin> A" "\<And>p. f p = None \<longleftrightarrow> se_promises w p = None"
  shows "own_inv E (put_request i rq' (w\<lparr>se_promises := f\<rparr>))"
proof -
  have held: "holds w (Some i) p \<longleftrightarrow> p \<in> set (rq_promises rq)" for p using rq by (simp add: holds_def)
  note o = own [unfolded own_inv_def]
  have one: "x = Some i" if "holds w x p" "p \<in> A" for x p using o held left(2) that by blast
  have "own_inv (E - A) (put_request i rq' (w\<lparr>se_promises := f\<rparr>))"
  proof (rule own_inv_settle [OF own])
    show "holds (put_request i rq' (w\<lparr>se_promises := f\<rparr>)) x p \<longleftrightarrow> holds w x p \<and> p \<notin> A" for x p
      unfolding holds_put sub_parts_promises using held left one by auto
    show "distinct (rq_promises rq'')" if "sb_requests (put_request i rq' (w\<lparr>se_promises := f\<rparr>)) j = Some rq''" for j rq''
      using that o left(3) by (auto split: if_splits)
  qed (use o f in \<open>simp_all\<close>)
  moreover have "E - A = E" using held left(2) o by blast
  ultimately show ?thesis by simp
qed

text \<open>A live request is replaced by another that keeps its alias.\<close>

lemma sub_parts_put:
  assumes rq: "live w i rq" and rq': "rq_phase rq' \<noteq> Sub_Terminated" "request_ok (rq_phase rq') rq'"
    and al: "rq_track_alias rq' = rq_track_alias rq"
  shows "requests_inv w \<Longrightarrow> requests_inv (put_request i rq' w)"
    and "routes_inv Y w \<Longrightarrow> routes_inv Y (put_request i rq' w)"
    and "installing w x \<Longrightarrow> rq_phase rq' = rq_phase rq \<or> snd x \<noteq> i \<Longrightarrow> installing (put_request i rq' w) x"
proof -
  have some: "(\<exists>q. live (put_request i rq' w) j q) \<longleftrightarrow> (\<exists>q. live w j q)" for j
    using rq rq'(1) by (auto simp: live_put)
  show "requests_inv (put_request i rq' w)" if "requests_inv w"
    using that rq rq'(2) unfolding requests_inv_def some by (auto simp: live_def)
  have same: "live w i q \<longleftrightarrow> q = rq" for q using rq by (auto simp: live_def)
  show "routes_inv Y (put_request i rq' w)" if "routes_inv Y w"
  proof -
    have ex: "(\<exists>j q. route_of w a j \<and> live (put_request i rq' w) j q \<and> rq_track_alias q = Some a) \<longleftrightarrow>
        (\<exists>j q. route_of w a j \<and> live w j q \<and> rq_track_alias q = Some a)" for a
      using same rq'(1) al by (auto simp: live_put) metis+
    have all: "(\<forall>j q a. live (put_request i rq' w) j q \<longrightarrow> rq_track_alias q = Some a \<longrightarrow> a \<notin> Y \<and> route_of w a j) \<longleftrightarrow>
        (\<forall>j q a. live w j q \<longrightarrow> rq_track_alias q = Some a \<longrightarrow> a \<notin> Y \<and> route_of w a j)"
      using same rq'(1) al by (auto simp: live_put split: if_splits) metis+
    from that show ?thesis unfolding routes_inv_def route_of_put put_request_same ex all .
  qed
  show "installing (put_request i rq' w) x" if "installing w x" "rq_phase rq' = rq_phase rq \<or> snd x \<noteq> i"
    using that rq by (auto simp: installing_def live_def)
qed

section \<open>Starting a subscription\<close>

lemma allocate_fresh:
  assumes ok: "sub_ok E X w" and al: "allocate_request_id w = (Inr i, w')"
  shows "sb_requests w' i = None" "i < se_next_request_id w'"
proof -
  have i: "i = se_next_request_id w" "\<not> se_next_request_id w > u64_max - 2" "se_next_request_id w' = i + 2"
      "sb_requests w' = sb_requests w"
    using al by (auto simp: allocate_request_id_def split: if_splits)
  have "sb_requests w j = Some rq \<Longrightarrow> j < se_next_request_id w" for j rq
    using ok by (simp add: sub_ok_def sub_inv_def requests_inv_def)
  then show "sb_requests w' i = None" using i(1,4) by (metis less_irrefl not_None_eq)
  have "unat i + unat (2 :: u64) < 2 ^ 64" using i unfolding not_less u64_max_add by simp
  then show "i < se_next_request_id w'" using i(3) by (simp add: word_less_nat_alt unat_word_ariths(1))
qed

lemma enter_request_eq:
  "enter_request i st p w = set_sink st (Some (SubscriberRequestSink i))
     ((put_request i (new_request st p) w)\<lparr>sb_subscriptions := sb_subscriptions w @ [i]\<rparr>)"
  by (simp add: enter_request_def put_request_def set_sink_def Let_def)

lemma enter_request_ok:
  assumes ok: "sub_ok E X w" and p: "p \<in> E" and fresh: "sb_requests w i = None" "i < se_next_request_id w"
    and ph: "se_phase w \<noteq> Closing"
  shows "sub_ok (E - {p}) X (enter_request i st p w)"
proof -
  define w1 where "w1 = (put_request i (new_request st p) w)\<lparr>sb_subscriptions := sb_subscriptions w @ [i]\<rparr>"
  note new = new_request_def rq_promises_def
  have inv: "requests_inv w" "own_inv E w" "routes_inv (fst ` X) w" "\<forall>x\<in>X. installing w x" "calm w" "app_ok w"
    using ok by (simp_all add: sub_ok_def sub_inv_def)
  have l: "live w1 j rq \<longleftrightarrow> (if j = i then rq = new_request st p else live w j rq)" for j rq
    by (auto simp: w1_def live_def new)
  have r: "route_of w1 = route_of w" by (simp add: w1_def route_of_def fun_eq_iff)
  have dead: "\<not> live w i rq" for rq using fresh by (simp add: live_def)
  have "requests_inv w1"
    using inv(1) fresh dead unfolding requests_inv_def l by (auto simp: w1_def new)
  moreover have "own_inv (E - {p}) w1"
  proof (rule own_inv_acquire [OF inv(2) p, where y = "Some i"])
    show "holds w1 x q \<longleftrightarrow> holds w x q \<or> x = Some i \<and> q = p" for x q
      using fresh by (auto simp: holds_def w1_def new split: option.split)
  qed (use inv(2) in \<open>auto simp: w1_def own_inv_def new split: if_splits\<close>)
  moreover have "routes_inv (fst ` X) w1"
  proof -
    have "(\<exists>j q. route_of w a j \<and> live w1 j q \<and> rq_track_alias q = Some a) \<longleftrightarrow>
        (\<exists>j q. route_of w a j \<and> live w j q \<and> rq_track_alias q = Some a)" for a
      using dead by (auto simp: l new)
    moreover have "(\<forall>j q a. live w1 j q \<longrightarrow> rq_track_alias q = Some a \<longrightarrow> a \<notin> Y \<and> route_of w a j) \<longleftrightarrow>
        (\<forall>j q a. live w j q \<longrightarrow> rq_track_alias q = Some a \<longrightarrow> a \<notin> Y \<and> route_of w a j)" for Y
      using dead by (auto simp: l new split: if_splits) (metis dead)+
    ultimately show ?thesis using inv(3) unfolding routes_inv_def r by (simp add: w1_def)
  qed
  moreover have "\<forall>x\<in>X. installing w1 x"
    using inv(4) fresh unfolding installing_def r by (auto simp: w1_def)
  moreover have "calm w1" "app_ok w1" "closing_inv w1"
    using ok ph by (auto simp: w1_def calm_def app_ok_def closing_inv_def sub_ok_def sub_inv_def)
  ultimately have "sub_ok (E - {p}) X w1" by (simp add: sub_ok_def sub_inv_def)
  from sub_ok_still [OF still_updates(1) this] show ?thesis unfolding enter_request_eq w1_def .
qed

lemma live_enter: "live (enter_request i st p w) i (new_request st p)"
  by (simp add: live_def enter_request_eq set_sink_def new_request_def)

lemma still_live: "still w w' \<Longrightarrow> live w' i rq = live w i rq"
  by (simp add: still_def neutral_live)

lemma stop_settles:
  assumes ok: "sub_ok E X w" and rq: "live w i rq" and p: "p \<in> set (rq_promises rq)"
  shows "se_promises (stop_subscription_now i reason code w) p \<noteq> Some Pending"
proof -
  have "i \<in> set (sb_subscriptions w)" using ok rq by (auto simp: sub_ok_def sub_inv_def requests_inv_def)
  with rq have "se_promises (stop_subscription_now i reason code w) = se_promises (terminate i reason w)"
    by (simp add: stop_subscription_now_def live_def abort_receive_def abort_send_def emit_def)
  then show ?thesis using terminate_fields(3) [OF rq] p by simp
qed

lemma send_entered_ok:
  assumes ok: "sub_ok {} X w" and enc: "encodable request" and rq: "live w i (new_request st p)"
    and s: "send_entered i st request w = (e, w')"
  shows "sub_ok {} X w' \<and> (e \<noteq> None \<longrightarrow> se_promises w' p \<noteq> Some Pending)"
proof -
  obtain bytes where b: "encode_subscribe i request = Inr bytes" using enc unfolding encodable_def by blast
  obtain sent w1 where w1: "send st bytes False w = (sent, w1)" by fastforce
  have st: "still w w1" using still_send [of w st bytes False] w1 by simp
  then have ok1: "sub_ok {} X w1" using ok by (rule sub_ok_still)
  have l: "live w1 i (new_request st p)" using st rq still_live by blast
  have p: "p \<in> set (rq_promises (new_request st p))" by (simp add: rq_promises_def new_request_def)
  show ?thesis
    using s b w1 ok1 sub_ok_stop [OF ok1] stop_settles [OF ok1 l p]
    by (cases sent) (auto simp: send_entered_def)
qed

lemma subscribe_ok:
  assumes ok: "sub_ok {} X w" and enc: "handler \<Longrightarrow> encodable request"
  shows "sub_ok {} X (snd (subscribe request handler w))"
proof -
  obtain p w1 where n: "new_promise w = (p, w1)" by fastforce
  from sub_ok_new [OF ok n] have ok1: "sub_ok {p} X w1" by simp
  have f: "sub_ok {} X (Session.fail p e w')" if "sub_ok {p} X w'" for e and w' :: "'a subscriber_scheme"
    using sub_ok_fail [OF that, of p e] by simp
  show ?thesis
  proof (cases "handler \<and> se_phase w1 = Ready")
    case False
    then show ?thesis using n f [OF ok1] by (auto simp: subscribe_eq)
  next
    case True
    obtain x w2 where a: "allocate_request_id w1 = (x, w2)" by fastforce
    have s2: "still w1 w2" using still_allocate [of w1] a by simp
    have ok2: "sub_ok {p} X w2" using s2 ok1 by (rule sub_ok_still)
    show ?thesis
    proof (cases x)
      case (Inl e)
      then show ?thesis using n a True f [OF ok2] by (simp add: subscribe_eq send_subscribe_eq)
    next
      case (Inr i)
      obtain y w3 where o: "open_stream False w2 = (y, w3)" by fastforce
      have s3: "still w2 w3" using still_open [of w2 False] o by simp
      have ok3: "sub_ok {p} X w3" using s3 ok2 by (rule sub_ok_still)
      have fresh: "sb_requests w3 i = None" "i < se_next_request_id w3" "se_phase w3 \<noteq> Closing"
        using allocate_fresh [OF ok1, of i w2] a Inr s3 s2 True by (auto simp: still_def neutral_def)
      show ?thesis
      proof (cases y)
        case (Inl e)
        then show ?thesis using n a \<open>x = Inr i\<close> o True f [OF ok3] by (simp add: subscribe_eq send_subscribe_eq)
      next
        case (Inr st)
        obtain e w4 where w4: "send_entered i st request (enter_request i st p w3) = (e, w4)" by fastforce
        have "sub_ok {} X (enter_request i st p w3)"
          using enter_request_ok [OF ok3 _ fresh, of p st] by simp
        from send_entered_ok [OF this _ live_enter w4] enc True
        have "sub_ok {} X w4" "e \<noteq> None \<longrightarrow> se_promises w4 p \<noteq> Some Pending" by auto
        with n a \<open>x = Inr i\<close> o Inr True w4 show ?thesis
          by (auto simp: subscribe_eq send_subscribe_eq Session.fail_def split: option.split)
      qed
    qed
  qed
qed

section \<open>Updating a subscription\<close>

lemma send_request_update_ok:
  assumes ok: "sub_ok {p} X w" and rq: "live w i rq" and est: "rq_phase rq = Sub_Established"
    and s: "send_request_update i allocated update p w = (e, w')"
  shows "sub_ok (if e = None then {} else {p}) X w'"
proof (cases "encode_request_update allocated update")
  case (Inl a)
  then show ?thesis using s ok rq by (auto simp: send_request_update_eq live_def)
next
  case (Inr bytes)
  obtain sent w1 where w1: "send (rq_stream rq) bytes False w = (sent, w1)" by fastforce
  have st: "still w w1" using still_send [of w "rq_stream rq" bytes False] w1 by simp
  then have ok1: "sub_ok {p} X w1" using ok by (rule sub_ok_still)
  have l: "live w1 i rq" using st rq still_live by blast
  define rq' where "rq' = rq\<lparr>rq_updates := rq_updates rq @ [p]\<rparr>"
  define w2 where "w2 = put_request i rq' w1"
  note inv = ok1 [unfolded sub_ok_def sub_inv_def]
  have "request_ok (rq_phase rq) rq" using inv l by (auto simp: requests_inv_def live_def)
  then have rok: "request_ok (rq_phase rq') rq'" "rq_phase rq' \<noteq> Sub_Terminated" "rq_phase rq' = rq_phase rq"
      "rq_track_alias rq' = rq_track_alias rq"
    using est by (simp_all add: rq'_def)
  have prom: "rq_promises rq' = rq_promises rq @ [p]" by (simp add: rq'_def rq_promises_def)
  have own: "own_inv {p} w1" using inv by simp
  have free: "\<not> holds w1 x p" for x using own unfolding own_inv_def by blast
  have notin: "p \<notin> set (rq_promises rq)" using free [of "Some i"] l by (auto simp: holds_def live_def)
  have "own_inv ({p} - {p}) w2"
  proof (rule own_inv_acquire [OF own, where y = "Some i"])
    show "holds w2 x q \<longleftrightarrow> holds w1 x q \<or> x = Some i \<and> q = p" for x q
      using l by (auto simp: w2_def holds_put prom) (auto simp: holds_def live_def)
    show "distinct (rq_promises r)" if "sb_requests w2 j = Some r" for j r
      using that own l notin prom by (auto simp: w2_def own_inv_def live_def split: if_splits)
  qed (use own in \<open>auto simp: w2_def own_inv_def\<close>)
  then have "sub_ok {} X w2"
    using inv sub_parts_put [OF l rok(2,1,4)] rok(3)
    by (auto simp: sub_ok_def sub_inv_def w2_def calm_def app_ok_def closing_inv_def)
  with s Inr w1 rq ok1 show ?thesis
    by (cases sent) (auto simp: send_request_update_eq live_def w2_def rq'_def)
qed

lemma request_update_ok:
  assumes ok: "sub_ok {} X w"
  shows "sub_ok {} X (snd (request_update i update w))"
proof -
  obtain p w1 where n: "new_promise w = (p, w1)" by fastforce
  from sub_ok_new [OF ok n] have ok1: "sub_ok {p} X w1" by simp
  have f: "sub_ok {} X (Session.fail p e w')" if "sub_ok {p} X w'" for e and w' :: "'a subscriber_scheme"
    using sub_ok_fail [OF that, of p e] by simp
  show ?thesis
  proof (cases "i \<notin> set (sb_subscriptions w1) \<or> request_phase i w1 \<noteq> Sub_Established")
    case True
    then show ?thesis using n f [OF ok1] by (simp add: request_update_eq)
  next
    case False
    then obtain rq where rq: "live w1 i rq" "rq_phase rq = Sub_Established"
      by (auto simp: request_phase_def live_def split: option.splits)
    obtain x w2 where a: "allocate_request_id w1 = (x, w2)" by fastforce
    have s2: "still w1 w2" using still_allocate [of w1] a by simp
    have ok2: "sub_ok {p} X w2" using s2 ok1 by (rule sub_ok_still)
    show ?thesis
    proof (cases x)
      case (Inl e)
      then show ?thesis using n a False f [OF ok2] by (simp add: request_update_eq)
    next
      case (Inr allocated)
      obtain e w3 where w3: "send_request_update i allocated update p w2 = (e, w3)" by fastforce
      have "live w2 i rq" using still_live [OF s2] rq(1) by simp
      from send_request_update_ok [OF ok2 this rq(2) w3] n a Inr False w3 show ?thesis
        by (cases e) (auto simp: request_update_eq intro: f)
    qed
  qed
qed

section \<open>The callbacks of the data plane\<close>

definition call_ok :: "app_call \<Rightarrow> bool" where
  "call_ok c \<longleftrightarrow> (\<forall>request. c = CallSubscribe request \<longrightarrow> encodable request)"

lemma app_step_ok: "sub_ok {} X w \<Longrightarrow> call_ok c \<Longrightarrow> sub_ok {} X (app_step c w)"
  by (cases c) (simp_all add: call_ok_def stop_subscription_def sub_ok_stop close_def sub_ok_begin_close
      subscribe_ok request_update_ok)

lemma app_steps_ok: "sub_ok {} X w \<Longrightarrow> list_all call_ok cs \<Longrightarrow> sub_ok {} X (app_steps cs w)"
  by (induction cs arbitrary: w) (simp_all add: app_step_ok)

lemma on_object_ok:
  assumes ok: "sub_ok {} X w"
  shows "sub_ok {} X (on_object ob w)"
proof -
  have "list_all call_ok (sb_app w ob)"
    using ok by (auto simp: sub_ok_def sub_inv_def app_ok_def call_ok_def list_all_iff)
  then show ?thesis
    unfolding on_object_def by (intro app_steps_ok sub_ok_still [OF still_emit ok]) simp_all
qed

text \<open>Fields of the data plane the invariant does not speak of, and routes that keep their request.\<close>

lemma sub_ok_plane_updates:
  "sub_ok E X w \<Longrightarrow> sub_ok E X (w\<lparr>dp_pending_subgroups_by_alias := a\<rparr>)"
  "sub_ok E X w \<Longrightarrow> sub_ok E X (w\<lparr>dp_pending_subgroup_stream_count := b\<rparr>)"
  "sub_ok E X w \<Longrightarrow> sub_ok E X (w\<lparr>dp_unknown_datagrams := c\<rparr>)"
  "sub_ok E X w \<Longrightarrow> sub_ok E X (w\<lparr>dp_buffered_datagram_bytes := d\<rparr>)"
  "sub_ok E X w \<Longrightarrow> sub_ok E X (w\<lparr>dp_receivers := e\<rparr>)"
  by (rule sub_ok_still; simp add: still_def neutral_def calm_def)+

lemma sub_ok_update_route:
  assumes ok: "sub_ok E X w" and f: "\<And>r. rr_request_id (f r) = rr_request_id r \<and> rr_active (f r) = rr_active r"
  shows "sub_ok E X (update_route ref f w)"
proof -
  let ?w = "update_route ref f w"
  have w: "?w = w\<lparr>dp_heap := (dp_heap w)(ref := map_option f (dp_heap w ref))\<rparr>" by (simp add: update_route_def)
  have same: "live ?w = live w" "holds ?w = holds w" "route_of ?w = route_of w"
    using f by (auto simp: fun_eq_iff live_def holds_def w route_of_def split: option.split)
  have "requests_inv ?w = requests_inv w" "routes_inv Y ?w = routes_inv Y w" "installing ?w x = installing w x"
      "own_inv E ?w = own_inv E w" for Y x
    unfolding requests_inv_def routes_inv_def installing_def own_inv_def same by (simp_all add: w)
  with ok show ?thesis
    by (simp add: sub_ok_def sub_inv_def closing_inv_def calm_def app_ok_def w)
qed

interpretation subl: plane_lifting callbacks "sub_ok {} X" for X
proof unfold_locales
  fix w :: "'a subscriber_scheme" assume ok: "sub_ok {} X w"
  show "sub_ok {} X (cb_protocol_error callbacks e w)" for e
    using ok by (simp add: callbacks_def protocol_violation_def sub_ok_begin_close)
  show "sub_ok {} X (cb_track_error callbacks request_id e w)" for request_id e
    using ok by (simp add: callbacks_def sub_ok_stop)
  show "sub_ok {} X (cb_on_object callbacks ob w)" for ob
    using ok by (simp add: callbacks_def on_object_ok)
  show "sub_ok {} X (update_route ref (set_final_in_group g o_id) w)" for ref g o_id
    using ok by (rule sub_ok_update_route) (simp add: set_final_in_group_def)
  show "sub_ok {} X (update_route ref (note_final ob) w)" for ref ob
    using ok by (rule sub_ok_update_route) (simp add: note_final_def set_final_in_group_def Let_def)
  show "sub_ok {} X (abort_receive st code w)" for st code
    using ok by (rule sub_ok_still [OF still_aborts(1)])
qed (simp_all add: sub_ok_plane_updates)

end
