(* ===== verification/Subscriber_Reach.thy ===== *)
theory Subscriber_Reach
  imports Subscriber_Calls
begin

text \<open>
  The handlers of the request stream, the gate and the connection keep the subscriber's
  invariant, so every state a subscriber can reach has it.
\<close>

section \<open>SUBSCRIBE_OK\<close>

lemma route_of_cong:
  assumes "dp_routes_by_alias w' a = dp_routes_by_alias w a"
    and "\<And>ref. dp_routes_by_alias w a = Some ref \<Longrightarrow> dp_heap w' ref = dp_heap w ref"
  shows "route_of w' a i = route_of w a i"
  unfolding route_of_def assms(1) using assms(2) by metis

lemma new_route_ok:
  assumes ok: "sub_ok E X w"
  shows "sub_ok E X (snd (new_route i w))"
proof -
  let ?w = "snd (new_route i w)"
  have inv: "\<forall>a ref. dp_routes_by_alias w a = Some ref \<longrightarrow> ref < dp_next_route w"
    using ok by (simp add: sub_ok_def sub_inv_def routes_inv_def)
  have same: "live ?w = live w" "holds ?w = holds w"
    by (auto simp: fun_eq_iff live_def holds_def new_route_def split: option.split)
  have r: "route_of ?w a j = route_of w a j" for a j
    by (rule route_of_cong) (use inv in \<open>auto simp: new_route_def\<close>)
  have "requests_inv ?w = requests_inv w" "installing ?w x = installing w x" "own_inv E ?w = own_inv E w" for x
    unfolding requests_inv_def installing_def own_inv_def same r by (simp_all add: new_route_def)
  moreover have "routes_inv Y w \<Longrightarrow> routes_inv Y ?w" for Y
    unfolding routes_inv_def same r by (fastforce simp: new_route_def)
  ultimately show ?thesis
    using ok by (simp add: sub_ok_def sub_inv_def closing_inv_def calm_def app_ok_def) (simp add: new_route_def)
qed

text \<open>A fresh route enters the table while its request is pending.\<close>

lemma route_entered_ok:
  assumes ok: "sub_ok E {} w" and free: "dp_routes_by_alias w a = None"
    and ref: "dp_heap w ref = Some route" "rr_request_id route = i" "rr_active route" "ref < dp_next_route w"
    and unused: "\<And>b. dp_routes_by_alias w b \<noteq> Some ref"
    and rq: "sb_requests w i = Some rq" "rq_phase rq = Sub_Pending"
  shows "sub_ok E {(a, i)} (w\<lparr>dp_routes_by_alias := (dp_routes_by_alias w)(a \<mapsto> ref)\<rparr>)"
proof -
  define w1 where "w1 = w\<lparr>dp_routes_by_alias := (dp_routes_by_alias w)(a \<mapsto> ref)\<rparr>"
  have same: "live w1 = live w" "holds w1 = holds w"
    by (simp_all add: fun_eq_iff live_def holds_def w1_def split: option.split)
  have r: "route_of w1 b j \<longleftrightarrow> (if b = a then j = i else route_of w b j)" for b j
    using ref by (auto simp: route_of_def w1_def)
  have inv: "routes_inv {} w" using ok by (simp add: sub_ok_def sub_inv_def)
  have other: "live w j q \<Longrightarrow> rq_track_alias q = Some b \<Longrightarrow> b \<noteq> a" for j q b
    using inv free unfolding routes_inv_def route_of_def by (metis option.distinct(1))
  have "requests_inv w1 = requests_inv w" "own_inv E w1 = own_inv E w"
    unfolding requests_inv_def own_inv_def same by (simp_all add: w1_def)
  moreover have "installing w1 (a, i)" using rq by (simp add: installing_def r) (simp add: w1_def)
  moreover have "routes_inv {a} w1"
  proof -
    note i = inv [unfolded routes_inv_def]
    show ?thesis
      unfolding routes_inv_def same r
    proof (intro conjI allI impI)
      fix b assume "b \<notin> {a}" "dp_routes_by_alias w1 b \<noteq> None"
      with i show "\<exists>j q. (if b = a then j = i else route_of w b j) \<and> live w j q \<and> rq_track_alias q = Some b"
        by (simp add: w1_def)
    next
      fix j q b assume *: "live w j q" "rq_track_alias q = Some b"
      with other i show "b \<notin> {a}" "if b = a then j = i else route_of w b j" by auto
    next
      fix b c s assume "dp_routes_by_alias w1 b = Some s" "dp_routes_by_alias w1 c = Some s"
      with i unused show "b = c" by (auto simp: w1_def split: if_splits)
    next
      fix b s assume "dp_routes_by_alias w1 b = Some s"
      with i ref(4) show "s < dp_next_route w1" by (auto simp: w1_def split: if_splits)
    qed
  qed
  moreover have "calm w1 = calm w" "app_ok w1 = app_ok w" "closing_inv w1 = closing_inv w"
    by (simp_all add: w1_def calm_def app_ok_def closing_inv_def)
  ultimately show ?thesis
    using ok unfolding w1_def [symmetric] by (simp add: sub_ok_def sub_inv_def)
qed

lemma install_new_route_ok:
  assumes ok: "sub_ok {} {} w" and rq: "sb_requests w i = Some rq" "rq_phase rq = Sub_Pending"
    and n: "new_route i w = (ref, w1)" and ins: "install_route callbacks a ref w1 = (True, w2)"
  shows "sub_ok {} {(a, i)} w2"
proof -
  have ok1: "sub_ok {} {} w1" using new_route_ok [OF ok, of i] n by simp
  have w1: "ref = dp_next_route w" "dp_routes_by_alias w1 = dp_routes_by_alias w" "dp_next_route w1 = Suc ref"
      "sb_requests w1 = sb_requests w"
      "dp_heap w1 ref = Some \<lparr>rr_request_id = i, rr_active = True, rr_final_object_in_group = Map.empty,
             rr_final_object_in_track = None\<rparr>"
    using n by (auto simp: new_route_def)
  have free: "dp_routes_by_alias w1 a = None" using ins by (auto simp: install_route_def split: if_splits)
  have "dp_routes_by_alias w1 b \<noteq> Some ref" for b
    using ok w1(1,2) unfolding sub_ok_def sub_inv_def routes_inv_def by auto
  then have "sub_ok {} {(a, i)} (w1\<lparr>dp_routes_by_alias := (dp_routes_by_alias w1)(a \<mapsto> ref)\<rparr>)"
    by (intro route_entered_ok [OF ok1 free w1(5)]) (use w1 rq in simp_all)
  from subl.I_install_new [OF free this] ins show ?thesis by simp
qed

text \<open>The request ended on the way: its route goes too.\<close>

lemma retire_installed_ok:
  assumes ok: "sub_ok {} {(a, i)} w"
  shows "sub_ok {} {} (retire_route a w)"
proof -
  let ?w = "retire_route a w"
  have inv: "routes_inv {a} w" using ok by (simp add: sub_ok_def sub_inv_def)
  have same: "live ?w = live w" "holds ?w = holds w"
    by (simp_all add: fun_eq_iff live_def holds_def retire_route_def update_route_def split: option.split)
  have routes: "dp_routes_by_alias ?w b = (if b = a then None else dp_routes_by_alias w b)" for b
    by (auto simp: retire_route_def update_route_def split: option.split)
  have r: "route_of ?w b j \<longleftrightarrow> b \<noteq> a \<and> route_of w b j" for b j
  proof (cases "dp_routes_by_alias w a")
    case (Some ref)
    have "dp_routes_by_alias w b = Some ref \<Longrightarrow> b = a" using inv Some unfolding routes_inv_def by blast
    then have "b \<noteq> a \<Longrightarrow> dp_routes_by_alias w b = Some s \<Longrightarrow> dp_heap ?w s = dp_heap w s" for s
      using Some by (auto simp: retire_route_def update_route_def)
    then have "b \<noteq> a \<Longrightarrow> route_of ?w b j = route_of w b j"
      by (intro route_of_cong) (simp_all add: routes)
    moreover have "\<not> route_of ?w a j" by (simp add: route_of_def routes)
    ultimately show ?thesis by auto
  qed (auto simp: retire_route_def route_of_def)
  have "requests_inv ?w = requests_inv w" "own_inv {} ?w = own_inv {} w"
    unfolding requests_inv_def own_inv_def same
    by (simp_all add: retire_route_def update_route_def split: option.split)
  moreover have "routes_inv {} ?w"
    using inv unfolding routes_inv_def r same routes
    by (auto simp: retire_route_def update_route_def split: option.split if_splits)
  moreover have "calm ?w = calm w" "app_ok ?w = app_ok w" "closing_inv ?w = closing_inv w"
    by (auto simp: retire_route_def update_route_def calm_def app_ok_def closing_inv_def split: option.split)
  ultimately show ?thesis using ok by (simp add: sub_ok_def sub_inv_def)
qed

lemma established_ok:
  assumes ok: "sub_ok {} {(a, i)} w" and rq: "live w i rq" "rq_phase rq = Sub_Pending" "rq_result rq = Some p"
  shows "sub_ok {} {} (set_value p v
     (put_request i (rq\<lparr>rq_track_alias := Some a, rq_phase := Sub_Established, rq_result := None\<rparr>) w))"
proof -
  define rq' where "rq' = rq\<lparr>rq_track_alias := Some a, rq_phase := Sub_Established, rq_result := None\<rparr>"
  define f where "f = (se_promises w)(p \<mapsto> Fulfilled v)"
  define w1 where "w1 = put_request i rq' (w\<lparr>se_promises := f\<rparr>)"
  note inv = ok [unfolded sub_ok_def sub_inv_def]
  have idle: "rq_updates rq = []" "rq_track_alias rq = None"
    using inv rq by (force simp: requests_inv_def live_def)+
  have prom: "rq_promises rq = [p]" "rq_promises rq' = []" using idle rq by (simp_all add: rq_promises_def rq'_def)
  have held: "holds w (Some i) p" using rq prom by (simp add: holds_def live_def)
  have own: "own_inv {} w" using inv by simp
  have pend: "se_promises w p = Some Pending" using own held unfolding own_inv_def by blast
  have e: "set_value p v (put_request i rq' w) = w1"
    by (simp add: set_value_def pend w1_def f_def) (simp add: put_request_def)
  have l: "live w1 j q \<longleftrightarrow> (if j = i then q = rq' else live w j q)" for j q
    by (auto simp: w1_def live_def rq'_def)
  have i: "live w i q \<longleftrightarrow> q = rq" for q using rq(1) by (auto simp: live_def)
  have r: "route_of w1 = route_of w" by (simp add: w1_def route_of_def fun_eq_iff)
  have ra: "route_of w a i" using inv by (simp add: installing_def)
  have "own_inv {} w1" unfolding w1_def
    by (rule own_inv_put_settle [OF own, of i rq _ "{p}"]) (use rq(1) prom pend in \<open>auto simp: live_def f_def\<close>)
  moreover have "requests_inv w1"
  proof -
    have "(\<exists>q. live w1 j q) \<longleftrightarrow> (\<exists>q. live w j q)" for j using i by (auto simp: l)
    with inv show ?thesis unfolding requests_inv_def by (auto simp: w1_def rq'_def idle rq(1) [unfolded live_def])
  qed
  moreover have "routes_inv {} w1"
  proof -
    have routes: "routes_inv {a} w" using inv by simp
    note n = routes [unfolded routes_inv_def]
    show ?thesis
      unfolding routes_inv_def r l
    proof (intro conjI allI impI)
      fix b assume b: "dp_routes_by_alias w1 b \<noteq> None"
      show "\<exists>j q. route_of w b j \<and> (if j = i then q = rq' else live w j q) \<and> rq_track_alias q = Some b"
      proof (cases "b = a")
        case True
        then show ?thesis using ra by (auto simp: rq'_def)
      next
        case False
        with b n obtain j q where jq: "route_of w b j" "live w j q" "rq_track_alias q = Some b" by (auto simp: w1_def)
        with i idle have "j \<noteq> i" by auto
        with jq show ?thesis by auto
      qed
    qed (use n ra in \<open>auto simp: w1_def rq'_def split: if_splits\<close>)
  qed
  moreover have "calm w1" "app_ok w1" "closing_inv w1"
    using inv by (simp_all add: w1_def calm_def app_ok_def closing_inv_def)
  ultimately show ?thesis unfolding rq'_def [symmetric] e by (simp add: sub_ok_def sub_inv_def)
qed

lemma handle_subscribe_ok_ok:
  assumes ok: "sub_ok {} {} w"
  shows "sub_ok {} {} (handle_subscribe_ok i message w)"
proof (cases "request_phase i w \<noteq> Sub_Pending \<or> isl (decode_subscribe_ok (cm_payload message))")
  case True
  then show ?thesis
    using sub_ok_terminate [OF ok] by (auto simp: handle_subscribe_ok_def split: sum.split)
next
  case False
  then obtain okm rq where d: "decode_subscribe_ok (cm_payload message) = Inr okm"
      and rq: "sb_requests w i = Some rq" "rq_phase rq = Sub_Pending"
    by (cases "decode_subscribe_ok (cm_payload message)") (auto simp: request_phase_def split: option.splits)
  let ?a = "ok_track_alias okm"
  obtain ref w1 where n: "new_route i w = (ref, w1)" by fastforce
  have ok1: "sub_ok {} {} w1" using new_route_ok [OF ok, of i] n by simp
  obtain b w2 where ins: "install_route callbacks ?a ref w1 = (b, w2)" by fastforce
  show ?thesis
  proof (cases b)
    case False
    then have "w2 = w1" using ins by (auto simp: install_route_def Let_def split: if_splits prod.splits)
    with False show ?thesis
      using \<open>\<not> (request_phase i w \<noteq> Sub_Pending \<or> _)\<close> d n ins sub_ok_begin_close [OF ok1] by (simp add: handle_subscribe_ok_def)
  next
    case True
    have ok2: "sub_ok {} {(?a, i)} w2" using install_new_route_ok [OF ok rq n] ins True by simp
    then obtain rq2 where rq2: "sb_requests w2 i = Some rq2" "rq_phase rq2 = Sub_Pending \<or> rq_phase rq2 = Sub_Terminated"
      by (auto simp: sub_ok_def sub_inv_def installing_def)
    have fine: "request_ok (rq_phase rq2) rq2" using ok2 rq2 by (auto simp: sub_ok_def sub_inv_def requests_inv_def)
    show ?thesis
    proof (cases "rq_phase rq2 = Sub_Terminated")
      case t: True
      with \<open>\<not> (request_phase i w \<noteq> Sub_Pending \<or> _)\<close> d n ins True rq2 retire_installed_ok [OF ok2]
      show ?thesis by (simp add: handle_subscribe_ok_def request_phase_def)
    next
      case p: False
      with rq2 have pending: "live w2 i rq2" "rq_phase rq2 = Sub_Pending" by (simp_all add: live_def)
      with fine obtain q where q: "rq_result rq2 = Some q" by auto
      from \<open>\<not> (request_phase i w \<noteq> Sub_Pending \<or> _)\<close> d n ins True rq2 pending q established_ok [OF ok2 pending q]
      show ?thesis by (simp add: handle_subscribe_ok_def request_phase_def Let_def)
    qed
  qed
qed

section \<open>The other responses\<close>

text \<open>A pending request that is refused: as if it were terminated, with the refusal as its result.\<close>

lemma refuse_eq:
  assumes rq: "live w i rq" "rq_phase rq = Sub_Pending" "rq_result rq = Some p" "rq_updates rq = []" "rq_track_alias rq = None"
    and p: "se_promises w p = Some Pending"
  shows "terminate i [] (put_request i (rq\<lparr>rq_result := None\<rparr>) (Session.fail p e w)) =
    (terminate i [] w)\<lparr>se_promises := (se_promises w)(p \<mapsto> Failed e)\<rparr>"
  using assms by (simp add: terminate_def put_request_def Session.fail_def fail_updates_def live_def Let_def)

lemma own_inv_promises_cong:
  assumes "own_inv E w" "\<And>p. f p = Some Pending \<longleftrightarrow> se_promises w p = Some Pending" "\<And>p. f p = None \<longleftrightarrow> se_promises w p = None"
  shows "own_inv E (w\<lparr>se_promises := f\<rparr>)"
  using assms unfolding own_inv_def sub_parts_promises by simp

lemma request_of_live: "sub_ok E X w \<Longrightarrow> sb_requests w i = Some rq \<Longrightarrow> request_ok (rq_phase rq) rq"
  by (simp add: sub_ok_def sub_inv_def requests_inv_def)

lemma handle_request_error_ok:
  assumes ok: "sub_ok {} {} w"
  shows "sub_ok {} {} (handle_request_error i message w)"
proof (cases "decode_request_error (cm_payload message)")
  case (Inl e)
  then show ?thesis using sub_ok_terminate [OF ok] by (simp add: handle_request_error_def)
next
  case (Inr rejected)
  note inv = ok [unfolded sub_ok_def sub_inv_def]
  show ?thesis
  proof (cases "sb_requests w i")
    case None
    then show ?thesis using Inr ok by (simp add: handle_request_error_def)
  next
    case (Some rq)
    have fine: "request_ok (rq_phase rq) rq" using request_of_live [OF ok Some] .
    show ?thesis
    proof (cases "rq_phase rq = Sub_Pending")
      case True
      with fine obtain p where rq: "rq_result rq = Some p" "rq_updates rq = []" "rq_track_alias rq = None" by auto
      have l: "live w i rq" using Some True by (simp add: live_def)
      have "holds w (Some i) p" using Some rq by (simp add: holds_def rq_promises_def)
      then have pend: "se_promises w p = Some Pending" using inv unfolding own_inv_def by blast
      let ?t = "terminate i [] w" and ?f = "(se_promises w)(p \<mapsto> Failed (PRejected rejected))"
      have t: "sub_ok {} {} ?t" by (rule sub_ok_terminate [OF ok])
      have "own_inv {} (?t\<lparr>se_promises := ?f\<rparr>)"
        by (rule own_inv_promises_cong)
          (use t terminate_fields(3,4) [OF l, of "[]"] rq pend in \<open>auto simp: sub_ok_def sub_inv_def rq_promises_def\<close>)
      with t have "sub_ok {} {} (?t\<lparr>se_promises := ?f\<rparr>)"
        by (simp add: sub_ok_def sub_inv_def sub_parts_promises)
      with refuse_eq [OF l True rq pend] Inr Some True rq show ?thesis
        by (simp add: handle_request_error_def Let_def)
    next
      case False
      show ?thesis
      proof (cases "rq_updates rq = []")
        case True
        with False Inr Some sub_ok_terminate [OF ok] show ?thesis by (simp add: handle_request_error_def Let_def)
      next
        case up: False
        with fine have l: "live w i rq" using Some by (cases "rq_phase rq") (auto simp: live_def)
        let ?rq = "rq\<lparr>rq_updates := [], rq_phase := Sub_UpdateFailed\<rparr>"
        let ?f = "\<lambda>p. if p \<in> set (rq_updates rq) \<and> se_promises w p = Some Pending
            then Some (Failed (PRejected rejected)) else se_promises w p"
        have res: "rq_result rq = None" "rq_track_alias rq \<noteq> None" using fine False up by (cases "rq_phase rq"; auto)+
        have "own_inv {} (put_request i ?rq (w\<lparr>se_promises := ?f\<rparr>))"
          by (rule own_inv_put_settle [of _ _ _ rq _ "set (rq_updates rq)"])
            (use inv Some res in \<open>auto simp: rq_promises_def\<close>)
        moreover have "requests_inv (put_request i ?rq (w\<lparr>se_promises := ?f\<rparr>))" "routes_inv {} (put_request i ?rq (w\<lparr>se_promises := ?f\<rparr>))"
          using inv res l by (auto intro!: sub_parts_put(1,2) [where rq = rq] simp: sub_parts_promises live_def)
        ultimately have "sub_ok {} {} (put_request i ?rq (fail_updates (PRejected rejected) rq w))"
          using inv by (simp add: sub_ok_def sub_inv_def fail_updates_def fail_all_eq calm_def app_ok_def closing_inv_def)
        with up False Inr Some show ?thesis by (simp add: handle_request_error_def Let_def)
      qed
    qed
  qed
qed

lemma handle_request_ok_ok:
  assumes ok: "sub_ok {} {} w"
  shows "sub_ok {} {} (handle_request_ok i message w)"
proof (cases "sb_requests w i")
  case None
  then show ?thesis using ok by (simp add: handle_request_ok_def)
next
  case (Some rq)
  note inv = ok [unfolded sub_ok_def sub_inv_def]
  have t: "sub_ok {} {} (terminate i reason w)" for reason by (rule sub_ok_terminate [OF ok])
  show ?thesis
  proof (cases "rq_updates rq")
    case Nil
    then show ?thesis using Some t by (simp add: handle_request_ok_def)
  next
    case (Cons p ps)
    have fine: "request_ok (rq_phase rq) rq" using request_of_live [OF ok Some] .
    with Cons have l: "live w i rq" using Some by (cases "rq_phase rq") (auto simp: live_def)
    have res: "rq_result rq = None" "rq_track_alias rq \<noteq> None" "rq_phase rq \<noteq> Sub_Pending" using fine Cons by (cases "rq_phase rq"; auto)+
    let ?rq = "rq\<lparr>rq_updates := ps\<rparr>"
    have "holds w (Some i) p" using Some Cons by (simp add: holds_def rq_promises_def)
    then have pend: "se_promises w p = Some Pending" using inv unfolding own_inv_def by blast
    have "distinct (rq_promises rq)" using inv Some unfolding own_inv_def by blast
    then have d: "distinct (p # ps)" using Cons res by (simp add: rq_promises_def)
    have settled: "sub_ok {} {} (put_request i ?rq (set_value p v w))" for v
    proof -
      let ?f = "(se_promises w)(p \<mapsto> Fulfilled v)"
      have "own_inv {} (put_request i ?rq (w\<lparr>se_promises := ?f\<rparr>))"
        by (rule own_inv_put_settle [of _ _ _ rq _ "{p}"])
          (use inv Some res Cons d pend in \<open>auto simp: rq_promises_def\<close>)
      moreover have "requests_inv (put_request i ?rq (w\<lparr>se_promises := ?f\<rparr>))" "routes_inv {} (put_request i ?rq (w\<lparr>se_promises := ?f\<rparr>))"
        using inv res l fine by (cases "rq_phase rq"; auto intro!: sub_parts_put(1,2) [where rq = rq] simp: sub_parts_promises live_def)+
      ultimately show ?thesis
        using inv pend by (simp add: sub_ok_def sub_inv_def set_value_def calm_def app_ok_def closing_inv_def)
    qed
    show ?thesis using Some Cons t settled by (auto simp: handle_request_ok_def split: sum.split)
  qed
qed

lemma handle_publish_done_ok: "sub_ok {} {} w \<Longrightarrow> sub_ok {} {} (handle_publish_done i message w)"
  by (auto simp: handle_publish_done_def intro!: sub_ok_terminate sub_ok_still [OF still_emit] split: sum.split)

lemma handle_control_message_ok: "sub_ok {} {} w \<Longrightarrow> sub_ok {} {} (handle_control_message i message w)"
  by (auto simp: handle_control_message_def
      intro!: sub_ok_terminate handle_subscribe_ok_ok handle_request_error_ok handle_request_ok_ok handle_publish_done_ok
        sub_ok_still [OF still_emit])

section \<open>The request stream\<close>

lemma response_buffer_ok:
  assumes ok: "sub_ok E X w"
  shows "sub_ok E X (w\<lparr>sb_requests := (sb_requests w)(i := map_option (\<lambda>rq. rq\<lparr>rq_response_buffer := buffer\<rparr>) (sb_requests w i))\<rparr>)"
proof (cases "sb_requests w i")
  case None
  then show ?thesis using ok by (simp add: fun_upd_idem)
next
  case (Some rq)
  let ?rq = "rq\<lparr>rq_response_buffer := buffer\<rparr>"
  note inv = ok [unfolded sub_ok_def sub_inv_def]
  have fine: "request_ok (rq_phase rq) rq" using request_of_live [OF ok Some] .
  then have rok: "request_ok (rq_phase ?rq) ?rq" by (cases "rq_phase rq") simp_all
  have prom: "rq_promises ?rq = rq_promises rq" by (simp add: rq_promises_def)
  have own: "own_inv E w" "distinct (rq_promises rq)" using inv Some by (simp_all add: own_inv_def)
  have "own_inv E (put_request i ?rq (w\<lparr>se_promises := se_promises w\<rparr>))"
    by (rule own_inv_put_settle [OF own(1) Some, of _ "{}"]) (simp_all add: prom own(2))
  then have own: "own_inv E (put_request i ?rq w)" by simp
  have parts: "requests_inv (put_request i ?rq w) \<and> routes_inv (fst ` X) (put_request i ?rq w) \<and> (\<forall>x\<in>X. installing (put_request i ?rq w) x)"
  proof (cases "rq_phase rq = Sub_Terminated")
    case True
    then have l: "live (put_request i ?rq w) = live w"
      unfolding fun_eq_iff live_put using Some by (simp add: live_def)
    have "requests_inv (put_request i ?rq w)"
      using inv rok Some unfolding requests_inv_def l by auto
    moreover have "routes_inv (fst ` X) (put_request i ?rq w)"
      using inv unfolding routes_inv_def l by simp
    moreover have "installing w x \<Longrightarrow> installing (put_request i ?rq w) x" for x
      using Some by (auto simp: installing_def)
    ultimately show ?thesis using inv by blast
  next
    case False
    then have "live w i rq" using Some by (simp add: live_def)
    note put = sub_parts_put [OF this _ rok]
    from inv False show ?thesis by (auto intro!: put)
  qed
  have "sub_ok E X (put_request i ?rq w)"
    using own parts inv by (simp add: sub_ok_def sub_inv_def calm_def app_ok_def closing_inv_def)
  then show ?thesis using Some by (simp add: put_request_def)
qed

lemma request_on_receive_ok:
  assumes ok: "sub_ok {} {} w"
  shows "sub_ok {} {} (request_on_receive i chunks fin w)"
proof (cases "sb_requests w i")
  case None
  then show ?thesis using ok by (simp add: request_on_receive_def)
next
  case (Some rq)
  obtain w1 buffer where l: "control_loop (\<lambda>w. request_phase i w = Sub_Terminated) (handle_control_message i) w
      (rq_response_buffer rq @ concat chunks) = (w1, buffer)" by fastforce
  have "sub_ok {} {} (fst (control_loop (\<lambda>w. request_phase i w = Sub_Terminated) (handle_control_message i) w
      (rq_response_buffer rq @ concat chunks)))"
    by (rule control_loop_invariant [where I = "sub_ok {} {}", OF ok]) (rule handle_control_message_ok)
  then have "sub_ok {} {} w1" unfolding l by simp
  from response_buffer_ok [OF this, of i buffer]
  have "sub_ok {} {} (w1\<lparr>sb_requests := (sb_requests w1)(i := map_option (\<lambda>rq. rq\<lparr>rq_response_buffer := buffer\<rparr>) (sb_requests w1 i))\<rparr>)" .
  then show ?thesis
    unfolding request_on_receive_def Some option.case l prod.case Let_def by (simp add: sub_ok_terminate)
qed

section \<open>The session\<close>

lemma set_all_eq:
  "distinct ps \<Longrightarrow> \<forall>p\<in>set ps. se_promises w p = Some Pending \<Longrightarrow>
     set_all ps v w = w\<lparr>se_promises := (\<lambda>p. if p \<in> set ps then Some (Fulfilled v) else se_promises w p)\<rparr>"
proof (induction ps arbitrary: w)
  case (Cons p ps)
  then have "set_all (p # ps) v w = set_all ps v (w\<lparr>se_promises := (se_promises w)(p \<mapsto> Fulfilled v)\<rparr>)"
    by (simp add: set_value_def)
  also have "\<dots> = w\<lparr>se_promises := (\<lambda>q. if q \<in> set (p # ps) then Some (Fulfilled v) else se_promises w q)\<rparr>"
    using Cons by (subst Cons.IH) (auto simp: fun_eq_iff)
  finally show ?case .
qed simp

lemma maybe_ready_ok:
  assumes ok: "sub_ok {} {} w"
  shows "sub_ok {} {} (maybe_ready (\<lambda>w. w) w)"
proof (cases "\<not> se_local_setup_sent w \<or> \<not> se_peer_setup_received w \<or> se_phase w \<ge> Ready")
  case True
  then show ?thesis using ok by (auto simp: maybe_ready_def)
next
  case False
  let ?ps = "se_ready_waiters w"
  let ?f = "\<lambda>p. if p \<in> set ?ps then Some (Fulfilled ReadyValue) else se_promises w p"
  define w1 where "w1 = w\<lparr>se_phase := Ready, se_negotiated_version := Some kAlpn, se_promises := ?f, se_ready_waiters := []\<rparr>"
  note inv = ok [unfolded sub_ok_def sub_inv_def]
  have own: "own_inv {} w" using inv by simp
  have waiter: "holds w None p \<longleftrightarrow> p \<in> set ?ps" for p by (simp add: holds_def)
  have pend: "distinct ?ps" "\<forall>p\<in>set ?ps. se_promises w p = Some Pending"
    using own waiter unfolding own_inv_def by blast+
  have e: "maybe_ready (\<lambda>w. w) w = w1"
    using False pend by (simp add: maybe_ready_def Let_def set_all_eq w1_def cong: if_cong)
  have held: "holds w1 x p \<longleftrightarrow> holds w x p \<and> p \<notin> set ?ps" for x p
  proof (cases x)
    case (Some i)
    then have "holds w1 x p = holds w x p" by (simp add: holds_def w1_def)
    moreover have "holds w x p \<Longrightarrow> \<not> holds w None p" using own Some unfolding own_inv_def by blast
    ultimately show ?thesis using waiter by blast
  qed (simp add: holds_def w1_def)
  have "own_inv ({} - set ?ps) w1"
    by (rule own_inv_settle [OF own _ held]) (use own pend in \<open>auto simp: w1_def own_inv_def\<close>)
  moreover have same: "live w1 = live w" "route_of w1 = route_of w"
    by (simp_all add: fun_eq_iff live_def route_of_def w1_def)
  have "requests_inv w1 = requests_inv w" "routes_inv Y w1 = routes_inv Y w" for Y
    unfolding requests_inv_def routes_inv_def same by (simp_all add: w1_def)
  ultimately show ?thesis
    unfolding e using inv by (simp add: sub_ok_def sub_inv_def closing_inv_def calm_def app_ok_def) (simp add: w1_def)
qed

lemma still_session_updates:
  "still w (w\<lparr>se_local_setup_sent := b\<rparr>)" "still w (w\<lparr>se_peer_setup_received := b\<rparr>)" "still w (w\<lparr>tp_alive := b\<rparr>)"
  "still w (put_gate st m bytes w)" "still w (snd (new_stream uni sid w))" "still w (set_stream_id st sid w)"
  by (simp_all add: still_def neutral_def calm_def put_gate_def new_stream_def set_stream_id_def)

lemma connected_ok:
  assumes ok: "sub_ok {} {} w"
  shows "sub_ok {} {} (connected terminate_subscriptions (\<lambda>w. w) w)"
proof (cases "se_phase w = Init")
  case True
  define w1 where "w1 = w\<lparr>se_phase := SetupInProgress\<rparr>"
  have n: "neutral w w1" by (simp add: w1_def neutral_updates)
  have ok1: "sub_ok {} {} w1"
    using ok sub_inv_neutral [OF n] by (auto simp: sub_ok_def closing_inv_def) (simp_all add: w1_def less_eq_SessionPhase_def)
  obtain y w2 where o: "open_stream True w1 = (y, w2)" by fastforce
  have ok2: "sub_ok {} {} w2" using sub_ok_still [OF still_open ok1, of True] o by simp
  show ?thesis
  proof (cases y)
    case (Inl e)
    then show ?thesis using True o sub_ok_begin_close [OF ok2] by (simp add: connected_def Let_def w1_def)
  next
    case (Inr st)
    note y = Inr
    show ?thesis
    proof (cases "encode_setup (setup_authority (se_config w2)) (cfg_path (se_config w2))")
      case (Inl e)
      then show ?thesis using True o y sub_ok_begin_close [OF ok2] by (simp add: connected_def Let_def w1_def)
    next
      case (Inr bytes)
      obtain sent w3 where w3: "send st bytes False w2 = (sent, w3)" by fastforce
      have ok3: "sub_ok {} {} w3" using sub_ok_still [OF still_send ok2, of st bytes False] w3 by simp
      have "sub_ok {} {} (maybe_ready (\<lambda>w. w) (w3\<lparr>se_local_setup_sent := True\<rparr>))"
        by (intro maybe_ready_ok sub_ok_still [OF still_session_updates(1) ok3])
      with True o y Inr w3 sub_ok_begin_close [OF ok3] show ?thesis
        by (cases sent) (simp_all add: connected_def Let_def w1_def)
    qed
  qed
qed (simp add: connected_def ok)

lemma ready_ok:
  assumes ok: "sub_ok {} {} w"
  shows "sub_ok {} {} (snd (ready w))"
proof -
  obtain p w1 where n: "new_promise w = (p, w1)" by fastforce
  from sub_ok_new [OF ok n] have ok1: "sub_ok {p} {} w1" by simp
  show ?thesis
  proof (cases "se_phase w1 \<ge> Ready")
    case True
    then show ?thesis
      using n sub_ok_fail [OF ok1, of p] sub_ok_set_value [OF ok1, of p]
      by (cases "se_phase w1") (auto simp: ready_def phase_order)
  next
    case False
    define w2 where "w2 = w1\<lparr>se_ready_waiters := se_ready_waiters w1 @ [p]\<rparr>"
    note inv = ok1 [unfolded sub_ok_def sub_inv_def]
    have own: "own_inv {p} w1" using inv by simp
    have free: "\<not> holds w1 x p" for x using own unfolding own_inv_def by blast
    have "own_inv ({p} - {p}) w2"
    proof (rule own_inv_acquire [OF own, where y = None])
      show "holds w2 x q \<longleftrightarrow> holds w1 x q \<or> x = None \<and> q = p" for x q
        by (auto simp: holds_def w2_def split: option.split)
      show "distinct (se_ready_waiters w2)" using own free [of None] by (auto simp: w2_def own_inv_def holds_def)
    qed (use own in \<open>auto simp: w2_def own_inv_def\<close>)
    moreover have same: "live w2 = live w1" "route_of w2 = route_of w1"
      by (simp_all add: fun_eq_iff live_def route_of_def w2_def)
    have "requests_inv w2 = requests_inv w1" "routes_inv Y w2 = routes_inv Y w1" for Y
      unfolding requests_inv_def routes_inv_def same by (simp_all add: w2_def)
    ultimately have "sub_ok {} {} w2"
      using inv False by (simp add: sub_ok_def sub_inv_def closing_inv_def calm_def app_ok_def) (simp add: w2_def)
    with n False show ?thesis by (auto simp: ready_def w2_def phase_order)
  qed
qed

lemma shutdown_complete_ok:
  assumes ok: "sub_ok {} {} w"
  shows "sub_ok {} {} (shutdown_complete h w)"
proof -
  define w1 where "w1 = (if \<not> h \<and> se_close_reason w = None
      then w\<lparr>se_close_reason := Some (Close_InternalError, ''QUIC handshake did not complete'')\<rparr> else w)\<lparr>se_phase := Closed\<rparr>"
  have "neutral w w1" by (simp add: w1_def neutral_def calm_def)
  then have "sub_inv {} {} (fail_ready_waiters ''MOQT session closed'' w1)"
    using ok by (intro fail_ready_waiters_inv) (simp add: sub_ok_def sub_inv_neutral)
  then show ?thesis
    by (simp add: shutdown_complete_def w1_def Let_def sub_ok_def closing_inv_def fail_ready_waiters_def fail_all_eq)
qed

section \<open>Streams of the peer\<close>

lemma handle_peer_request_ok:
  assumes ok: "sub_ok {} {} w"
  shows "sub_ok {} {} (handle_peer_request message st leftover fin w)"
proof -
  have "\<not> isl (encode_request_error RequestError_Uninterested ''subscriber is not accepting PUBLISH'' 0)"
    "\<not> isl (encode_request_error RequestError_NotSupported ''subscriber-only implementation'' 0)"
    by code_simp+
  then show ?thesis
    using ok by (auto simp: handle_peer_request_def protocol_violation_def Let_def split: sum.split
        intro!: sub_ok_begin_close sub_ok_still [OF still_aborts(1)] sub_ok_still [OF still_send])
qed

lemma handle_data_stream_ok: "sub_ok {} {} w \<Longrightarrow> sub_ok {} {} (handle_data_stream type st prefix fin w)"
  by (auto simp: handle_data_stream_def intro!: sub_ok_still [OF still_aborts(1)] subl.I_start_subgroup_stream
      sub_ok_still [OF still_updates(1)])

lemma gate_ok:
  assumes ok: "sub_ok {} {} w"
  shows "sub_ok {} {} (gate_on_receive sub_role st chunks fin w)"
proof -
  have pv: "sub_ok {} {} (protocol_violation terminate_subscriptions e w')" if "sub_ok {} {} w'" for e and w' :: "'a subscriber_scheme"
    using sub_ok_begin_close [OF that] by (simp add: protocol_violation_def)
  have pg: "sub_ok {} {} (put_gate st m bytes w')" if "sub_ok {} {} w'" for m bytes and w' :: "'a subscriber_scheme"
    by (rule sub_ok_still [OF still_session_updates(4) that])
  have first: "sub_ok {} {} (gate_first_message sub_role st bytes fin w')" if "sub_ok {} {} w'" for bytes and w' :: "'a subscriber_scheme"
    using that by (auto simp: gate_first_message_def sub_role_def Let_def handle_peer_setup_def pv pg
        intro!: handle_peer_request_ok maybe_ready_ok sub_ok_still [OF still_session_updates(2)] split: sum.split)
  have "sub_ok {} {} (gate_classify sub_role st bytes fin w')" if "sub_ok {} {} w'" for bytes and w' :: "'a subscriber_scheme"
    using that first [OF that]
    by (auto simp: gate_classify_def Let_def pv pg sub_role_def intro!: handle_data_stream_ok)
  with ok show ?thesis
    by (auto simp: gate_on_receive_def Let_def pv pg sub_role_def split: option.split)
qed

section \<open>Every event\<close>

fun event_ok :: "subscriber_event \<Rightarrow> bool" where
  "event_ok (SubSubscribe request handler) \<longleftrightarrow> handler \<longrightarrow> encodable request"
| "event_ok _ \<longleftrightarrow> True"

lemma sink_receive_ok: "sub_ok {} {} w \<Longrightarrow> sub_ok {} {} (sink_receive k st chunks fin w)"
  by (cases k) (simp_all add: gate_ok subl.I_on_receive request_on_receive_ok)

lemma sink_send_aborted_ok: "sub_ok {} {} w \<Longrightarrow> sub_ok {} {} (sink_send_aborted k st code w)"
  by (cases k) (simp_all add: subl.I_on_peer_send_aborted sub_ok_terminate)

lemma sink_closed_ok: "sub_ok {} {} w \<Longrightarrow> sub_ok {} {} (sink_closed k st w)"
  by (cases k) (simp_all add: sub_ok_terminate)

lemma stream_callback_ok:
  "sub_ok {} {} w \<Longrightarrow> sub_ok {} {} (stream_callback sub_sinks (transport_error terminate_subscriptions) st event w)"
  by (cases event)
    (auto simp: stream_callback_def sub_sinks_def Let_def Session.transport_error_def split: option.split
      intro!: sub_ok_begin_close sink_receive_ok sink_send_aborted_ok sink_closed_ok
        sub_ok_still [OF still_session_updates(6)] sub_ok_still [OF still_updates(1)] sub_ok_still [OF still_updates(5)]
        sub_ok_still [OF still_updates(6)])

lemma connection_callback_ok:
  "sub_ok {} {} w \<Longrightarrow> sub_ok {} {} (connection_callback sub_callbacks event w)"
proof (cases event)
  case (PeerStreamStarted uni sid)
  assume ok: "sub_ok {} {} w"
  obtain st w1 where n: "new_stream uni sid w = (st, w1)" by fastforce
  have "sub_ok {} {} w1" using sub_ok_still [OF still_session_updates(5) ok, of uni sid] n by simp
  then show ?thesis
    using n PeerStreamStarted
    by (auto simp: connection_callback_def on_peer_stream_started_def
        intro!: sub_ok_still [OF still_updates(1)] sub_ok_still [OF still_updates(2)])
qed (auto simp: connection_callback_def sub_callbacks_def Session.transport_error_def
    intro: connected_ok subl.I_on_datagram sub_ok_begin_close shutdown_complete_ok)

lemma subscriber_step_ok: "sub_ok {} {} w \<Longrightarrow> event_ok event \<Longrightarrow> sub_ok {} {} (subscriber_step event w)"
  by (cases event)
    (simp_all add: connection_callback_ok stream_callback_ok ready_ok subscribe_ok request_update_ok
      stop_subscription_def sub_ok_stop close_def sub_ok_begin_close close_and_wait_def
      sub_ok_still [OF still_session_updates(3)])

end
