(* ===== verification/Subscriber_Safety.thy ===== *)
theory Subscriber_Safety
  imports Subscriber_Reach Session_Ages
begin

text \<open>
  The subscriber meets the contract of a session role, and every state it reaches has the
  bounds of the receive data plane: a stream's gate is done before its receiver exists, so a
  receiver is never replaced while it waits for a route.
\<close>

section \<open>The subscriber ages its session\<close>

lemma grows_state:
  "grows w (put_request i rq w)" "grows w (w\<lparr>sb_subscriptions := l\<rparr>)" "grows w (update_route ref f w)"
  "grows w (retire_route a w)" "grows w (snd (new_route i w))" "grows w (w\<lparr>sb_requests := m\<rparr>)"
  "grows w (w\<lparr>dp_pending_subgroups_by_alias := p\<rparr>)" "grows w (w\<lparr>dp_pending_subgroup_stream_count := n\<rparr>)"
  "grows w (w\<lparr>dp_unknown_datagrams := u\<rparr>)" "grows w (w\<lparr>dp_buffered_datagram_bytes := n\<rparr>)" "grows w (w\<lparr>dp_receivers := R\<rparr>)"
  "grows w (w\<lparr>dp_routes_by_alias := t\<rparr>)"
  unfolding grows_def
  by (intro conjI ages_transport;
      simp add: put_request_def update_route_def retire_route_def new_route_def log_extends_def split: option.split)+

lemma grows_terminate: "grows w (terminate i reason w)"
proof (cases "sb_requests w i")
  case (Some rq)
  note steps = grows_trans [OF _ grows_fail] grows_trans [OF _ grows_fail_all] grows_trans [OF _ grows_state(1)]
    grows_trans [OF _ grows_state(4)] grows_trans [OF _ grows_state(2)] grows_trans [OF _ grows_emit]
  show ?thesis
    using Some by (auto simp: terminate_def Let_def fail_updates_def split: option.split intro!: steps)
qed (simp add: terminate_def)

lemma grows_terminate_subscriptions: "grows w (terminate_subscriptions reason w)"
proof -
  have "grows w (terminate_all is reason w)" for "is"
    by (induction "is" arbitrary: w) (auto intro: grows_trans [OF grows_terminate])
  then show ?thesis by (simp add: terminate_subscriptions_def)
qed

interpretation sub_closing: session_closing terminate_subscriptions
  by unfold_locales (rule grows_terminate_subscriptions)

lemma grows_stop: "grows w (stop_subscription_now i reason code w)"
  by (auto simp: stop_subscription_now_def split: option.split
      intro: grows_trans [OF grows_trans [OF grows_terminate grows_stream(2)] grows_stream(1)])

lemma grows_enter: "grows w (enter_request i st p w)"
  unfolding enter_request_eq
  by (rule grows_trans [OF grows_trans [OF grows_state(1) grows_state(2)] grows_stream(3)])

lemma grows_bind:
  assumes "grows w (snd (f w))" "\<And>x w'. f w = (x, w') \<Longrightarrow> grows w' (g x w')"
  shows "grows w (case f w of (x, w) \<Rightarrow> g x w)"
  using assms by (cases "f w") (auto intro: grows_trans)

lemma grows_send_entered: "grows w (snd (send_entered i st request w))"
proof (cases "encode_subscribe i request")
  case (Inr bytes)
  obtain ok w1 where s: "send st bytes False w = (ok, w1)" by fastforce
  have "grows w w1" using grows_stream(5) [of w st bytes False] s by simp
  with Inr s show ?thesis
    by (cases ok) (auto simp: send_entered_def intro: grows_trans [OF _ grows_stop])
qed (simp add: send_entered_def)

lemma grows_subscribe: "grows w (snd (subscribe request handler w))"
proof -
  have sent: "grows w (snd (send_subscribe p request w))" for p and w :: "'a subscriber_scheme"
  proof -
    obtain x w1 where a: "allocate_request_id w = (x, w1)" by fastforce
    have g1: "grows w w1" using grows_allocate [of w] a by simp
    show ?thesis
    proof (cases x)
      case (Inr i)
      obtain y w2 where o: "open_stream False w1 = (y, w2)" by fastforce
      have g2: "grows w w2" using grows_trans [OF g1 grows_stream(8), of False] o by simp
      have "grows w (snd (send_entered i st request (enter_request i st p w2)))" for st
        by (rule grows_trans [OF g2 grows_trans [OF grows_enter grows_send_entered]])
      with a Inr o g2 show ?thesis by (cases y) (simp_all add: send_subscribe_eq)
    qed (simp add: send_subscribe_eq a g1)
  qed
  have rest: "grows w (case send_subscribe p request w of (e, w) \<Rightarrow>
       (case e of None \<Rightarrow> w | Some e \<Rightarrow> Session.fail p (PError (exn_what e)) w))" for p and w :: "'a subscriber_scheme"
    by (rule grows_bind [OF sent]) (simp add: grows_fail split: option.split)
  show ?thesis
    unfolding subscribe_eq by (rule grows_bind [OF grows_new_promise]) (simp add: grows_fail rest)
qed

lemma grows_request_update: "grows w (snd (request_update i update w))"
proof -
  have sent: "grows w (snd (send_request_update i allocated update p w))" for allocated p and w :: "'a subscriber_scheme"
  proof (cases "sb_requests w i")
    case (Some rq)
    have "grows w (snd (case send (rq_stream rq) bytes False w of (ok, w) \<Rightarrow>
         (case ok of True \<Rightarrow> (None, put_request i (rq\<lparr>rq_updates := rq_updates rq @ [p]\<rparr>) w)
          | False \<Rightarrow> (Some (runtime_error ''StreamSend failed for REQUEST_UPDATE''), w))))" for bytes
      using grows_stream(5) [of w "rq_stream rq" bytes False]
      by (auto intro: grows_trans [OF _ grows_state(1)] split: prod.split bool.split)
    with Some show ?thesis by (simp add: send_request_update_eq split: sum.split)
  qed (simp add: send_request_update_eq)
  have rest: "grows w (case send_request_update i allocated update p w of (e, w) \<Rightarrow>
            (case e of None \<Rightarrow> w | Some e \<Rightarrow> Session.fail p (PError (exn_what e)) w))" for allocated p and w :: "'a subscriber_scheme"
    by (rule grows_bind [OF sent]) (simp add: grows_fail split: option.split)
  have "grows w (case allocate_request_id w of (x, w) \<Rightarrow>
       (case x of Inl e \<Rightarrow> Session.fail p (PError (exn_what e)) w
        | Inr allocated \<Rightarrow> (case send_request_update i allocated update p w of (e, w) \<Rightarrow>
            (case e of None \<Rightarrow> w | Some e \<Rightarrow> Session.fail p (PError (exn_what e)) w))))" for p and w :: "'a subscriber_scheme"
    by (rule grows_bind [OF grows_allocate]) (simp add: grows_fail rest split: sum.split)
  then show ?thesis
    unfolding request_update_eq by (intro grows_bind [OF grows_new_promise]) (simp add: grows_fail)
qed

lemma grows_app_steps: "grows w (app_steps cs w)"
proof (induction cs arbitrary: w)
  case (Cons c cs)
  have "grows w (app_step c w)"
    by (cases c) (simp_all add: stop_subscription_def grows_stop sub_closing.close_grows grows_subscribe grows_request_update)
  with Cons show ?case by (auto intro: grows_trans)
qed simp

lemma grows_on_object: "grows w (on_object ob w)"
  unfolding on_object_def by (rule grows_trans [OF grows_emit grows_app_steps])

interpretation suba: plane_lifting callbacks "grows w0" for w0
  by unfold_locales
    (auto simp: callbacks_def intro: grows_trans sub_closing.protocol_violation_grows grows_stop grows_on_object grows_state grows_stream)

lemma grows_install: "grows w (snd (install_route callbacks a ref w))"
  by (rule suba.I_install_route [OF grows_refl]) (rule grows_state)

interpretation sub_session: session_role sub_role
proof unfold_locales
  show "grows w (role_terminate sub_role reason w)" for reason w
    by (simp add: sub_role_def grows_terminate_subscriptions)
  show "ages w (role_on_ready sub_role w)" for w by (simp add: sub_role_def)
  show "ages w (role_data_stream sub_role type st prefix fin w)" for type st prefix fin w
    by (auto simp: sub_role_def handle_data_stream_def grows_stream
        intro!: grows_ages suba.I_start_subgroup_stream intro: grows_trans grows_stream)
  show "ages w (role_peer_request sub_role message st leftover fin w)" for message st leftover fin w
    by (auto simp: sub_role_def handle_peer_request_def Let_def split: sum.split
        intro!: grows_ages sub_closing.protocol_violation_grows grows_emit grows_trans [OF grows_stream(5) grows_stream(1)])
qed

section \<open>Responses\<close>

lemma grows_handle_subscribe_ok: "grows w (handle_subscribe_ok i message w)"
proof (cases "request_phase i w \<noteq> Sub_Pending \<or> isl (decode_subscribe_ok (cm_payload message))")
  case True
  then show ?thesis by (auto simp: handle_subscribe_ok_def grows_terminate split: sum.split)
next
  case False
  then obtain ok where d: "request_phase i w = Sub_Pending" "decode_subscribe_ok (cm_payload message) = Inr ok"
    by (cases "decode_subscribe_ok (cm_payload message)") auto
  obtain ref w1 where n: "new_route i w = (ref, w1)" by fastforce
  obtain b w2 where ins: "install_route callbacks (ok_track_alias ok) ref w1 = (b, w2)" by fastforce
  have g: "grows w w2"
    using grows_trans [OF grows_state(5) [of w i] grows_install] n ins by (metis snd_conv)
  show ?thesis
    using d n ins by (cases b) (auto simp: handle_subscribe_ok_def Let_def split: option.split
        intro!: grows_trans [OF g] sub_closing.begin_close_grows grows_state(4)
          grows_trans [OF grows_state(1) grows_emit] grows_trans [OF grows_state(1) grows_set_value])
qed

lemma grows_handle_control_message: "grows w (handle_control_message i message w)"
proof -
  have "grows w (handle_request_error i message w)"
    by (auto simp: handle_request_error_def fail_updates_def Let_def split: sum.split option.split
        intro!: grows_terminate grows_emit grows_trans [OF grows_trans [OF grows_fail grows_state(1)] grows_terminate]
          grows_trans [OF grows_fail_all grows_state(1)])
  moreover have "grows w (handle_request_ok i message w)"
    by (auto simp: handle_request_ok_def split: sum.split option.split list.split
        intro!: grows_terminate grows_trans [OF grows_set_value grows_state(1)])
  moreover have "grows w (handle_publish_done i message w)"
    by (auto simp: handle_publish_done_def split: sum.split intro!: grows_terminate grows_trans [OF grows_emit grows_terminate])
  ultimately show ?thesis
    by (auto simp: handle_control_message_def intro: grows_terminate grows_handle_subscribe_ok grows_emit)
qed

lemma request_on_receive_invariant:
  assumes I: "I w" and handle: "\<And>m w. I w \<Longrightarrow> I (handle_control_message i m w)"
    and buffer: "\<And>w m. I w \<Longrightarrow> I (w\<lparr>sb_requests := m\<rparr>)" and terminate: "\<And>w reason. I w \<Longrightarrow> I (terminate i reason w)"
  shows "I (request_on_receive i chunks fin w)"
proof (cases "sb_requests w i")
  case (Some rq)
  have "I (fst (control_loop (\<lambda>w. request_phase i w = Sub_Terminated) (handle_control_message i) w
      (rq_response_buffer rq @ concat chunks)))"
    by (rule control_loop_invariant [where I = I, OF I]) (rule handle)
  with Some show ?thesis
    by (auto simp: request_on_receive_def Let_def intro!: terminate buffer split: prod.splits)
qed (simp add: request_on_receive_def I)

lemma grows_request_on_receive: "grows w (request_on_receive i chunks fin w)"
  by (rule request_on_receive_invariant [where I = "grows w"])
    (auto intro: grows_trans grows_handle_control_message grows_state(6) grows_terminate)

section \<open>Every event ages the session\<close>

lemmas sub_session_ages = sub_session.gate_on_receive_ages sub_session.connected_ages [unfolded sub_role_def, simplified]
  peer_stream_started_ages

lemma sink_receive_ages: "ages w (sink_receive k st chunks fin w)"
  by (cases k) (simp_all add: sub_session_ages grows_ages [OF suba.I_on_receive [OF grows_refl]]
      grows_ages [OF grows_request_on_receive])

lemma stream_callback_ages:
  "ages w (stream_callback sub_sinks (transport_error terminate_subscriptions) st event w)"
proof -
  have aborted: "ages w (sink_send_aborted k st code w)" and closed: "ages w' (sink_closed k st w')" for k code and w' :: "'a subscriber_scheme"
    by (cases k; simp add: grows_ages [OF suba.I_on_peer_send_aborted [OF grows_refl]] grows_ages [OF grows_terminate])+
  note error = ages_trans [OF ages_stream(7) grows_ages [OF sub_closing.transport_error_grows]]
  show ?thesis
  proof (cases event)
    case StreamShutdownComplete
    have "ages w' (case k of None \<Rightarrow> w' | Some k \<Rightarrow> sink_closed k st w')" for k and w' :: "'a subscriber_scheme"
      using closed by (auto split: option.split)
    note steps = ages_trans [OF ages_trans [OF ages_stream(3) this] ages_stream(5)]
    have e: "on_sink_closed sub_sinks = sink_closed" by (simp add: sub_sinks_def)
    show ?thesis
      using StreamShutdownComplete ages_trans [OF ages_stream(6) steps] steps
      by (simp add: stream_callback_def Let_def e cong: option.case_cong)
  qed (auto simp: stream_callback_def Let_def sub_sinks_def sink_receive_ages aborted ages_stream error split: option.split)
qed

lemma connection_callback_ages: "ages w (connection_callback sub_callbacks event w)"
  by (cases event)
    (auto simp: connection_callback_def sub_callbacks_def sub_session_ages ages_shutdown_complete
      grows_ages [OF suba.I_on_datagram [OF grows_refl]] grows_ages [OF sub_closing.transport_error_grows]
      split: prod.split)

lemma subscriber_step_ages: "ages w (subscriber_step event w)"
  by (cases event)
    (simp_all add: connection_callback_ages stream_callback_ages ages_ready grows_ages [OF grows_subscribe]
      grows_ages [OF grows_request_update] stop_subscription_def grows_ages [OF grows_stop]
      grows_ages [OF sub_closing.close_grows] sub_closing.close_and_wait_ages)

end
