(* ===== verification/Subscriber_Bounds.thy ===== *)
theory Subscriber_Bounds
  imports Subscriber_Safety
begin

text \<open>
  The bounds of the receive data plane hold in every state of a subscriber. The gate of a peer
  stream is done before the receiver of that stream is created, so \<open>start_subgroup_stream\<close>
  never replaces a receiver that waits for a route.
\<close>

definition gates_inv :: "'a plane_scheme \<Rightarrow> bool" where
  "gates_inv w \<longleftrightarrow>
     (\<forall>st g. se_gates w st = Some g \<longrightarrow> g_mode g \<noteq> GateDone \<longrightarrow> st \<notin> dom (dp_receivers w)) \<and>
     (\<forall>st. st \<in> dom (dp_receivers w) \<or> st \<in> dom (se_gates w) \<longrightarrow> st < tp_next_stream w)"

definition bounded :: "'a plane_scheme \<Rightarrow> bool" where
  "bounded w \<longleftrightarrow> plane_inv w \<and> gates_inv w"

lemma gates_inv_grows:
  "gates_inv w \<Longrightarrow> grows w w' \<Longrightarrow> dom (dp_receivers w') = dom (dp_receivers w) \<Longrightarrow> gates_inv w'"
  unfolding gates_inv_def grows_def ages_def by (metis order_less_le_trans)

lemma bounded_frame: "bounded w \<Longrightarrow> plane_frame w w' \<Longrightarrow> grows w w' \<Longrightarrow> bounded w'"
  using plane_inv_frame [of w w'] gates_inv_grows [of w w'] by (simp add: bounded_def plane_frame_def)

lemma bounded_quiet: "bounded w \<Longrightarrow> quiet f \<Longrightarrow> grows w (f w) \<Longrightarrow> bounded (f w)"
  using bounded_frame quiet_frame by blast

lemma plane_frame_same:
  "dp_config w' = dp_config w \<Longrightarrow> dp_next_route w' = dp_next_route w \<Longrightarrow>
   dp_pending_subgroups_by_alias w' = dp_pending_subgroups_by_alias w \<Longrightarrow>
   dp_pending_subgroup_stream_count w' = dp_pending_subgroup_stream_count w \<Longrightarrow>
   dp_unknown_datagrams w' = dp_unknown_datagrams w \<Longrightarrow> dp_buffered_datagram_bytes w' = dp_buffered_datagram_bytes w \<Longrightarrow>
   dp_receivers w' = dp_receivers w \<Longrightarrow> dp_routes_by_alias w' = dp_routes_by_alias w \<Longrightarrow> dp_heap w' = dp_heap w \<Longrightarrow>
   plane_frame w w'"
  by (simp add: plane_frame_def)

section \<open>Operations of the subscriber\<close>

lemma bounded_ops:
  "bounded w \<Longrightarrow> bounded (terminate i reason w)"
  "bounded w \<Longrightarrow> bounded (stop_subscription_now i reason code w)"
  "bounded w \<Longrightarrow> bounded (begin_close terminate_subscriptions code reason w)"
  "bounded w \<Longrightarrow> bounded (snd (subscribe request handler w))"
  "bounded w \<Longrightarrow> bounded (snd (request_update i update w))"
  "bounded w \<Longrightarrow> bounded (emit e w)" "bounded w \<Longrightarrow> bounded (abort_receive st c w)"
  "bounded w \<Longrightarrow> bounded (set_sink st k w)" "bounded w \<Longrightarrow> bounded (retire_route a w)"
  by (rule bounded_quiet [OF _ quiet_terminate grows_terminate] bounded_quiet [OF _ quiet_stop grows_stop]
      bounded_quiet [OF _ quiet_close sub_closing.begin_close_grows] bounded_quiet [OF _ quiet_subscribe grows_subscribe]
      bounded_quiet [OF _ quiet_request_update grows_request_update] bounded_quiet [OF _ quiet_emit grows_emit]
      bounded_quiet [OF _ quiet_abort_receive grows_stream(1)] bounded_quiet [OF _ quiet_set_sink grows_stream(3)]
      bounded_quiet [OF _ quiet_retire_route grows_state(4)]; assumption)+

lemma bounded_state:
  "bounded w \<Longrightarrow> bounded (w\<lparr>sb_requests := m\<rparr>)" "bounded w \<Longrightarrow> bounded (put_request i rq w)"
  "bounded w \<Longrightarrow> bounded (snd (send st bytes fin w))" "bounded w \<Longrightarrow> bounded (snd (open_stream uni w))"
  "bounded w \<Longrightarrow> bounded (set_value p v w)" "bounded w \<Longrightarrow> bounded (Session.fail p e w)"
  "bounded w \<Longrightarrow> bounded (fail_all ps e w)" "bounded w \<Longrightarrow> bounded (fail_ready_waiters reason w)"
proof -
  assume b: "bounded w"
  note f = bounded_frame [OF b _ grows_state(6)] bounded_frame [OF b _ grows_state(1)] bounded_frame [OF b _ grows_stream(5)]
    bounded_frame [OF b _ grows_stream(8)] bounded_frame [OF b _ grows_set_value] bounded_frame [OF b _ grows_fail]
    bounded_frame [OF b _ grows_fail_all] bounded_frame [OF b _ grows_fail_ready_waiters]
  show "bounded (w\<lparr>sb_requests := m\<rparr>)" "bounded (put_request i rq w)" "bounded (snd (send st bytes fin w))"
    "bounded (snd (open_stream uni w))" "bounded (set_value p v w)" "bounded (Session.fail p e w)"
    "bounded (fail_all ps e w)" "bounded (fail_ready_waiters reason w)"
    by (rule f, rule plane_frame_same;
        simp add: put_request_def send_def open_stream_def quic_call_def new_stream_def remove_stream_def close_handle_def
          set_value_def Session.fail_def emit_def Let_def fail_all_eq fail_ready_waiters_def)+
qed

text \<open>Changes of the transport and the session that keep the gates.\<close>

lemma bounded_other:
  assumes b: "bounded w" and same: "dp_config w' = dp_config w" "dp_routes_by_alias w' = dp_routes_by_alias w"
    "dp_pending_subgroups_by_alias w' = dp_pending_subgroups_by_alias w"
    "dp_pending_subgroup_stream_count w' = dp_pending_subgroup_stream_count w"
    "dp_unknown_datagrams w' = dp_unknown_datagrams w" "dp_buffered_datagram_bytes w' = dp_buffered_datagram_bytes w"
    "dp_receivers w' = dp_receivers w" "se_gates w' = se_gates w" "tp_next_stream w \<le> tp_next_stream w'"
  shows "bounded w'"
proof -
  have "plane_inv w'"
    using b same by (simp add: bounded_def plane_inv_unfold datagrams_inv_def parked_inv_def)
  moreover have "gates_inv w'"
    using b same unfolding bounded_def gates_inv_def by (metis order_less_le_trans)
  ultimately show ?thesis by (simp add: bounded_def)
qed

lemma bounded_updates:
  "bounded w \<Longrightarrow> bounded (close_handle st w)" "bounded w \<Longrightarrow> bounded (remove_stream st w)"
  "bounded w \<Longrightarrow> bounded (set_stream_id st sid w)" "bounded w \<Longrightarrow> bounded (w\<lparr>tp_alive := b\<rparr>)"
  "bounded w \<Longrightarrow> bounded (w\<lparr>se_phase := ph\<rparr>)" "bounded w \<Longrightarrow> bounded (w\<lparr>se_close_reason := cr\<rparr>)"
  "bounded w \<Longrightarrow> bounded (w\<lparr>se_local_setup_sent := b\<rparr>)" "bounded w \<Longrightarrow> bounded (w\<lparr>se_peer_setup_received := b\<rparr>)"
  "bounded w \<Longrightarrow> bounded (w\<lparr>se_negotiated_version := v\<rparr>)" "bounded w \<Longrightarrow> bounded (w\<lparr>se_ready_waiters := l\<rparr>)"
  "bounded w \<Longrightarrow> bounded (snd (new_route i w))" "bounded w \<Longrightarrow> bounded (snd (new_promise w))"
  by (erule bounded_other; simp add: close_handle_def remove_stream_def set_stream_id_def emit_def new_route_def new_promise_def)+

section \<open>Entry points of the data plane\<close>

lemma bounded_entry:
  "bounded w \<Longrightarrow> grows w w' \<Longrightarrow> (plane_inv w \<Longrightarrow> plane_inv w' \<and> dom (dp_receivers w') = dom (dp_receivers w)) \<Longrightarrow> bounded w'"
  using gates_inv_grows [of w w'] by (simp add: bounded_def)

lemma bounded_on_receive: "bounded w \<Longrightarrow> bounded (on_receive callbacks st chunks fin w)"
  by (rule bounded_entry [OF _ suba.I_on_receive [OF grows_refl] sub.on_receive_inv])

lemma bounded_on_peer_send_aborted:
  fixes w :: "'a subscriber_scheme"
  assumes b: "bounded w"
  shows "bounded (on_peer_send_aborted st w)"
proof -
  have "dom (dp_receivers (on_peer_send_aborted st w)) = dom (dp_receivers w)"
    by (auto simp: on_peer_send_aborted_def put_receiver_def discard_pending_subgroup_def Let_def split: option.splits if_splits)
  then show ?thesis
    by (intro bounded_entry [OF b suba.I_on_peer_send_aborted [OF grows_refl]] conjI sub.on_peer_send_aborted_inv)
qed

lemma bounded_on_datagram: "bounded w \<Longrightarrow> bounded (on_datagram callbacks bytes w)"
proof -
  assume b: "bounded w"
  have "on_datagram callbacks bytes w = deliver_datagram callbacks bytes False w \<or>
      (\<exists>a. on_datagram callbacks bytes w = buffer_unknown_datagram callbacks a bytes w)"
    by (auto simp: on_datagram_def deliver_datagram_def find_route_def split: option.split sum.split)
  moreover have "dp_receivers (deliver_datagram callbacks bytes False w) = dp_receivers w"
    using quiet_frame [OF sub.quiet_replayed, of w bytes] by (simp add: plane_frame_def)
  moreover have "dp_receivers (buffer_unknown_datagram callbacks a bytes w) = dp_receivers w" for a
    using quiet_frame [OF sub.quiet_protocol_error, of w]
    by (auto simp: buffer_unknown_datagram_def plane_frame_def Let_def split: UnknownAliasPolicy.split)
  ultimately have "dp_receivers (on_datagram callbacks bytes w) = dp_receivers w" by auto
  then show ?thesis
    by (intro bounded_entry [OF b suba.I_on_datagram [OF grows_refl]] conjI sub.on_datagram_plane_inv) simp_all
qed

lemma bounded_install: "bounded w \<Longrightarrow> bounded (snd (install_route callbacks a ref w))"
  by (rule bounded_entry [OF _ grows_install sub.install_route_inv])

section \<open>Responses\<close>

lemma bounded_handle_subscribe_ok: "bounded w \<Longrightarrow> bounded (handle_subscribe_ok i message w)"
proof (cases "request_phase i w \<noteq> Sub_Pending \<or> isl (decode_subscribe_ok (cm_payload message))")
  case True
  then show "bounded w \<Longrightarrow> ?thesis" by (auto simp: handle_subscribe_ok_def bounded_ops split: sum.split)
next
  case False
  assume b: "bounded w"
  obtain ok where d: "request_phase i w = Sub_Pending" "decode_subscribe_ok (cm_payload message) = Inr ok"
    using False by (cases "decode_subscribe_ok (cm_payload message)") auto
  obtain ref w1 where n: "new_route i w = (ref, w1)" by fastforce
  obtain c w2 where ins: "install_route callbacks (ok_track_alias ok) ref w1 = (c, w2)" by fastforce
  have b2: "bounded w2"
    using bounded_install [OF bounded_updates(11) [OF b]] n ins by (metis snd_conv)
  then show ?thesis
    using d n ins by (cases c) (auto simp: handle_subscribe_ok_def Let_def split: option.split
        intro!: bounded_ops bounded_state)
qed

lemma bounded_handle_control_message: "bounded w \<Longrightarrow> bounded (handle_control_message i message w)"
proof -
  assume b: "bounded w"
  have "bounded (handle_request_error i message w)"
    using b by (auto simp: handle_request_error_def fail_updates_def Let_def split: sum.split option.split
        intro!: bounded_ops bounded_state)
  moreover have "bounded (handle_request_ok i message w)"
    using b by (auto simp: handle_request_ok_def split: sum.split option.split list.split intro!: bounded_ops bounded_state)
  moreover have "bounded (handle_publish_done i message w)"
    using b by (auto simp: handle_publish_done_def split: sum.split intro!: bounded_ops)
  ultimately show ?thesis
    using b by (auto simp: handle_control_message_def intro: bounded_ops bounded_handle_subscribe_ok)
qed

lemma bounded_request_on_receive: "bounded w \<Longrightarrow> bounded (request_on_receive i chunks fin w)"
  by (rule request_on_receive_invariant [where I = bounded])
    (simp_all add: bounded_handle_control_message bounded_state bounded_ops)

section \<open>The gate and the connection\<close>

text \<open>A stream without a receiver: its gate may take any mode.\<close>

lemma bounded_put_gate:
  assumes b: "bounded w" and st: "st \<notin> dom (dp_receivers w)" "st < tp_next_stream w"
  shows "bounded (put_gate st m bytes w)"
proof -
  have "plane_inv (put_gate st m bytes w)"
    using b by (simp add: bounded_def put_gate_def plane_inv_unfold datagrams_inv_def parked_inv_def)
  moreover have "gates_inv (put_gate st m bytes w)"
    using b st unfolding bounded_def gates_inv_def by (auto simp: put_gate_def)
  ultimately show ?thesis by (simp add: bounded_def)
qed

lemma bounded_handle_data_stream:
  assumes b: "bounded w" and st: "st \<notin> dom (dp_receivers w)" "st < tp_next_stream w"
  shows "bounded (handle_data_stream type st bytes fin (put_gate st GateDone [] w))"
proof -
  let ?w = "put_gate st GateDone [] w"
  let ?w' = "start_subgroup_stream callbacks st bytes fin ?w"
  have b1: "bounded ?w" by (rule bounded_put_gate [OF assms])
  have "waits_for (dp_receivers ?w st) = None"
    using st by (simp add: put_gate_def waits_for_def domIff)
  from sub.start_subgroup_stream_inv [OF _ this] b1
  have w': "plane_inv ?w'" "dom (dp_receivers ?w') = insert st (dom (dp_receivers ?w))"
    by (simp_all add: bounded_def)
  have g: "grows ?w ?w'"
    by (rule suba.I_start_subgroup_stream [OF _ grows_refl]) (rule grows_trans [OF _ grows_stream(3)])
  have "gates_inv ?w'"
    using b1 st(2) g w'(2) unfolding gates_inv_def bounded_def grows_def ages_def
    by (auto simp: put_gate_def domIff dest: order_less_le_trans)
  with w'(1) bounded_ops(7) [OF b1] show ?thesis by (simp add: handle_data_stream_def bounded_def)
qed

lemma bounded_set_all: "bounded (w :: 'a subscriber_scheme) \<Longrightarrow> bounded (set_all ps v w)"
  by (induction ps arbitrary: w) (simp_all add: bounded_state)

lemma bounded_maybe_ready: "bounded (w :: 'a subscriber_scheme) \<Longrightarrow> bounded (maybe_ready (\<lambda>w. w) w)"
  by (simp add: maybe_ready_def Let_def bounded_set_all bounded_updates)

lemma bounded_connected:
  assumes b: "bounded w"
  shows "bounded (connected terminate_subscriptions (\<lambda>w. w) w)"
proof -
  obtain y w2 where o: "open_stream True (w\<lparr>se_phase := SetupInProgress\<rparr>) = (y, w2)" by fastforce
  have b2: "bounded w2" using bounded_state(4) [OF bounded_updates(5) [OF b], of True SetupInProgress] o by simp
  have "bounded (case send st bytes False w2 of (False, w) \<Rightarrow>
         begin_close terminate_subscriptions Close_InternalError ''StreamSend failed for SETUP'' w
       | (True, w) \<Rightarrow> maybe_ready (\<lambda>w. w) (w\<lparr>se_local_setup_sent := True\<rparr>))" for st bytes
    using bounded_state(3) [OF b2, of st bytes False]
    by (auto simp: bounded_ops bounded_maybe_ready bounded_updates split: prod.split bool.split)
  with b b2 o show ?thesis
    by (auto simp: connected_def Let_def bounded_ops split: sum.split)
qed

lemma bounded_gate:
  assumes b: "bounded w"
  shows "bounded (gate_on_receive sub_role st chunks fin w)"
proof (cases "\<exists>g. se_gates w st = Some g \<and> g_mode g \<noteq> GateDone")
  case True
  then have st: "st \<notin> dom (dp_receivers w)" "st < tp_next_stream w"
    using b unfolding bounded_def gates_inv_def by blast+
  have pv: "bounded (protocol_violation terminate_subscriptions e w')" if "bounded w'" for e and w' :: "'a subscriber_scheme"
    using bounded_ops(3) [OF that] by (simp add: protocol_violation_def)
  have gate: "bounded (put_gate st m bytes w')" if "bounded w'" "dp_receivers w' = dp_receivers w" "tp_next_stream w' = tp_next_stream w"
    for m bytes and w' :: "'a subscriber_scheme"
    using bounded_put_gate [OF that(1)] st that(2,3) by simp
  have same: "dp_receivers (put_gate st m bytes w') = dp_receivers w'" "tp_next_stream (put_gate st m bytes w') = tp_next_stream w'"
    for m bytes and w' :: "'a subscriber_scheme" by (simp_all add: put_gate_def)
  have request: "bounded (handle_peer_request message st leftover f w')" if "bounded w'" for message leftover f and w' :: "'a subscriber_scheme"
    using pv [OF that] bounded_state(3) [OF that]
    by (auto simp: handle_peer_request_def Let_def that bounded_ops split: sum.split)
  have first: "bounded (gate_first_message sub_role st bytes fin w')"
    if "bounded w'" "dp_receivers w' = dp_receivers w" "tp_next_stream w' = tp_next_stream w" for bytes and w' :: "'a subscriber_scheme"
    using that by (auto simp: gate_first_message_def sub_role_def Let_def handle_peer_setup_def same
        intro!: pv gate request bounded_maybe_ready bounded_updates split: sum.split)
  have "bounded (gate_classify sub_role st bytes fin w')"
    if "bounded w'" "dp_receivers w' = dp_receivers w" "tp_next_stream w' = tp_next_stream w" for bytes and w' :: "'a subscriber_scheme"
    using that first [OF that] bounded_handle_data_stream [OF that(1)] st
    by (auto simp: gate_classify_def Let_def sub_role_def same intro!: pv gate)
  with b gate [OF b] pv [OF b] show ?thesis
    by (auto simp: gate_on_receive_def Let_def sub_role_def same split: option.split)
qed (use b in \<open>auto simp: gate_on_receive_def split: option.split\<close>)

lemma bounded_peer_stream_started:
  fixes w :: "'a subscriber_scheme"
  assumes b: "bounded w" and n: "new_stream uni sid w = (st, w')"
  shows "bounded (on_peer_stream_started st w')"
proof -
  have w': "st = tp_next_stream w" "tp_next_stream w' = Suc st" "dp_receivers w' = dp_receivers w"
    using n by (auto simp: new_stream_def)
  have b1: "bounded w'"
    by (rule bounded_other [OF b]) (use n in \<open>auto simp: new_stream_def\<close>)
  have "st \<notin> dom (dp_receivers w')" using b w' unfolding bounded_def gates_inv_def by auto
  from bounded_put_gate [OF b1 this, of Classify "[]"] w' show ?thesis
    by (auto simp: on_peer_stream_started_def put_gate_def intro: bounded_ops)
qed

section \<open>Every event\<close>

lemma bounded_stream_callback:
  assumes b: "bounded w"
  shows "bounded (stream_callback sub_sinks (transport_error terminate_subscriptions) st event w)"
proof -
  have receive: "bounded (sink_receive k st chunks fin w)" for k chunks fin
    using b by (cases k) (simp_all add: bounded_gate bounded_on_receive bounded_request_on_receive)
  have aborted: "bounded (sink_send_aborted k st code w)" for k code
    using b by (cases k) (simp_all add: bounded_on_peer_send_aborted bounded_ops)
  have closed: "bounded (sink_closed k st w')" if "bounded w'" for k and w' :: "'a subscriber_scheme"
    using that by (cases k) (simp_all add: bounded_ops)
  show ?thesis
    using b receive aborted
    by (cases event) (auto simp: stream_callback_def Let_def sub_sinks_def Session.transport_error_def split: option.split
        intro!: closed bounded_ops bounded_updates)
qed

lemma bounded_connection_callback: "bounded w \<Longrightarrow> bounded (connection_callback sub_callbacks event w)"
  by (cases event)
    (auto simp: connection_callback_def sub_callbacks_def bounded_connected bounded_on_datagram Session.transport_error_def
      bounded_ops shutdown_complete_def Let_def split: prod.split
      intro: bounded_peer_stream_started intro!: bounded_state(8) bounded_updates)

lemma bounded_ready:
  fixes w :: "'a subscriber_scheme"
  assumes b: "bounded w"
  shows "bounded (snd (ready w))"
proof -
  obtain p w1 where n: "new_promise w = (p, w1)" by fastforce
  have "bounded w1" using bounded_updates(12) [OF b] n by simp
  with n show ?thesis by (simp add: ready_def bounded_state bounded_updates)
qed

lemma subscriber_step_bounded: "bounded w \<Longrightarrow> bounded (subscriber_step event w)"
  by (cases event)
    (simp_all add: bounded_connection_callback bounded_stream_callback bounded_ready bounded_ops
      stop_subscription_def close_def close_and_wait_def bounded_updates)

end
