(* ===== verification/Subscriber_Demo.thy ===== *)
theory Subscriber_Demo
  imports Subscriber_Bounds
begin

text \<open>
  A session of a subscriber, event by event: SETUP both ways, one subscription that is accepted,
  an object in a datagram, and the close. The states are computed from the definitions and serve
  as the concrete inputs of the properties of the subscriber.
\<close>

fun subscriber_run :: "subscriber_event list \<Rightarrow> 'a subscriber_scheme \<Rightarrow> 'a subscriber_scheme" where
  "subscriber_run [] w = w"
| "subscriber_run (event # events) w = subscriber_run events (subscriber_step event w)"

definition demo_request :: SubscribeRequest where
  "demo_request = \<lparr>sr_namespace = [''a''], sr_name = ''t'', sr_parameters = []\<rparr>"

definition demo_app :: "Object \<Rightarrow> app_call list" where
  "demo_app ob = (if obj_payload ob = [] then [CallStop (obj_request_id ob)] else [])"

definition demo_start :: subscriber where
  "demo_start = initial_subscriber (\<lambda>n. True) (\<lambda>n. [])
     (default_config\<lparr>cfg_host := ''h'', cfg_port := 1, cfg_authority := ''h''\<rparr>)
     \<lparr>sub_unknown_alias_policy = BufferUnknown, sub_max_buffered_datagrams_per_alias = 2,
      sub_max_buffered_datagram_bytes = 64, sub_max_pending_subgroup_streams = 2,
      sub_max_buffered_subgroup_bytes_per_stream = 64\<rparr> demo_app"

section \<open>The bytes\<close>

abbreviation demo_setup :: ByteBuffer where
  "demo_setup \<equiv> [175, 0, 0, 21, 1, 1, 47, 4, 1, 104, 2, 13, 107, 111, 116, 97, 45, 109, 111, 113, 116, 111, 112, 117, 115]"

lemma demo_encode_setup: "encode_setup ''h'' ''/'' = Inr demo_setup"
  by code_simp

lemma demo_peer_setup:
  "read_varint [175, 0, 0, 0] 0 = \<lparr>vr_status = Done, vr_value = kSetupStreamType, vr_bytes = 2\<rparr>"
  "read_control_message [175, 0, 0, 0] 0 =
     \<lparr>cmr_status = Done, cmr_message = \<lparr>cm_type = kSetupStreamType, cm_payload = []\<rparr>, cmr_bytes = 4\<rparr>"
  "decode_setup [] = Inr ()"
  by code_simp+

lemma demo_encode_subscribe: "encode_subscribe 0 demo_request = Inr [3, 0, 7, 0, 1, 1, 97, 1, 116, 0]"
  by code_simp

lemma demo_subscribe_ok:
  "read_control_message [4, 0, 2, 5, 0] 0 =
     \<lparr>cmr_status = Done, cmr_message = \<lparr>cm_type = kMessageSubscribeOk, cm_payload = [5, 0]\<rparr>, cmr_bytes = 5\<rparr>"
  "cmr_status (read_control_message [] 0) = NeedMoreData"
  by code_simp+

lemma demo_decode_ok: "decode_subscribe_ok [5, 0] = Inr \<lparr>ok_track_alias = 5, ok_parameters = [], ok_properties = []\<rparr>"
  by code_simp

section \<open>The states\<close>

lemmas demo_defs = demo_start_def initial_subscriber_def

definition demo_ready :: subscriber where
  "demo_ready = demo_start\<lparr>tp_calls := 3,
     tp_streams := [0 \<mapsto> \<lparr>sc_handle = True, sc_unidirectional = True, sc_id = 0, sc_sink = None\<rparr>,
                    1 \<mapsto> \<lparr>sc_handle = True, sc_unidirectional = True, sc_id = 3, sc_sink = Some PeerStreamGateSink\<rparr>],
     tp_next_stream := 2, tp_registered := [1, 0], tp_log := [StreamOpened 0 True, StreamSent 0 demo_setup False],
     se_phase := Ready, se_local_setup_sent := True, se_peer_setup_received := True, se_negotiated_version := Some kAlpn,
     se_promises := [0 \<mapsto> Fulfilled ReadyValue], se_next_promise := 1,
     se_gates := [1 \<mapsto> \<lparr>g_mode = GateDone, g_bytes = []\<rparr>]\<rparr>"

definition demo_handshake :: "subscriber_event list" where
  "demo_handshake = [SubReady, SubConnection Connected, SubConnection (PeerStreamStarted True 3),
     SubStream 1 (Receive [[175, 0, 0, 0]] False)]"

lemmas demo_step_defs = ready_def new_promise_def connection_callback_def sub_callbacks_def connected_def open_stream_def
  quic_call_def quic_status_def new_stream_def send_def has_handle_def emit_def setup_authority_def maybe_ready_def
  on_peer_stream_started_def set_sink_def stream_callback_def stream_sink_def sub_sinks_def gate_on_receive_def
  gate_classify_def gate_first_message_def put_gate_def unidirectional_def handle_peer_setup_def sub_role_def
  set_value_def phase_order Let_def

lemma demo_ready_run: "subscriber_run demo_handshake demo_start = demo_ready"
  by (simp add: demo_handshake_def demo_step_defs demo_defs demo_ready_def demo_encode_setup demo_peer_setup fun_eq_iff
      cong: option.case_cong)

definition demo_pending :: subscriber where
  "demo_pending = demo_ready\<lparr>tp_calls := 6,
     tp_streams := (tp_streams demo_ready)(2 \<mapsto> \<lparr>sc_handle = True, sc_unidirectional = False, sc_id = 0,
       sc_sink = Some (SubscriberRequestSink 0)\<rparr>),
     tp_next_stream := 3, tp_registered := [2, 1, 0],
     tp_log := tp_log demo_ready @ [StreamOpened 2 False, StreamSent 2 [3, 0, 7, 0, 1, 1, 97, 1, 116, 0] False],
     se_next_request_id := 2, se_promises := [0 \<mapsto> Fulfilled ReadyValue, 1 \<mapsto> Pending], se_next_promise := 2,
     sb_requests := [0 \<mapsto> new_request 2 1], sb_subscriptions := [0]\<rparr>"

lemmas demo_subscribe_defs = subscribe_def new_promise_def send_subscribe_def allocate_request_id_def open_stream_def
  quic_call_def quic_status_def new_stream_def put_request_def new_request_def set_sink_def send_def has_handle_def emit_def
  demo_encode_subscribe Let_def

lemma demo_pending_step: "subscriber_step (SubSubscribe demo_request True) demo_ready = demo_pending"
  by (simp add: demo_subscribe_defs demo_pending_def demo_ready_def demo_defs fun_eq_iff)

definition demo_established :: subscriber where
  "demo_established = demo_pending\<lparr>
     se_promises := [0 \<mapsto> Fulfilled ReadyValue, 1 \<mapsto> Fulfilled (SubscriptionValue 0 5)],
     dp_heap := [0 \<mapsto> \<lparr>rr_request_id = 0, rr_active = True, rr_final_object_in_group = Map.empty, rr_final_object_in_track = None\<rparr>],
     dp_next_route := 1, dp_routes_by_alias := [5 \<mapsto> 0],
     sb_requests := [0 \<mapsto> \<lparr>rq_phase = Sub_Established, rq_track_alias = Some 5, rq_stream = 2, rq_response_buffer = [],
       rq_updates = [], rq_result = None\<rparr>]\<rparr>"

lemmas demo_response_defs = stream_callback_def stream_sink_def sub_sinks_def request_on_receive_def request_phase_def
  handle_control_message_def handle_subscribe_ok_def new_route_def install_route_def take_pending_def put_request_def
  set_value_def new_request_def demo_subscribe_ok demo_decode_ok Let_def

lemma demo_established_step: "subscriber_step (SubStream 2 (Receive [[4, 0, 2, 5, 0]] False)) demo_pending = demo_established"
  by (simp add: demo_response_defs control_loop_step control_loop_stop demo_established_def demo_pending_def demo_ready_def
      demo_defs fun_eq_iff cong: option.case_cong)

text \<open>One object in a datagram.\<close>

lemma demo_datagram:
  "encode_object_datagram 5 0 1 128 [] None [7] False = [0, 5, 0, 1, 128, 7]"
  "cursor_varint \<lparr>cur_bytes = [0, 5, 0, 1, 128, 7], cur_offset = 0\<rparr> = Some (0, \<lparr>cur_bytes = [0, 5, 0, 1, 128, 7], cur_offset = Suc 0\<rparr>)"
  "invalid_datagram_type 0 = False"
  "datagram_ids 0 \<lparr>cur_bytes = [0, 5, 0, 1, 128, 7], cur_offset = Suc 0\<rparr> =
     Inr ((5, 0, 1), \<lparr>cur_bytes = [0, 5, 0, 1, 128, 7], cur_offset = 4\<rparr>)"
  "datagram_body 0 \<lparr>cur_bytes = [0, 5, 0, 1, 128, 7], cur_offset = 4\<rparr> =
     Inr ((128, [], None, [7]), \<lparr>cur_bytes = [0, 5, 0, 1, 128, 7], cur_offset = 5\<rparr>)"
  by code_simp+

definition demo_object :: Object where
  "demo_object = \<lparr>obj_request_id = 0, obj_track_alias = 5, obj_group_id = 0, obj_subgroup_id = None, obj_object_id = 1,
     obj_publisher_priority = 128, obj_status = None, obj_properties = [], obj_payload = [7],
     obj_delivery_kind = Datagram, obj_stream_id = 0\<rparr>"

lemma demo_delivered_step:
  "subscriber_step (SubConnection (DatagramReceived [0, 5, 0, 1, 128, 7])) demo_established =
     demo_established\<lparr>tp_log := tp_log demo_established @ [OnObject demo_object]\<rparr>"
  by (simp add: connection_callback_def sub_callbacks_def on_datagram_def deliver_datagram_def demo_datagram find_route_def
      route_request_def datagram_object_def deliver_def follows_final_in_group_def follows_final_in_track_def
      callbacks_def on_object_def update_route_def note_final_def emit_def demo_object_def demo_app_def Let_def
      demo_established_def demo_pending_def demo_ready_def demo_defs)

definition demo_events :: "subscriber_event list" where
  "demo_events = demo_handshake @ [SubSubscribe demo_request True, SubStream 2 (Receive [[4, 0, 2, 5, 0]] False)]"

lemma subscriber_run_append: "subscriber_run (es @ fs) w = subscriber_run fs (subscriber_run es w)"
  by (induction es arbitrary: w) simp_all

lemma demo_run: "subscriber_run demo_events demo_start = demo_established"
  unfolding demo_events_def subscriber_run_append demo_ready_run
  by (simp only: subscriber_run.simps demo_pending_step demo_established_step)

section \<open>Requests that can be encoded\<close>

definition subscribe_tail :: "SubscribeRequest \<Rightarrow> ByteBuffer" where
  "subscribe_tail request = namespace_bytes (sr_namespace request) @ write_varint [] (word_of_nat (length (sr_name request)))
     @ bytes_of_string (sr_name request) @ write_varint [] (word_of_nat (length (sr_parameters request)))
     @ parameter_bytes 0 (sort_key par_type (sr_parameters request))"

lemma encode_subscribe_Inr:
  "(\<exists>bytes. encode_subscribe i request = Inr bytes) \<longleftrightarrow>
     namespace_ok (sr_namespace request) \<and> parameters_ok (sr_parameters request) \<and>
     varint_size i + length (subscribe_tail request) \<le> 65535"
proof (cases "namespace_ok (sr_namespace request)")
  case True
  then show ?thesis
    by (simp add: encode_subscribe_def ebind_def write_track_namespace_ok encode_parameters_eq encode_control_message_def
        subscribe_tail_def)
next
  case False
  then obtain e where "write_track_namespace (write_varint [] i) (sr_namespace request) = Inl e"
    using write_track_namespace_eq_Inr by (metis sum.exhaust)
  with False show ?thesis by (simp add: encode_subscribe_def ebind_def)
qed

text \<open>The largest Request ID takes the most bytes.\<close>

lemma encodable_iff: "encodable request \<longleftrightarrow> \<not> isl (encode_subscribe u64_max request)"
proof -
  have nine: "varint_size u64_max = 9" by code_simp
  have inr: "\<not> isl (encode_subscribe u64_max request) \<longleftrightarrow> (\<exists>b. encode_subscribe u64_max request = Inr b)"
    by (cases "encode_subscribe u64_max request") auto
  have "varint_size i + n \<le> 65535" if "9 + n \<le> 65535" for i n
    using that varint_size_bounds(2) [of i] by linarith
  then show ?thesis
    unfolding inr encodable_def encode_subscribe_Inr nine [symmetric] by blast
qed

lemma demo_encodable: "encodable demo_request"
  unfolding encodable_iff by code_simp

lemma demo_app_quiet: "CallSubscribe request \<notin> set (demo_app ob)"
  by (simp add: demo_app_def)

section \<open>A subgroup stream\<close>

lemma demo_header:
  "read_varint [17, 5, 0, 128] 0 = \<lparr>vr_status = Done, vr_value = 17, vr_bytes = 1\<rparr>"
  "is_subgroup_stream_type 17"
  "parse_header_fields \<lparr>cur_bytes = [17, 5, 0, 128], cur_offset = 0\<rparr> =
     Some (Inr (\<lparr>sh_type = 17, sh_alias = 5, sh_group_id = 0, sh_subgroup_id_mode = 0, sh_subgroup_id = Some 0,
       sh_publisher_priority = 128\<rparr>, \<lparr>cur_bytes = [17, 5, 0, 128], cur_offset = 4\<rparr>))"
  by code_simp+

definition demo_receiver :: "ByteBuffer \<Rightarrow> SubgroupReceiver" where
  "demo_receiver stash = (new_receiver stash)\<lparr>sr_route := Some 0, sr_header_done := True, sr_properties_per_object := True,
     sr_alias := 5, sr_subgroup_id := Some 0\<rparr>"

definition demo_streaming :: subscriber where
  "demo_streaming = demo_established\<lparr>
     tp_streams := (tp_streams demo_established)(3 \<mapsto> \<lparr>sc_handle = True, sc_unidirectional = True, sc_id = 7,
       sc_sink = Some SubgroupReceiverSink\<rparr>),
     tp_next_stream := 4, tp_registered := [3, 2, 1, 0],
     se_gates := (se_gates demo_established)(3 \<mapsto> \<lparr>g_mode = GateDone, g_bytes = []\<rparr>),
     dp_receivers := [3 \<mapsto> demo_receiver []]\<rparr>"

lemma remaining_Cursor: "remaining \<lparr>cur_bytes = xs, cur_offset = n\<rparr> = length xs - n"
  by (simp add: remaining_def)

lemmas demo_receive_defs = on_receive_def receive_stashed_def run_def run_body_def run_objects.simps parse_header_def resolve_alias_def
  find_or_park_subgroup_def take_header_def header_parsed_def parse_object_def finish_stream_def put_receiver_def
  enforce_pending_buffer_limit_def remaining_Cursor demo_receiver_def new_receiver_def Let_def

lemma demo_streaming_step:
  "subscriber_step (SubStream 3 (Receive [[17, 5, 0, 128]] False))
     (subscriber_step (SubConnection (PeerStreamStarted True 7)) demo_established) = demo_streaming"
  by (simp add: connection_callback_def new_stream_def on_peer_stream_started_def set_sink_def stream_callback_def
      stream_sink_def sub_sinks_def gate_on_receive_def gate_classify_def put_gate_def unidirectional_def sub_role_def
      handle_data_stream_def start_subgroup_stream_def demo_receive_defs demo_header demo_streaming_def demo_established_def
      demo_pending_def demo_ready_def demo_defs cong: option.case_cong)

text \<open>The first three bytes of an object: they are kept.\<close>

lemma demo_partial: "parse_object_fields True None 7 \<lparr>cur_bytes = [0, 0, 1], cur_offset = 0\<rparr> = None"
  by code_simp

lemma demo_partial_step:
  "on_receive callbacks 3 [[0, 0, 1]] False demo_streaming = demo_streaming\<lparr>dp_receivers := [3 \<mapsto> demo_receiver [0, 0, 1]]\<rparr>"
  by (simp add: demo_receive_defs receive_in_place_def stream_id_def demo_partial demo_streaming_def)

section \<open>A request that cannot be encoded\<close>

text \<open>An empty namespace field is refused by the encoder after the request has been entered.\<close>

definition bad_request :: SubscribeRequest where
  "bad_request = \<lparr>sr_namespace = [[]], sr_name = ''t'', sr_parameters = []\<rparr>"

lemma bad_encode: "encode_subscribe 0 bad_request = Inl (invalid_argument ''invalid MOQT track namespace field'')"
  by code_simp

end
