(* ===== verification/Subscriber_Properties.thy ===== *)
theory Subscriber_Properties
  imports Subscriber_Demo
begin

text \<open>
  The properties of a subscriber in every state it can reach: the events of MsQuic and the calls
  of the application in any order, with any answers of MsQuic, any peer and an application that
  may call back from \<open>on_object\<close>. The one thing asked of the application is that its
  requests can be encoded.
\<close>

inductive sub_reachable :: "subscriber \<Rightarrow> bool" where
  sub_start: "(\<forall>ob request. CallSubscribe request \<in> set (app ob) \<longrightarrow> encodable request) \<Longrightarrow>
    sub_reachable (initial_subscriber answer status config sub_config app)"
| sub_event: "sub_reachable w \<Longrightarrow> event_ok event \<Longrightarrow> sub_reachable (subscriber_step event w)"

lemma initial_invariants:
  assumes "\<forall>ob request. CallSubscribe request \<in> set (app ob) \<longrightarrow> encodable request"
  shows "sub_ok {} {} (initial_subscriber answer status config sub_config app) \<and>
    bounded (initial_subscriber answer status config sub_config app) \<and>
    session_wf (initial_subscriber answer status config sub_config app)"
proof -
  let ?w = "initial_subscriber answer status config sub_config app"
  have "requests_inv ?w" "own_inv {} ?w" "routes_inv Y ?w" "calm ?w" "app_ok ?w" "closing_inv ?w" for Y
    using assms by (simp_all add: initial_subscriber_def requests_inv_def live_def own_inv_def holds_def routes_inv_def
        route_of_def calm_def app_ok_def closing_inv_def split: option.split)
  then have "sub_ok {} {} ?w" by (simp add: sub_ok_def sub_inv_def)
  moreover have "bounded ?w"
    by (simp add: initial_subscriber_def bounded_def plane_inv_unfold datagrams_inv_def parked_inv_def gates_inv_def
        map_sum_def waits_for_def)
  moreover have "session_wf ?w" by (simp add: initial_subscriber_def session_wf_def)
  ultimately show ?thesis by blast
qed

lemma reachable_invariants: "sub_reachable w \<Longrightarrow> sub_ok {} {} w \<and> bounded w \<and> session_wf w"
proof (induction rule: sub_reachable.induct)
  case (sub_event w event)
  then show ?case
    using subscriber_step_ok [of w event] subscriber_step_bounded [of w event] subscriber_step_ages [of w event]
    by (simp add: ages_def)
qed (rule initial_invariants)

lemmas reachable_ok = reachable_invariants [THEN conjunct1]
  and reachable_bounded = reachable_invariants [THEN conjunct2, THEN conjunct1]
  and reachable_wf = reachable_invariants [THEN conjunct2, THEN conjunct2]

lemma reachable_run: "sub_reachable w \<Longrightarrow> list_all event_ok events \<Longrightarrow> sub_reachable (subscriber_run events w)"
  by (induction events arbitrary: w) (simp_all add: sub_event)

lemma demo_reachable: "list_all event_ok events \<Longrightarrow> sub_reachable (subscriber_run events demo_established)"
  unfolding demo_run [symmetric] demo_start_def
  by (intro reachable_run sub_start)
    (simp_all add: demo_app_quiet demo_events_def demo_handshake_def demo_encodable)

lemma demo_established_reachable: "sub_reachable demo_established"
  using demo_reachable [of "[]"] by simp

section \<open>Promises\<close>

text \<open>C1: as long as the application subscribes with requests that can be encoded, a subscriber never settles a promise
  twice: \<^verbatim>\<open>std::future_error\<close> is never thrown where nothing catches it, so the process never ends in
  \<^verbatim>\<open>std::terminate\<close>, whatever the peer sends, MsQuic answers and the application calls from inside
  \<open>on_object\<close>. The condition on the requests is part of \<open>sub_reachable\<close>; what happens without it is the
  theorem \<open>unencodable_subscribe_leaks\<close> of \<open>Object_Properties\<close>.\<close>

theorem subscriber_never_aborts: "sub_reachable w \<Longrightarrow> StdTerminate \<notin> set (tp_log w)"
  using reachable_ok [of w] by (simp add: sub_ok_def sub_inv_def calm_def)

theorem subscriber_never_aborts_witness: "StdTerminate \<notin> set (tp_log demo_established)"
  by (rule subscriber_never_aborts [OF demo_established_reachable])

text \<open>C2: every promise the application waits on has exactly one owner, the list of ready waiters
  or one request, until it is settled; nothing owned is ever settled already.\<close>

theorem pending_promise_has_one_owner:
  assumes "sub_reachable w"
  shows "se_promises w p = Some Pending \<longleftrightarrow> (\<exists>!owner. holds w owner p)"
proof -
  have own: "own_inv {} w" using reachable_ok [OF assms] by (simp add: sub_ok_def sub_inv_def)
  then show ?thesis unfolding own_inv_def by (metis empty_iff)
qed

theorem pending_promise_has_one_owner_witness:
  "se_promises demo_pending 1 = Some Pending \<and> (\<exists>!owner. holds demo_pending owner 1)"
proof -
  have "sub_reachable (subscriber_run (demo_handshake @ [SubSubscribe demo_request True]) demo_start)"
    unfolding demo_start_def
    by (intro reachable_run sub_start) (simp_all add: demo_app_quiet demo_handshake_def demo_encodable)
  then have r: "sub_reachable demo_pending"
    by (simp add: subscriber_run_append demo_ready_run demo_pending_step del: subscriber_step.simps)
  have "se_promises demo_pending 1 = Some Pending" by (simp add: demo_pending_def)
  with pending_promise_has_one_owner [OF r, of 1] show ?thesis by blast
qed

lemma closing_quiet:
  assumes r: "sub_reachable w" and c: "se_phase w = Closing"
  shows "sb_subscriptions w = []" "\<not> holds w x p" "dp_routes_by_alias w a = None"
proof -
  note ok = reachable_ok [OF r, unfolded sub_ok_def sub_inv_def]
  have empty: "sb_subscriptions w = []" "se_ready_waiters w = []"
    using ok c by (simp_all add: closing_inv_def phase_order)
  have dead: "\<not> live w i rq" for i rq using ok empty by (auto simp: requests_inv_def)
  show "sb_subscriptions w = []" by (rule empty)
  show "\<not> holds w x p"
  proof
    assume "holds w x p"
    then obtain i rq where rq: "sb_requests w i = Some rq" "p \<in> set (rq_promises rq)"
      using empty(2) by (auto simp: holds_def split: option.splits)
    then have "rq_phase rq = Sub_Terminated" using dead by (auto simp: live_def)
    moreover have "request_ok (rq_phase rq) rq" using ok rq by (auto simp: requests_inv_def)
    ultimately show False using rq(2) by (simp add: rq_promises_def)
  qed
  have "routes_inv {} w" using ok by simp
  with dead show "dp_routes_by_alias w a = None" unfolding routes_inv_def by blast
qed

text \<open>C3: once a subscriber is closing, everything it owed has been answered: no promise is
  pending, no subscription is left and the route table is empty.\<close>

theorem closing_settles_everything:
  assumes "sub_reachable w" "se_phase w = Closing"
  shows "sb_subscriptions w = [] \<and> (\<forall>p. se_promises w p \<noteq> Some Pending) \<and> dp_routes_by_alias w = Map.empty"
proof -
  have own: "own_inv {} w" using reachable_ok [OF assms(1)] by (simp add: sub_ok_def sub_inv_def)
  note q = closing_quiet [OF assms]
  have "\<forall>p. se_promises w p \<noteq> Some Pending" using own q(2) unfolding own_inv_def by blast
  then show ?thesis using q(1,3) by (simp add: fun_eq_iff)
qed

theorem closing_settles_everything_witness:
  "se_phase (subscriber_run [SubReady, SubClose 7] demo_established) = Closing
   \<and> sb_subscriptions (subscriber_run [SubReady, SubClose 7] demo_established) = []
   \<and> dp_routes_by_alias (subscriber_run [SubReady, SubClose 7] demo_established) = Map.empty"
proof -
  let ?w = "subscriber_run [SubReady, SubClose 7] demo_established"
  have ph: "se_phase demo_established = Ready" by (simp add: demo_established_def demo_pending_def demo_ready_def)
  have "se_phase (subscriber_step SubReady demo_established) = Ready"
    by (simp add: ready_def new_promise_def ph set_value_def emit_def)
  then have "se_phase ?w = Closing"
    by (simp add: close_def begin_close_def Let_def phase_order fail_ready_waiters_def fail_all_eq
        terminate_subscriptions_def shutdown_def emit_def del: subscriber_step.simps(3))
  with closing_settles_everything [OF demo_reachable, of "[SubReady, SubClose 7]"] show ?thesis by simp
qed

section \<open>Subscriptions and routes\<close>

text \<open>C4: the route table holds exactly the Track Aliases of the established subscriptions. An alias leads to an active route
  of request \<open>i\<close> if and only if \<open>i\<close> is a subscription that was assigned it; an alias is in the table if and only if
  there is one such subscription and no second; and a subscription has an alias exactly when it is no longer pending.\<close>

theorem routes_are_subscriptions:
  assumes "sub_reachable w"
  shows "((\<exists>ref route. dp_routes_by_alias w a = Some ref \<and> dp_heap w ref = Some route \<and> rr_active route \<and> rr_request_id route = i) \<longleftrightarrow>
      i \<in> set (sb_subscriptions w) \<and> (\<exists>rq. sb_requests w i = Some rq \<and> rq_track_alias rq = Some a))
    \<and> (dp_routes_by_alias w a \<noteq> None \<longleftrightarrow>
      (\<exists>!j. j \<in> set (sb_subscriptions w) \<and> (\<exists>rq. sb_requests w j = Some rq \<and> rq_track_alias rq = Some a)))
    \<and> (i \<in> set (sb_subscriptions w) \<longrightarrow>
      (\<exists>rq. sb_requests w i = Some rq \<and> (rq_track_alias rq = None \<longleftrightarrow> rq_phase rq = Sub_Pending)))"
proof -
  note ok = reachable_ok [OF assms, unfolded sub_ok_def sub_inv_def]
  have routes: "routes_inv {} w" and reqs: "requests_inv w" using ok by simp_all
  let ?owns = "\<lambda>j. j \<in> set (sb_subscriptions w) \<and> (\<exists>rq. sb_requests w j = Some rq \<and> rq_track_alias rq = Some a)"
  have member: "?owns j \<longleftrightarrow> (\<exists>rq. live w j rq \<and> rq_track_alias rq = Some a)" for j
    using reqs by (auto simp: requests_inv_def live_def)
  have one: "route_of w a j \<Longrightarrow> route_of w a k \<Longrightarrow> j = k" for j k by (auto simp: route_of_def)
  have routed: "dp_routes_by_alias w a \<noteq> None \<longleftrightarrow> (\<exists>j. route_of w a j \<and> ?owns j)"
    using routes unfolding routes_inv_def member by (auto simp: route_of_def)
  have owner: "route_of w a j \<longleftrightarrow> ?owns j" for j
  proof
    assume "route_of w a j"
    moreover from this have "dp_routes_by_alias w a \<noteq> None" by (auto simp: route_of_def)
    ultimately show "?owns j" using routed one by blast
  qed (use routes in \<open>auto simp: routes_inv_def member\<close>)
  have "dp_routes_by_alias w a \<noteq> None \<longleftrightarrow> (\<exists>!j. ?owns j)" using routed owner one by blast
  moreover have "(rq_track_alias rq = None \<longleftrightarrow> rq_phase rq = Sub_Pending)" if "live w i rq" for rq
  proof -
    have "request_ok (rq_phase rq) rq" "rq_phase rq \<noteq> Sub_Terminated" using reqs that by (auto simp: requests_inv_def live_def)
    then show ?thesis by (cases "rq_phase rq") auto
  qed
  moreover have "\<exists>rq. live w i rq" if "i \<in> set (sb_subscriptions w)" using reqs that by (auto simp: requests_inv_def)
  ultimately show ?thesis using owner [of i] unfolding route_of_def live_def by blast
qed

theorem routes_are_subscriptions_witness:
  "(\<exists>ref route. dp_routes_by_alias demo_established 5 = Some ref \<and> dp_heap demo_established ref = Some route
      \<and> rr_active route \<and> rr_request_id route = 0)
   \<and> \<not> (\<exists>ref route. dp_routes_by_alias demo_established 6 = Some ref \<and> dp_heap demo_established ref = Some route
      \<and> rr_active route \<and> rr_request_id route = 0)"
proof -
  have "0 \<in> set (sb_subscriptions demo_established)"
    "\<exists>rq. sb_requests demo_established 0 = Some rq \<and> rq_track_alias rq = Some 5"
    "\<not> (\<exists>rq. sb_requests demo_established 0 = Some rq \<and> rq_track_alias rq = Some 6)"
    by (simp_all add: demo_established_def demo_pending_def)
  with routes_are_subscriptions [OF demo_established_reachable, of 5 0] routes_are_subscriptions [OF demo_established_reachable, of 6 0]
  show ?thesis by blast
qed

section \<open>Bounds\<close>

text \<open>C5: what a peer can make the subscriber hold for Track Aliases that are not established yet is bounded by its
  configuration: the byte counter of early datagrams is what the lists hold and within its limit, as is the number of datagrams per alias;
  the stream counter is the number of parked streams and within its limit, and each parked stream
  holds at most the configured bytes. (A stream whose alias is known keeps the bytes of one incomplete object, for
  which there is no limit.) So the \<^verbatim>\<open>size_t\<close> counters are never
  decremented below zero.\<close>

theorem subscriber_buffers_bounded:
  assumes "sub_reachable w"
  shows "dp_buffered_datagram_bytes w = map_sum datagram_bytes (dp_unknown_datagrams w)
    \<and> dp_buffered_datagram_bytes w \<le> sub_max_buffered_datagram_bytes (dp_config w)
    \<and> dp_pending_subgroup_stream_count w = map_sum length (dp_pending_subgroups_by_alias w)
    \<and> dp_pending_subgroup_stream_count w \<le> sub_max_pending_subgroup_streams (dp_config w)
    \<and> (\<forall>a ds. dp_unknown_datagrams w a = Some ds \<longrightarrow> length ds \<le> sub_max_buffered_datagrams_per_alias (dp_config w))
    \<and> (\<forall>st r. dp_receivers w st = Some r \<longrightarrow> sr_waiting_for_route r \<longrightarrow>
         length (sr_stash r) \<le> sub_max_buffered_subgroup_bytes_per_stream (dp_config w)
         \<and> (\<exists>p. dp_pending_subgroups_by_alias w (sr_alias r) = Some p \<and> st \<in> set p))"
proof -
  note inv = reachable_bounded [OF assms, unfolded bounded_def plane_inv_unfold]
  have d: "datagrams_inv 0 w" and p: "parked_inv {} (dp_receivers w) w" using inv by simp_all
  have s: "length (sr_stash r) \<le> sub_max_buffered_subgroup_bytes_per_stream (dp_config w)"
    if "dp_receivers w st = Some r" "sr_waiting_for_route r" for st r
    using inv that by (auto simp: stash_ok_def)
  have l: "\<exists>q. dp_pending_subgroups_by_alias w (sr_alias r) = Some q \<and> st \<in> set q"
    if "dp_receivers w st = Some r" "sr_waiting_for_route r" for st r
    using p that unfolding parked_inv_def by (simp add: waits_for_def)
  show ?thesis using d p s l unfolding datagrams_inv_def parked_inv_def by auto
qed

text \<open>A datagram for an alias nobody subscribed to is buffered.\<close>

lemma demo_buffered:
  "dp_buffered_datagram_bytes (subscriber_run [SubConnection (DatagramReceived [0, 5, 0, 1, 128, 7])] demo_ready) = 6"
  by (simp add: connection_callback_def sub_callbacks_def on_datagram_def deliver_datagram_def demo_datagram find_route_def
      buffer_unknown_datagram_def Let_def demo_ready_def demo_defs)

theorem subscriber_buffers_bounded_witness:
  "(6 :: nat) = map_sum datagram_bytes (dp_unknown_datagrams
      (subscriber_run [SubConnection (DatagramReceived [0, 5, 0, 1, 128, 7])] demo_ready))"
proof -
  let ?w = "subscriber_run [SubConnection (DatagramReceived [0, 5, 0, 1, 128, 7])] demo_ready"
  have "sub_reachable (subscriber_run demo_handshake demo_start)"
    unfolding demo_start_def
    by (intro reachable_run sub_start) (simp_all add: demo_app_quiet demo_handshake_def)
  then have "sub_reachable ?w" unfolding demo_ready_run by (rule reachable_run) simp
  from subscriber_buffers_bounded [OF this] demo_buffered show ?thesis by argo
qed

section \<open>Over time\<close>

text \<open>C18: whatever happens, the phase of a session only advances, a promise keeps the result it
  was settled with, the first reason for closing stays, and what the application and the
  transport have been told is never taken back.\<close>

theorem subscriber_progress:
  assumes "sub_reachable w"
  shows "se_phase w \<le> se_phase (subscriber_step event w)
    \<and> (\<forall>p v. se_promises w p = Some v \<longrightarrow> v \<noteq> Pending \<longrightarrow> se_promises (subscriber_step event w) p = Some v)
    \<and> (\<forall>r. se_close_reason w = Some r \<longrightarrow> se_close_reason (subscriber_step event w) = Some r)
    \<and> (\<exists>more. tp_log (subscriber_step event w) = tp_log w @ more)"
  using subscriber_step_ages [of w event] reachable_wf [OF assms]
  by (simp add: ages_def keeps_results_def log_extends_def)

theorem subscriber_progress_witness:
  "se_promises (subscriber_step (SubClose 9) demo_established) 1 = Some (Fulfilled (SubscriptionValue 0 5))"
proof -
  have "se_promises demo_established 1 = Some (Fulfilled (SubscriptionValue 0 5))" by (simp add: demo_established_def)
  with subscriber_progress [OF demo_established_reachable, of "SubClose 9"] show ?thesis by blast
qed

text \<open>C19: a subscriber is ready exactly between the moment both SETUP messages have been exchanged
  and the close, with the version of its ALPN; its Request IDs are even.\<close>

theorem ready_after_setup:
  assumes "sub_reachable w"
  shows "(se_phase w = Ready \<longleftrightarrow> se_local_setup_sent w \<and> se_peer_setup_received w \<and> se_phase w < Closing)
    \<and> (se_phase w = Ready \<longrightarrow> se_negotiated_version w = Some kAlpn)
    \<and> even (unat (se_next_request_id w))"
  using reachable_wf [OF assms] by (cases "se_phase w") (auto simp: session_wf_def phase_order)

theorem ready_after_setup_witness: "se_phase demo_established = Ready \<and> se_negotiated_version demo_established = Some kAlpn"
proof -
  have "se_phase demo_established = Ready" by (simp add: demo_established_def demo_pending_def demo_ready_def)
  with ready_after_setup [OF demo_established_reachable] show ?thesis by blast
qed

section \<open>Receiving in pieces\<close>

text \<open>C17: how MsQuic splits a subgroup stream into receive events does not matter: the bytes of
  two events in one give the same state, deliveries and all, as long as the stream is neither
  closed nor parked in between.\<close>

theorem subgroup_stream_chunks:
  assumes "sub_reachable w" "dp_receivers w st = Some r"
    and "\<And>r'. dp_receivers (on_receive callbacks st cs False w) st = Some r' \<Longrightarrow> \<not> sr_closed r' \<and> \<not> sr_waiting_for_route r'"
  shows "on_receive callbacks st ds fin (on_receive callbacks st cs False w) = on_receive callbacks st (cs @ ds) fin w"
proof -
  have "may_wait r" using reachable_bounded [OF assms(1)] assms(2) by (auto simp: bounded_def plane_inv_unfold)
  from sub.on_receive_append [OF assms(2) this assms(3)] show ?thesis .
qed

theorem subgroup_stream_chunks_witness:
  "on_receive callbacks 3 [[42]] True (on_receive callbacks 3 [[0, 0, 1]] False demo_streaming)
     = on_receive callbacks 3 [[0, 0, 1], [42]] True demo_streaming"
proof -
  have r: "sub_reachable demo_streaming"
    using demo_reachable [of "[SubConnection (PeerStreamStarted True 7), SubStream 3 (Receive [[17, 5, 0, 128]] False)]"]
    by (simp add: demo_streaming_step del: subscriber_step.simps)
  have "dp_receivers demo_streaming 3 = Some (demo_receiver [])" by (simp add: demo_streaming_def)
  from subgroup_stream_chunks [OF r this, of "[[0, 0, 1]]" "[[42]]" True] show ?thesis
    unfolding demo_partial_step by (simp add: demo_receiver_def new_receiver_def)
qed

end
