(* ===== verification/Object_Roundtrip.thy ===== *)
theory Object_Roundtrip
  imports Data_Plane
begin

text \<open>
  What the publisher's encoders write, the receive side reads back: object datagrams, the header
  of a subgroup stream, its objects, and a stream of them.
\<close>

section \<open>Written fields\<close>

lemma cursor_varint_written:
  "cursor_varint (standing pre (write_varint [] v @ rest)) = Some (v, standing (pre @ write_varint [] v) rest)"
  by (simp add: cursor_varint_standing read_write_varint_0)

lemma write_varint_nonempty: "write_varint out v \<noteq> []"
  by (metis length_write_varint length_0_conv add_is_0 varint_size_pos(1))

lemma read_byte_written: "read_byte (standing pre (b # rest)) = Some (b, standing (pre @ [b]) rest)"
  by (simp add: read_byte_standing)

lemma read_view_written:
  "length v = n \<Longrightarrow> read_view n (standing pre (v @ rest)) = Some (v, standing (pre @ v) rest)"
  by (simp add: read_view_standing)

lemma u64_of_length: "n \<le> 65535 \<Longrightarrow> unat (word_of_nat n :: u64) = n" "n \<le> 65535 \<Longrightarrow> (word_of_nat n :: u64) \<le> 65535"
  "n \<le> 65535 \<Longrightarrow> (word_of_nat n :: u64) = 0 \<longleftrightarrow> n = 0"
proof -
  assume n: "n \<le> 65535"
  then have u: "unat (word_of_nat n :: u64) = n" by (simp add: unat_of_nat_u64)
  then show "unat (word_of_nat n :: u64) = n" .
  show "(word_of_nat n :: u64) \<le> 65535" unfolding word_le_nat_alt u using n by simp
  show "(word_of_nat n :: u64) = 0 \<longleftrightarrow> n = 0"
    unfolding word_unat_eq_iff u by simp
qed

lemma rview_rest_standing: "rview_rest (standing pre xs) = Inr (xs, standing pre xs)"
  by (simp add: rview_rest_def standing_def)

lemma read_properties_written:
  assumes "length properties \<le> 65535" "b \<Longrightarrow> properties \<noteq> []"
  shows "read_properties b (standing pre (write_varint [] (word_of_nat (length properties)) @ properties @ rest)) =
    Some (Inr (properties, standing (pre @ write_varint [] (word_of_nat (length properties)) @ properties) rest))"
  using assms u64_of_length [OF assms(1)]
  by (simp add: read_properties_def pbind_def pneed_def prequire_def cursor_varint_written read_view_written not_less)

text \<open>The objects both sides agree on.\<close>

definition object_fields_ok :: "ByteBuffer \<Rightarrow> ObjectStatusCode option \<Rightarrow> bool" where
  "object_fields_ok properties status \<longleftrightarrow> length properties \<le> 65535 \<and>
     (case status of None \<Rightarrow> True | Some s \<Rightarrow> is_valid_object_status s \<and> (s \<noteq> kNormalStatus \<longrightarrow> properties = []))"

section \<open>Object datagrams\<close>

definition datagram_tail :: "ByteBuffer \<Rightarrow> ObjectStatusCode option \<Rightarrow> ByteBuffer \<Rightarrow> ByteBuffer" where
  "datagram_tail properties status payload =
     (if properties \<noteq> [] then write_varint [] (word_of_nat (length properties)) @ properties else [])
       @ (case status of Some s \<Rightarrow> write_varint [] s | None \<Rightarrow> payload)"

lemma encode_object_datagram_eq:
  "encode_object_datagram track_alias g ob priority properties status payload eog =
     write_varint [] (datagram_type properties status eog ob) @ write_varint [] track_alias @ write_varint [] g
       @ (if ob \<noteq> 0 then write_varint [] ob else []) @ priority # datagram_tail properties status payload"
  by (simp add: encode_object_datagram_def datagram_tail_def Let_def write_varint_snoc [of "write_varint _ _"]
      write_varint_snoc [of "_ @ _"] split: option.split)

lemma datagram_type_bits:
  "datagram_type properties status eog ob AND 0x04 = 0 \<longleftrightarrow> ob \<noteq> 0"
  "datagram_type properties status eog ob AND 0x01 = 0 \<longleftrightarrow> properties = []"
  "datagram_type properties status eog ob AND 0x20 = 0 \<longleftrightarrow> status = None"
  "datagram_type properties status eog ob AND 0x02 = 0 \<longleftrightarrow> \<not> (status = None \<and> eog)"
  "datagram_type properties status eog ob AND 0x08 = 0"
  "\<not> invalid_datagram_type (datagram_type properties status eog ob)"
  "datagram_type properties status eog ob \<noteq> kPaddingDatagramType"
  by (cases "properties = []"; cases status; cases eog; cases "ob = 0";
      simp add: datagram_type_def invalid_datagram_type_def)+

lemma datagram_ids_written:
  "datagram_ids (datagram_type properties status eog ob)
     (standing pre (write_varint [] a @ write_varint [] g @ (if ob \<noteq> 0 then write_varint [] ob else []) @ rest)) =
     Inr ((a, g, ob), standing (pre @ write_varint [] a @ write_varint [] g @ (if ob \<noteq> 0 then write_varint [] ob else [])) rest)"
  by (simp add: datagram_ids_def rbind_def of_option_def rreturn_def cursor_varint_written datagram_type_bits)

lemma datagram_body_written:
  assumes "object_fields_ok properties status"
  shows "\<exists>c. datagram_body (datagram_type properties status eog ob) (standing pre (priority # datagram_tail properties status payload)) =
     Inr ((priority, properties, status, if status = None then payload else []), c)"
proof -
  have len: "length properties \<le> 65535" using assms by (simp add: object_fields_ok_def)
  have status: "s = kNormalStatus \<or> properties = []" "is_valid_object_status s" if "status = Some s" for s
    using assms that by (auto simp: object_fields_ok_def)
  note rd = cursor_varint_written [of _ _ "[]", simplified] read_properties_written [OF len, of True]
  show ?thesis
  proof (cases status)
    case None
    then show ?thesis
      by (cases "properties = []")
        (simp_all add: datagram_body_def datagram_tail_def rbind_def of_option_def rreturn_def read_byte_written pwhole_def rd
          rview_rest_standing datagram_type_bits)
  next
    case (Some s)
    with status show ?thesis
      by (cases "properties = []")
        (simp_all add: datagram_body_def datagram_tail_def rbind_def of_option_def rreturn_def read_byte_written pwhole_def rd
          require_def datagram_type_bits)
  qed
qed

text \<open>A datagram on a known alias is delivered as it was sent.\<close>

lemma on_datagram_written:
  assumes route: "dp_routes_by_alias w a = Some ref" and ok: "object_fields_ok properties status"
  shows "on_datagram cb (encode_object_datagram a g ob priority properties status payload eog) w =
    deliver cb ref (datagram_object (route_request ref w) a g ob priority status properties (if status = None then payload else []))
      (if status = None \<and> eog then update_route ref (set_final_in_group g ob) w else w)"
proof -
  let ?t = "datagram_type properties status eog ob"
  let ?ids = "write_varint [] a @ write_varint [] g @ (if ob \<noteq> 0 then write_varint [] ob else [])"
  let ?tail = "priority # datagram_tail properties status payload"
  obtain c where body: "datagram_body ?t (standing (write_varint [] ?t @ ?ids) ?tail) =
     Inr ((priority, properties, status, if status = None then payload else []), c)"
    using datagram_body_written [OF ok] by blast
  have e: "encode_object_datagram a g ob priority properties status payload eog = write_varint [] ?t @ ?ids @ ?tail"
    by (simp add: encode_object_datagram_eq)
  have 1: "cursor_varint \<lparr>cur_bytes = write_varint [] ?t @ ?ids @ ?tail, cur_offset = 0\<rparr> =
      Some (?t, standing (write_varint [] ?t) (?ids @ ?tail))"
    unfolding standing_start cursor_varint_written by simp
  have 2: "datagram_ids ?t (standing (write_varint [] ?t) (?ids @ ?tail)) = Inr ((a, g, ob), standing (write_varint [] ?t @ ?ids) ?tail)"
    using datagram_ids_written [of properties status eog ob "write_varint [] ?t" a g ?tail] by simp
  show ?thesis
    unfolding on_datagram_def e deliver_datagram_def 1 option.case prod.case
    by (simp add: datagram_type_bits 2 find_route_def route body Let_def del: append_assoc)
qed

section \<open>Subgroup streams\<close>

lemma encode_subgroup_header_eq:
  "encode_subgroup_header [] a g s priority =
     write_varint [] (if s = 0 then 0x11 else 0x15) @ write_varint [] a @ write_varint [] g
       @ (if s \<noteq> 0 then write_varint [] s else []) @ [priority]"
  by (simp add: encode_subgroup_header_def Let_def write_varint_snoc [of "write_varint _ _"] write_varint_snoc [of "_ @ _"])

definition written_header :: "TrackAlias \<Rightarrow> GroupId \<Rightarrow> SubgroupId \<Rightarrow> byte \<Rightarrow> SubgroupHeader" where
  "written_header a g s priority =
     \<lparr>sh_type = (if s = 0 then 0x11 else 0x15), sh_alias = a, sh_group_id = g, sh_subgroup_id_mode = (if s = 0 then 0 else 2),
      sh_subgroup_id = Some s, sh_publisher_priority = priority\<rparr>"

lemma header_written:
  "parse_header_fields (standing pre (encode_subgroup_header [] a g s priority @ rest)) =
     Some (Inr (written_header a g s priority, standing (pre @ encode_subgroup_header [] a g s priority) rest))"
proof (cases "s = 0")
  case True
  have "is_subgroup_stream_type 0x11" by (simp add: is_subgroup_stream_type_def)
  with True show ?thesis
    by (simp add: parse_header_fields_def encode_subgroup_header_eq written_header_def pbind_def pneed_def prequire_def preturn_def
        cursor_varint_written read_byte_written Let_def)
next
  case False
  have "is_subgroup_stream_type 0x15" by (simp add: is_subgroup_stream_type_def)
  with False show ?thesis
    by (simp add: parse_header_fields_def encode_subgroup_header_eq written_header_def pbind_def pneed_def prequire_def preturn_def
        cursor_varint_written read_byte_written Let_def)
qed

definition wire_status :: "ObjectStatusCode option \<Rightarrow> ByteBuffer \<Rightarrow> ObjectStatusCode option" where
  "wire_status status payload = (if status = None \<and> payload = [] then Some kNormalStatus else status)"

lemma status_or_payload_written:
  assumes ok: "object_fields_ok properties status" and len: "length payload < 2 ^ 64"
  shows "status_or_payload stream properties
    (standing pre ((if status \<noteq> None \<or> payload = []
         then write_varint [] 0 @ write_varint [] (case status of Some s \<Rightarrow> s | None \<Rightarrow> kObjectStatusNormal)
         else write_varint [] (word_of_nat (length payload)) @ payload) @ rest)) =
    Some (Inr ((wire_status status payload, if status = None then payload else []),
      standing (pre @ (if status \<noteq> None \<or> payload = []
         then write_varint [] 0 @ write_varint [] (case status of Some s \<Rightarrow> s | None \<Rightarrow> kObjectStatusNormal)
         else write_varint [] (word_of_nat (length payload)) @ payload)) rest))"
proof (cases "status \<noteq> None \<or> payload = []")
  case True
  with ok show ?thesis
    by (auto simp: status_or_payload_def pbind_def pneed_def prequire_def preturn_def cursor_varint_written wire_status_def
        object_fields_ok_def is_valid_object_status_def split: option.splits)
next
  case False
  have u: "unat (word_of_nat (length payload) :: u64) = length payload" using len by (simp add: unat_of_nat_u64)
  then have "(word_of_nat (length payload) :: u64) \<noteq> 0" using False by (metis length_0_conv unat_0)
  with False u show ?thesis
    by (simp add: status_or_payload_def pbind_def pneed_def preturn_def cursor_varint_written wire_status_def read_view_written)
qed

text \<open>The delta the send plane writes, and the object the receiver makes of it.\<close>

definition object_delta :: "ObjectId option \<Rightarrow> ObjectId \<Rightarrow> u64" where
  "object_delta last_id ob = (case last_id of None \<Rightarrow> ob | Some l \<Rightarrow> ob - l - 1)"

lemma next_object_id_written:
  assumes "\<And>l. last_id = Some l \<Longrightarrow> l < ob"
  shows "next_object_id last_id (object_delta last_id ob) c = Some (Inr (ob, c))"
proof (cases last_id)
  case None
  then show ?thesis by (simp add: next_object_id_def object_delta_def preturn_def)
next
  case (Some l)
  with assms have l: "l < ob" by simp
  then have max: "l \<noteq> u64_max" by (auto simp: word_order.extremum_strict)
  have le: "l + 1 \<le> ob" using l by (simp add: inc_le)
  have "ob - l - 1 \<le> u64_max - (l + 1)"
    using u64_diff_le_max_minus [OF le] by (simp only: diff_diff_add)
  then have "\<not> ob - l - 1 > u64_max - (l + 1)" unfolding not_less .
  with Some max show ?thesis
    unfolding next_object_id_def object_delta_def preturn_def pbind_def prequire_def option.case by simp
qed

text \<open>The objects of one subgroup in the order they are sent, each against the Object ID before it.\<close>

definition encode_object :: "ObjectId option \<Rightarrow> SubgroupObject \<Rightarrow> ByteBuffer" where
  "encode_object last_id ob =
     encode_subgroup_object [] (object_delta last_id (sgo_object_id ob)) (sgo_properties ob) (sgo_status ob) (sgo_payload ob)"

fun encode_objects :: "ObjectId option \<Rightarrow> SubgroupObject list \<Rightarrow> ByteBuffer" where
  "encode_objects last_id [] = []"
| "encode_objects last_id (ob # obs) = encode_object last_id ob @ encode_objects (Some (sgo_object_id ob)) obs"

definition object_ok :: "SubgroupObject \<Rightarrow> bool" where
  "object_ok ob \<longleftrightarrow> object_fields_ok (sgo_properties ob) (sgo_status ob) \<and> length (sgo_payload ob) < 2 ^ 64"

fun ascending :: "ObjectId option \<Rightarrow> SubgroupObject list \<Rightarrow> bool" where
  "ascending last_id [] \<longleftrightarrow> True"
| "ascending last_id (ob # obs) \<longleftrightarrow> (\<forall>l. last_id = Some l \<longrightarrow> l < sgo_object_id ob) \<and> object_ok ob \<and>
     ascending (Some (sgo_object_id ob)) obs"

definition on_the_wire :: "SubgroupObject \<Rightarrow> SubgroupObject" where
  "on_the_wire ob = ob\<lparr>sgo_status := wire_status (sgo_status ob) (sgo_payload ob),
     sgo_payload := if sgo_status ob = None then sgo_payload ob else []\<rparr>"

lemma parse_object_written:
  assumes ok: "object_ok ob" and up: "\<And>l. last_id = Some l \<Longrightarrow> l < sgo_object_id ob"
  shows "parse_object_fields True last_id stream (standing pre (encode_object last_id ob @ rest)) =
    Some (Inr (on_the_wire ob, standing (pre @ encode_object last_id ob) rest))"
proof -
  have ok': "object_fields_ok (sgo_properties ob) (sgo_status ob)" "length (sgo_payload ob) < 2 ^ 64"
      "length (sgo_properties ob) \<le> 65535"
    using ok by (simp_all add: object_ok_def object_fields_ok_def)
  let ?d = "write_varint [] (object_delta last_id (sgo_object_id ob))"
  let ?p = "write_varint [] (word_of_nat (length (sgo_properties ob))) @ sgo_properties ob"
  let ?s = "if sgo_status ob \<noteq> None \<or> sgo_payload ob = []
         then write_varint [] 0 @ write_varint [] (case sgo_status ob of Some s \<Rightarrow> s | None \<Rightarrow> kObjectStatusNormal)
         else write_varint [] (word_of_nat (length (sgo_payload ob))) @ sgo_payload ob"
  have e: "encode_object last_id ob = ?d @ ?p @ ?s"
    by (simp add: encode_object_def encode_subgroup_object_def Let_def write_varint_snoc [of "_ @ _"] write_varint_snoc [of "write_varint _ _"])
  have p: "read_properties False (standing (pre @ ?d) (?p @ ?s @ rest)) =
      Some (Inr (sgo_properties ob, standing (pre @ ?d @ ?p) (?s @ rest)))"
    using read_properties_written [OF ok'(3), of False "pre @ ?d" "?s @ rest"] by simp
  note s = status_or_payload_written [OF ok'(1,2), of stream "pre @ ?d @ ?p" rest]
  note i = next_object_id_written [OF up]
  show ?thesis
    unfolding e append_assoc parse_object_fields_def pbind_def pneed_def cursor_varint_written
    using p s by (simp add: perror_def i preturn_def on_the_wire_def)
qed

text \<open>What a receiver does with the objects: it delivers them one after the other.\<close>

fun deliver_objects ::
  "('a plane_scheme) plane_callbacks \<Rightarrow> stream_ref \<Rightarrow> route_ref \<Rightarrow> SubgroupObject list \<Rightarrow> SubgroupReceiver \<Rightarrow> 'a plane_scheme
     \<Rightarrow> SubgroupReceiver \<times> 'a plane_scheme" where
  "deliver_objects cb st ref [] r w = (r, w)"
| "deliver_objects cb st ref (ob # obs) r w =
     (let r = take_object ob r in deliver_objects cb st ref obs r (deliver cb ref (subgroup_object st ob ref r w) w))"

lemma run_objects_written:
  assumes "ascending (sr_last_object_id r) obs" "\<not> sr_closed r" "sr_properties_per_object r" "sr_route r = Some ref"
  shows "run_objects cb st fin (standing pre (encode_objects (sr_last_object_id r) obs)) r w =
    (standing (pre @ encode_objects (sr_last_object_id r) obs) [], deliver_objects cb st ref (map on_the_wire obs) r w)"
  using assms
proof (induction obs arbitrary: pre r w)
  case Nil
  then show ?case by (subst run_objects.simps) (simp add: parse_object_def)
next
  case (Cons ob obs)
  let ?rest = "encode_objects (Some (sgo_object_id ob)) obs"
  let ?e = "encode_object (sr_last_object_id r) ob"
  let ?r = "take_object (on_the_wire ob) r"
  have ok: "object_ok ob" "\<And>l. sr_last_object_id r = Some l \<Longrightarrow> l < sgo_object_id ob" using Cons.prems(1) by simp_all
  have ne: "?e \<noteq> []" by (simp add: encode_object_def encode_subgroup_object_def Let_def write_varint_nonempty)
  have r: "sr_last_object_id ?r = Some (sgo_object_id ob)" "sr_closed ?r = sr_closed r" "sr_route ?r = sr_route r"
      "sr_properties_per_object ?r = sr_properties_per_object r"
    by (simp_all add: take_object_def on_the_wire_def Let_def)
  have "parse_object cb st (standing pre (?e @ ?rest)) r w =
      (Done, standing (pre @ ?e) ?rest, ?r, deliver cb ref (subgroup_object st (on_the_wire ob) ref ?r w) w)"
    using Cons.prems ne r(3) by (simp add: parse_object_def parse_object_written [OF ok] Let_def)
  with Cons.prems Cons.IH [of ?r "pre @ ?e" "deliver cb ref (subgroup_object st (on_the_wire ob) ref ?r w) w"] r
  show ?case by (subst run_objects.simps) (simp add: Let_def)
qed

text \<open>A whole stream on a known alias, from the moment the gate hands it over.\<close>

definition header_taken :: "TrackAlias \<Rightarrow> GroupId \<Rightarrow> SubgroupId \<Rightarrow> byte \<Rightarrow> route_ref \<Rightarrow> ByteBuffer \<Rightarrow> SubgroupReceiver" where
  "header_taken a g s priority ref stash = header_parsed (Some ref) (take_header (written_header a g s priority) (new_receiver stash))"

lemma header_taken_fields:
  "sr_last_object_id (header_taken a g s priority ref stash) = None" "\<not> sr_closed (header_taken a g s priority ref stash)"
  "sr_properties_per_object (header_taken a g s priority ref stash)" "sr_route (header_taken a g s priority ref stash) = Some ref"
  "sr_header_done (header_taken a g s priority ref stash)" "\<not> sr_waiting_for_route (header_taken a g s priority ref stash)"
  "\<not> sr_end_of_group_on_fin (header_taken a g s priority ref stash)"
  by (simp_all add: header_taken_def header_parsed_def take_header_def written_header_def new_receiver_def Let_def)

lemma deliver_objects_fields:
  "deliver_objects cb st ref obs r w = (r', w') \<Longrightarrow> sr_closed r' = sr_closed r \<and>
     sr_waiting_for_route r' = sr_waiting_for_route r \<and> sr_end_of_group_on_fin r' = sr_end_of_group_on_fin r \<and> sr_stash r' = sr_stash r"
proof (induction obs arbitrary: r w)
  case (Cons ob obs)
  from Cons.IH [OF Cons.prems [unfolded deliver_objects.simps Let_def]] show ?case by (simp add: take_object_def Let_def)
qed simp

lemma stream_written:
  assumes route: "dp_routes_by_alias w a = Some ref" and obs: "ascending None obs"
    and bytes: "bytes = encode_subgroup_header [] a g s priority @ encode_objects None obs"
    and w0: "w0 = set_sink st (Some SubgroupReceiverSink) (put_receiver st (new_receiver bytes, w))"
  shows "start_subgroup_stream cb st bytes fin w =
    put_receiver st (apfst (\<lambda>r. r\<lparr>sr_stash := [], sr_closed := fin\<rparr>)
      (deliver_objects cb st ref (map on_the_wire obs) (header_taken a g s priority ref bytes) w0))"
proof -
  let ?h = "encode_subgroup_header [] a g s priority"
  let ?r = "header_taken a g s priority ref bytes"
  obtain r1 w1 where d: "deliver_objects cb st ref (map on_the_wire obs) ?r w0 = (r1, w1)" by fastforce
  note f = deliver_objects_fields [OF d]
  have r0: "dp_receivers w0 st = Some (new_receiver bytes)" by (simp add: w0 set_sink_def put_receiver_def)
  have route0: "dp_routes_by_alias w0 a = Some ref" by (simp add: w0 set_sink_def put_receiver_def route)
  have al: "sr_alias (take_header (written_header a g s priority) (new_receiver bytes)) = a"
    by (simp add: take_header_def written_header_def)
  have res: "resolve_alias cb st (take_header (written_header a g s priority) (new_receiver bytes)) w0 = (Done, ?r, w0)"
    unfolding resolve_alias_def al
    by (cases "sub_unknown_alias_policy (dp_config w0)")
      (simp_all add: find_route_def find_or_park_subgroup_def route0 header_taken_def)
  have h: "parse_header cb st (standing [] bytes) (new_receiver bytes) w0 = (Done, standing ?h (encode_objects None obs), ?r, w0)"
    unfolding parse_header_def bytes header_written by (simp add: res [unfolded bytes])
  have o: "run_objects cb st fin (standing ?h (encode_objects None obs)) ?r w0 = (standing bytes [], r1, w1)"
    using run_objects_written [of ?r obs ref cb st fin ?h w0] obs header_taken_fields d by (simp add: bytes)
  have run: "run cb st fin (standing [] bytes) (new_receiver bytes) w0 = (standing bytes [], finish_stream fin r1 w1)"
    using h o header_taken_fields by (simp add: run_def run_body_def new_receiver_def)
  have fin: "finish_stream fin r1 w1 = (r1\<lparr>sr_closed := fin\<rparr>, w1)"
    using f header_taken_fields by (cases fin) (auto simp: finish_stream_def split: option.splits bool.splits)
  have n: "(new_receiver bytes)\<lparr>sr_stash := sr_stash (new_receiver bytes) @ concat []\<rparr> = new_receiver bytes"
      "sr_stash (new_receiver bytes) = bytes" "\<not> sr_closed (new_receiver bytes)"
    by (simp_all add: new_receiver_def)
  have stash: "sr_stash r1 = bytes"
    using f by (simp add: header_taken_def header_parsed_def take_header_def new_receiver_def Let_def)
  have waits: "\<not> sr_waiting_for_route r1" using f header_taken_fields by simp
  have rs: "receive_stashed cb st [] fin (new_receiver bytes) w0 = (r1\<lparr>sr_stash := [], sr_closed := fin\<rparr>, w1)"
    unfolding receive_stashed_def Let_def n(1) unfolding n(2) standing_start run fin
    using f stash waits header_taken_fields by (cases fin) (simp_all add: enforce_pending_buffer_limit_def)
  have "on_receive cb st [] fin w0 = put_receiver st (r1\<lparr>sr_stash := [], sr_closed := fin\<rparr>, w1)"
    unfolding on_receive_def r0 using n rs by (cases bytes) simp_all
  then show ?thesis by (simp add: start_subgroup_stream_def w0 [symmetric] d)
qed

end
