(* ===== verification/Object_Properties.thy ===== *)
theory Object_Properties
  imports Subscriber_Properties Object_Roundtrip
begin

text \<open>
  From the wire to the application: what the encoders of the send side write reaches
  \<open>on_object\<close> of a subscriber with an open route, object by object and in order, and what
  a subscriber answers to input that breaks the protocol.
\<close>

section \<open>Delivery on an open route\<close>

text \<open>The route takes any object of the group: nothing final is known of the group or the track.\<close>

definition open_route :: "GroupId \<Rightarrow> ReceiveRoute \<Rightarrow> bool" where
  "open_route g route \<longleftrightarrow> rr_active route \<and> rr_final_object_in_group route g = None \<and> rr_final_object_in_track route = None"

lemma deliver_open:
  assumes "dp_heap w ref = Some route" "open_route (obj_group_id ob) route"
  shows "deliver callbacks ref ob w = on_object ob (update_route ref (note_final ob) w)"
  using assms by (simp add: deliver_def open_route_def follows_final_in_group_def follows_final_in_track_def callbacks_def)

text \<open>C16: a datagram the send side encodes for a known alias reaches the application with all its
  fields: group, object, priority, properties, status and payload; and a datagram marked as the
  last of its group is remembered as such.\<close>

theorem datagram_roundtrip:
  assumes al: "dp_routes_by_alias w a = Some ref" and route: "dp_heap w ref = Some route" "open_route g route"
    and ok: "object_fields_ok properties status"
  shows "on_datagram callbacks (encode_object_datagram a g ob priority properties status payload eog) w =
    on_object \<lparr>obj_request_id = rr_request_id route, obj_track_alias = a, obj_group_id = g, obj_subgroup_id = None,
        obj_object_id = ob, obj_publisher_priority = priority, obj_status = status, obj_properties = properties,
        obj_payload = (if status = None then payload else []), obj_delivery_kind = Datagram, obj_stream_id = 0\<rparr>
      (w\<lparr>dp_heap := (dp_heap w)(ref \<mapsto>
          (if status = Some kEndOfGroupStatus \<or> (status = None \<and> eog) then set_final_in_group g ob route
           else if status = Some kEndOfTrackStatus
           then route\<lparr>rr_final_object_in_track := Some \<lparr>loc_group = g, loc_object = ob\<rparr>\<rparr> else route))\<rparr>)"
proof -
  let ?ob = "datagram_object (rr_request_id route) a g ob priority status properties (if status = None then payload else [])"
  let ?route = "if status = None \<and> eog then set_final_in_group g ob route else route"
  let ?w = "if status = None \<and> eog then update_route ref (set_final_in_group g ob) w else w"
  have heap: "dp_heap ?w ref = Some ?route" using route by (simp add: update_route_def)
  have "\<not> follows_final_in_group ?route ?ob" "\<not> follows_final_in_track ?route ?ob" "rr_active ?route"
    "rr_request_id ?route = rr_request_id route"
    using route by (simp_all add: open_route_def follows_final_in_group_def follows_final_in_track_def datagram_object_def
        set_final_in_group_def)
  then have "deliver callbacks ref ?ob ?w = on_object ?ob (update_route ref (note_final ?ob) ?w)"
    using heap by (simp add: deliver_def callbacks_def)
  moreover have "route_request ref w = rr_request_id route" using route by (simp add: route_request_def)
  ultimately show ?thesis
    using route on_datagram_written [OF al ok, of callbacks g ob priority payload eog]
    by (auto simp: datagram_object_def note_final_def update_route_def Let_def)
qed

theorem datagram_roundtrip_witness:
  "tp_log (on_datagram callbacks (encode_object_datagram 5 0 1 128 [] None [7] True) demo_established)
     = tp_log demo_established @ [OnObject demo_object]"
proof -
  have al: "dp_routes_by_alias demo_established 5 = Some 0" by (simp add: demo_established_def)
  have heap: "dp_heap demo_established 0 =
      Some \<lparr>rr_request_id = 0, rr_active = True, rr_final_object_in_group = Map.empty, rr_final_object_in_track = None\<rparr>"
    by (simp add: demo_established_def)
  have app: "sb_app demo_established = demo_app"
    by (simp add: demo_established_def demo_pending_def demo_ready_def demo_defs)
  show ?thesis
    by (subst datagram_roundtrip [OF al heap])
      (simp_all add: open_route_def object_fields_ok_def on_object_def emit_def demo_object_def demo_app_def app)
qed

section \<open>A whole subgroup stream\<close>

definition stream_object :: "RequestId \<Rightarrow> TrackAlias \<Rightarrow> GroupId \<Rightarrow> SubgroupId \<Rightarrow> byte \<Rightarrow> u64 \<Rightarrow> SubgroupObject \<Rightarrow> Object" where
  "stream_object request a g s priority sid ob =
     \<lparr>obj_request_id = request, obj_track_alias = a, obj_group_id = g, obj_subgroup_id = Some s,
      obj_object_id = sgo_object_id ob, obj_publisher_priority = priority, obj_status = sgo_status ob,
      obj_properties = sgo_properties ob, obj_payload = sgo_payload ob, obj_delivery_kind = SubgroupStream, obj_stream_id = sid\<rparr>"

definition final_status :: "SubgroupObject \<Rightarrow> bool" where
  "final_status ob \<longleftrightarrow> sgo_status ob = Some kEndOfGroupStatus \<or> sgo_status ob = Some kEndOfTrackStatus"

lemma deliver_passive:
  assumes "dp_heap w ref = Some route" "open_route (obj_group_id ob) route" "sb_app w = (\<lambda>_. [])"
  shows "deliver callbacks ref ob w = emit (OnObject ob) (update_route ref (note_final ob) w)"
  using deliver_open [OF assms(1,2)] assms(3) by (simp add: on_object_def update_route_def)

lemma note_final_not: "\<not> final_status ob \<Longrightarrow> note_final (stream_object i a g s p sid ob) = id"
  by (auto simp: note_final_def stream_object_def final_status_def)

lemma deliver_objects_log:
  assumes "dp_heap w ref = Some route" "open_route (sr_group_id r) route" "sb_app w = (\<lambda>_. [])" "sr_subgroup_id r = Some s"
    "\<forall>ob\<in>set (butlast obs). \<not> final_status ob"
  shows "tp_log (snd (deliver_objects callbacks st ref obs r w)) = tp_log w @
    map (\<lambda>ob. OnObject (stream_object (rr_request_id route) (sr_alias r) (sr_group_id r) s (sr_publisher_priority r) (stream_id w st) ob)) obs"
  using assms
proof (induction obs arbitrary: r w)
  case (Cons ob obs)
  let ?r = "take_object ob r"
  let ?ob = "stream_object (rr_request_id route) (sr_alias r) (sr_group_id r) s (sr_publisher_priority r) (stream_id w st) ob"
  have r: "sr_alias ?r = sr_alias r" "sr_group_id ?r = sr_group_id r" "sr_publisher_priority ?r = sr_publisher_priority r"
      "sr_subgroup_id ?r = Some s"
    using Cons.prems(4) by (simp_all add: take_object_def)
  have "subgroup_object st ob ref ?r w = ?ob"
    using Cons.prems r by (simp add: subgroup_object_def stream_object_def route_request_def)
  moreover have "obj_group_id ?ob = sr_group_id r" by (simp add: stream_object_def)
  ultimately have d: "deliver callbacks ref (subgroup_object st ob ref ?r w) w = emit (OnObject ?ob) (update_route ref (note_final ?ob) w)"
    using deliver_passive [of w ref route ?ob] Cons.prems by simp
  show ?case
  proof (cases "obs = []")
    case True
    then show ?thesis using d by (simp add: emit_def update_route_def Let_def)
  next
    case False
    then have "\<not> final_status ob" using Cons.prems(5) by simp
    then have "update_route ref (note_final ?ob) w = w"
      using Cons.prems(1) by (simp add: note_final_not update_route_def option.map_id0 fun_upd_idem)
    with d False Cons.prems r Cons.IH [of "emit (OnObject ?ob) w" ?r] show ?thesis
      by (simp add: Let_def emit_def stream_id_def)
  qed
qed simp

lemma stream_delivered:
  assumes al: "dp_routes_by_alias w a = Some ref" and route: "dp_heap w ref = Some route" "open_route g route"
    and app: "sb_app w = (\<lambda>_. [])" and obs: "ascending None obs" "\<forall>ob\<in>set (butlast obs). \<not> final_status ob"
    and st: "tp_streams w st = Some c"
  shows "tp_log (start_subgroup_stream callbacks st (encode_subgroup_header [] a g s priority @ encode_objects None obs) fin w)
    = tp_log w @ map (\<lambda>ob. OnObject (stream_object (rr_request_id route) a g s priority (sc_id c) (on_the_wire ob))) obs"
proof -
  let ?b = "encode_subgroup_header [] a g s priority @ encode_objects None obs"
  define w0 where "w0 = set_sink st (Some SubgroupReceiverSink) (put_receiver st (new_receiver ?b, w))"
  let ?r = "header_taken a g s priority ref ?b"
  have r: "sr_alias ?r = a" "sr_group_id ?r = g" "sr_publisher_priority ?r = priority" "sr_subgroup_id ?r = Some s"
    by (simp_all add: header_taken_def header_parsed_def take_header_def written_header_def Let_def)
  have w: "dp_heap w0 ref = Some route" "sb_app w0 = (\<lambda>_. [])" "tp_log w0 = tp_log w" "stream_id w0 st = sc_id c"
    using route app st by (simp_all add: w0_def set_sink_def put_receiver_def stream_id_def)
  have fin: "\<forall>ob\<in>set (butlast (map on_the_wire obs)). \<not> final_status ob"
    using obs(2) by (auto simp: map_butlast [symmetric] final_status_def on_the_wire_def wire_status_def split: if_splits)
  from deliver_objects_log [of w0 ref route ?r s "map on_the_wire obs" st] w r fin route(2)
  have "tp_log (snd (deliver_objects callbacks st ref (map on_the_wire obs) ?r w0)) =
      tp_log w @ map (\<lambda>ob. OnObject (stream_object (rr_request_id route) a g s priority (sc_id c) (on_the_wire ob))) obs"
    by (simp add: comp_def)
  moreover have "tp_log (put_receiver st (apfst f x)) = tp_log (snd x)" for f and x :: "SubgroupReceiver \<times> 'a subscriber_scheme"
    by (cases x) (simp add: put_receiver_def)
  ultimately show ?thesis
    unfolding stream_written [OF al obs(1) refl w0_def] by simp
qed

text \<open>C15: a subgroup stream the send side writes, header and objects with ascending Object IDs,
  reaches an application that only listens object by object, in the order and with the fields it
  was sent with; an empty object arrives with the explicit status Normal.\<close>

theorem subgroup_stream_roundtrip:
  assumes al: "dp_routes_by_alias w a = Some ref" and route: "dp_heap w ref = Some route" "open_route g route"
    and app: "sb_app w = (\<lambda>_. [])" and obs: "ascending None obs" "\<forall>ob\<in>set (butlast obs). \<not> final_status ob"
    and st: "tp_streams w st = Some c"
  shows "tp_log (start_subgroup_stream callbacks st (encode_subgroup_header [] a g s priority @ encode_objects None obs) fin w)
    = tp_log w @ map (\<lambda>ob. OnObject (stream_object (rr_request_id route) a g s priority (sc_id c) (on_the_wire ob))) obs"
  by (rule stream_delivered [OF assms])

theorem subgroup_stream_roundtrip_witness:
  "tp_log (start_subgroup_stream callbacks 1 (encode_subgroup_header [] 5 0 2 128 @ encode_objects None
       [\<lparr>sgo_object_id = 4, sgo_status = None, sgo_properties = [], sgo_payload = [7, 8]\<rparr>,
        \<lparr>sgo_object_id = 9, sgo_status = Some kEndOfGroupStatus, sgo_properties = [], sgo_payload = []\<rparr>]) True
       (demo_established\<lparr>sb_app := \<lambda>_. []\<rparr>))
   = tp_log demo_established @
       [OnObject (stream_object 0 5 0 2 128 3 \<lparr>sgo_object_id = 4, sgo_status = None, sgo_properties = [], sgo_payload = [7, 8]\<rparr>),
        OnObject (stream_object 0 5 0 2 128 3 \<lparr>sgo_object_id = 9, sgo_status = Some kEndOfGroupStatus, sgo_properties = [], sgo_payload = []\<rparr>)]"
proof -
  let ?w = "demo_established\<lparr>sb_app := \<lambda>_. []\<rparr>"
  let ?route = "\<lparr>rr_request_id = 0, rr_active = True, rr_final_object_in_group = Map.empty, rr_final_object_in_track = None\<rparr>"
  have al: "dp_routes_by_alias ?w 5 = Some 0" and heap: "dp_heap ?w 0 = Some ?route" and app: "sb_app ?w = (\<lambda>_. [])"
    by (simp_all add: demo_established_def)
  have st: "tp_streams ?w 1 = Some \<lparr>sc_handle = True, sc_unidirectional = True, sc_id = 3, sc_sink = Some PeerStreamGateSink\<rparr>"
    by (simp add: demo_established_def demo_pending_def demo_ready_def)
  show ?thesis
    by (subst subgroup_stream_roundtrip [OF al heap _ app _ _ st])
      (simp_all add: open_route_def object_ok_def object_fields_ok_def is_valid_object_status_def final_status_def
        on_the_wire_def wire_status_def)
qed

section \<open>Object IDs\<close>

lemma next_object_id_greater:
  assumes "next_object_id (Some l) d c = Some (Inr (n, c'))"
  shows "unat n = unat l + unat d + 1"
proof -
  have max: "l \<noteq> u64_max" and d: "d \<le> u64_max - (l + 1)" and n: "n = l + 1 + d"
    using assms by (auto simp: next_object_id_def preturn_def pbind_def prequire_def not_less split: if_splits)
  have "unat l \<noteq> unat u64_max" using max word_unat_eq_iff [of l u64_max] by blast
  moreover have "unat l \<le> unat u64_max" by (simp add: word_le_nat_alt [symmetric])
  moreover have m: "unat u64_max = 2 ^ 64 - 1" using unat_u64_max_minus [of 0] by simp
  ultimately have l: "unat (l + 1) = unat l + 1" by (simp add: unat_word_ariths(1))
  have "unat d + unat (l + 1) < 2 ^ 64" using d unfolding u64_max_add .
  with l n show ?thesis by (simp add: unat_word_ariths(1))
qed

text \<open>C21: the first object of a subgroup stream has the delta on the wire as its Object ID, and every later one the ID of the
  object before it plus the delta plus one, as natural numbers: the IDs grow strictly and the sum does not wrap around.\<close>

theorem object_ids_increase:
  assumes "parse_object_fields b last_id stream c = Some (Inr (ob, c'))"
  shows "\<exists>d c1. cursor_varint c = Some (d, c1) \<and> (case last_id of
      None \<Rightarrow> sgo_object_id ob = d
    | Some l \<Rightarrow> unat (sgo_object_id ob) = unat l + unat d + 1 \<and> l < sgo_object_id ob)"
proof -
  obtain d c0 c1 n c2 where d: "cursor_varint c = Some (d, c0)" and n: "next_object_id last_id d c1 = Some (Inr (n, c2))" "sgo_object_id ob = n"
    using assms by (auto simp: parse_object_fields_def parser_Inr split: if_splits option.splits)
  show ?thesis
  proof (cases last_id)
    case None
    with n have "sgo_object_id ob = d" by (simp add: next_object_id_def preturn_def)
    with d None show ?thesis by simp
  next
    case (Some l)
    with n next_object_id_greater [of l d c1 n c2] have "unat (sgo_object_id ob) = unat l + unat d + 1" by simp
    with d Some show ?thesis by (simp add: word_less_nat_alt)
  qed
qed

text \<open>An object with delta 5 after Object ID 3.\<close>

theorem object_ids_increase_witness:
  "\<exists>ob c'. parse_object_fields False (Some 3) 0 \<lparr>cur_bytes = [5, 1, 42], cur_offset = 0\<rparr> = Some (Inr (ob, c'))
     \<and> unat (sgo_object_id ob) = 3 + 5 + 1 \<and> 3 < sgo_object_id ob"
proof -
  have p: "parse_object_fields False (Some 3) 0 \<lparr>cur_bytes = [5, 1, 42], cur_offset = 0\<rparr> =
     Some (Inr (\<lparr>sgo_object_id = 9, sgo_status = None, sgo_properties = [], sgo_payload = [42]\<rparr>,
       \<lparr>cur_bytes = [5, 1, 42], cur_offset = 3\<rparr>))"
    by code_simp
  have d: "cursor_varint \<lparr>cur_bytes = [5, 1, 42], cur_offset = 0\<rparr> = Some (5, \<lparr>cur_bytes = [5, 1, 42], cur_offset = 1\<rparr>)"
    by code_simp
  from object_ids_increase [OF p] p show ?thesis unfolding d by (auto simp only: option.inject prod.inject option.case) simp
qed

section \<open>The request stream\<close>

text \<open>C20: what arrives on a request stream is worked off: afterwards the request is terminated or its
  buffer holds no complete message, and nothing at all once the peer has finished the stream.\<close>

theorem request_stream_drained:
  assumes "sb_requests (request_on_receive i chunks fin w) i = Some rq"
  shows "rq_phase rq = Sub_Terminated \<or>
    (cmr_status (read_control_message (rq_response_buffer rq) 0) \<noteq> Done \<and> (fin \<longrightarrow> rq_response_buffer rq = []))"
proof (cases "sb_requests w i")
  case (Some rq0)
  let ?stop = "\<lambda>w. request_phase i w = Sub_Terminated"
  obtain w1 buffer where l: "control_loop ?stop (handle_control_message i) w (rq_response_buffer rq0 @ concat chunks) = (w1, buffer)"
    by fastforce
  note rest = control_loop_result [OF l]
  define w2 where "w2 = w1\<lparr>sb_requests := (sb_requests w1)(i := map_option (\<lambda>rq. rq\<lparr>rq_response_buffer := buffer\<rparr>) (sb_requests w1 i))\<rparr>"
  have phase: "request_phase i w2 = request_phase i w1"
    by (simp add: w2_def request_phase_def split: option.split)
  have r: "request_on_receive i chunks fin w = (if request_phase i w2 \<noteq> Sub_Terminated \<and> fin \<and> buffer \<noteq> []
      then terminate i ''request stream ended mid-message'' w2 else w2)"
    using Some l by (simp add: request_on_receive_def w2_def Let_def)
  show ?thesis
  proof (cases "request_phase i w2 \<noteq> Sub_Terminated \<and> fin \<and> buffer \<noteq> []")
    case True
    then obtain rq2 where "live w2 i rq2" by (auto simp: request_phase_def live_def split: option.splits)
    then show ?thesis using assms r True by (auto simp: terminate_fields(1))
  next
    case False
    have w2: "sb_requests w2 i = Some rq" using assms unfolding r if_not_P [OF False] .
    then have "rq_response_buffer rq = buffer" by (auto simp: w2_def)
    moreover have "request_phase i w2 = rq_phase rq" using w2 by (simp add: request_phase_def)
    ultimately show ?thesis using rest phase False by auto
  qed
qed (use assms in \<open>simp add: request_on_receive_def\<close>)

theorem request_stream_drained_witness:
  "rq_response_buffer (the (sb_requests (request_on_receive 0 [[4, 0, 2, 5, 0]] True demo_pending) 0)) = []
     \<or> rq_phase (the (sb_requests (request_on_receive 0 [[4, 0, 2, 5, 0]] True demo_pending) 0)) = Sub_Terminated"
proof -
  have "sb_requests (request_on_receive 0 [[4, 0, 2, 5, 0]] True demo_pending) 0 = Some
      \<lparr>rq_phase = Sub_Established, rq_track_alias = Some 5, rq_stream = 2, rq_response_buffer = [], rq_updates = [], rq_result = None\<rparr>"
    by (simp add: demo_response_defs control_loop_step control_loop_stop demo_pending_def demo_ready_def demo_defs cong: option.case_cong)
  then show ?thesis using request_stream_drained [of 0 "[[4, 0, 2, 5, 0]]" True demo_pending] by simp
qed

section \<open>Input that breaks the protocol\<close>

text \<open>C22: a unidirectional stream of the peer whose type is none of SETUP, padding, fetch and subgroup
  closes the session with \<open>ProtocolViolation\<close>.\<close>

theorem unknown_stream_type_closes:
  assumes r: "sub_reachable w" and live: "se_phase w < Closing" and gate: "se_gates w st = Some \<lparr>g_mode = Classify, g_bytes = bs\<rparr>"
    and uni: "unidirectional w st" and v: "read_varint (bs @ concat chunks) 0 = \<lparr>vr_status = Done, vr_value = type, vr_bytes = n\<rparr>"
    and bad: "type \<notin> {kSetupStreamType, kPaddingStreamType, kFetchStreamType}" "\<not> is_subgroup_stream_type type"
  shows "se_close_reason (gate_on_receive sub_role st chunks fin w) =
      Some (Close_ProtocolViolation, ''unknown peer unidirectional stream type '' @ to_string (unat type))
    \<and> se_phase (gate_on_receive sub_role st chunks fin w) \<ge> Closing"
proof -
  let ?e = "''unknown peer unidirectional stream type '' @ to_string (unat type)"
  let ?w = "put_gate st GateDone (bs @ concat chunks) (put_gate st Classify (bs @ concat chunks) w)"
  have "gate_on_receive sub_role st chunks fin w = begin_close terminate_subscriptions Close_ProtocolViolation ?e ?w"
    using gate uni v bad
    by (auto simp: gate_on_receive_def gate_classify_def Let_def unidirectional_def put_gate_def protocol_violation_def sub_role_def)
  moreover have "session_wf ?w" "se_phase ?w < Closing"
    using reachable_wf [OF r] live by (simp_all add: put_gate_def session_wf_def)
  ultimately show ?thesis using sub_closing.begin_close_reason [of ?w Close_ProtocolViolation ?e] by simp
qed

theorem unknown_stream_type_closes_witness:
  "se_close_reason (gate_on_receive sub_role 3 [[2]] False (subscriber_step (SubConnection (PeerStreamStarted True 7)) demo_established))
     = Some (Close_ProtocolViolation, ''unknown peer unidirectional stream type '' @ to_string 2)"
proof -
  let ?w = "subscriber_step (SubConnection (PeerStreamStarted True 7)) demo_established"
  have r: "sub_reachable ?w" by (rule sub_event [OF demo_established_reachable]) simp
  have w: "se_phase ?w < Closing" "se_gates ?w 3 = Some \<lparr>g_mode = Classify, g_bytes = []\<rparr>" "unidirectional ?w 3"
    by (simp_all add: connection_callback_def new_stream_def on_peer_stream_started_def set_sink_def unidirectional_def
        demo_established_def demo_pending_def demo_ready_def phase_order)
  have v: "read_varint ([] @ concat [[2]]) 0 = \<lparr>vr_status = Done, vr_value = 2, vr_bytes = 1\<rparr>" by code_simp
  have "\<not> is_subgroup_stream_type 2" by code_simp
  with unknown_stream_type_closes [OF r w v, of False] show ?thesis by simp
qed

text \<open>C23: a SUBSCRIBE_OK with a Track Alias that is in use closes the session with
  \<open>DuplicateTrackAlias\<close>.\<close>

theorem duplicate_alias_closes:
  assumes r: "sub_reachable w" and live: "se_phase w < Closing" and pending: "request_phase i w = Sub_Pending"
    and ok: "decode_subscribe_ok (cm_payload message) = Inr ok" and used: "dp_routes_by_alias w (ok_track_alias ok) \<noteq> None"
  shows "se_close_reason (handle_subscribe_ok i message w) =
      Some (Close_DuplicateTrackAlias, ''SUBSCRIBE_OK reused an established Track Alias'')
    \<and> se_phase (handle_subscribe_ok i message w) \<ge> Closing"
proof -
  obtain route w1 where n: "new_route i w = (route, w1)" by fastforce
  then have w1: "session_wf w1" "se_phase w1 < Closing" "dp_routes_by_alias w1 (ok_track_alias ok) \<noteq> None"
    using reachable_wf [OF r] live used by (auto simp: new_route_def session_wf_def)
  from w1(3) have "install_route callbacks (ok_track_alias ok) route w1 = (False, w1)" by (simp add: install_route_def)
  with n have "handle_subscribe_ok i message w = begin_close terminate_subscriptions Close_DuplicateTrackAlias
      ''SUBSCRIBE_OK reused an established Track Alias'' w1"
    using pending ok by (simp add: handle_subscribe_ok_def)
  with sub_closing.begin_close_reason [OF w1(1,2)] show ?thesis by simp
qed

theorem duplicate_alias_closes_witness:
  "se_close_reason (handle_subscribe_ok 2 \<lparr>cm_type = kMessageSubscribeOk, cm_payload = [5, 0]\<rparr>
       (subscriber_step (SubSubscribe demo_request True) demo_established))
     = Some (Close_DuplicateTrackAlias, ''SUBSCRIBE_OK reused an established Track Alias'')"
proof -
  let ?w = "subscriber_step (SubSubscribe demo_request True) demo_established"
  have r: "sub_reachable ?w" by (rule sub_event [OF demo_established_reachable]) (simp add: demo_encodable)
  have e: "encode_subscribe 2 demo_request = Inr [3, 0, 7, 2, 1, 1, 97, 1, 116, 0]" by code_simp
  have w: "se_phase ?w < Closing" "request_phase 2 ?w = Sub_Pending" "dp_routes_by_alias ?w 5 \<noteq> None"
    by (simp_all add: demo_subscribe_defs e request_phase_def demo_established_def demo_pending_def demo_ready_def demo_defs phase_order)
  show ?thesis
    using duplicate_alias_closes [OF r w(1,2), of "\<lparr>cm_type = kMessageSubscribeOk, cm_payload = [5, 0]\<rparr>"] demo_decode_ok w(3)
    by simp
qed

text \<open>C24: a request that \<open>encode_subscribe\<close> refuses, for whatever reason, is left among the subscriptions of a ready
  session although its promise has failed. A SUBSCRIBE_OK on its stream, for an alias that is free and has no early data,
  settles the promise a second time, and the exception ends the process.\<close>

theorem unencodable_subscribe_leaks:
  assumes ready: "se_phase w = Ready" and i: "fst (allocate_request_id w) = Inr i"
    and granted: "tp_answer w (tp_calls w)" "tp_answer w (tp_calls w + 1)" and refused: "encode_subscribe i request = Inl e"
    and ok: "read_control_message bytes 0 = \<lparr>cmr_status = Done,
        cmr_message = \<lparr>cm_type = kMessageSubscribeOk, cm_payload = payload\<rparr>, cmr_bytes = length bytes\<rparr>"
      "decode_subscribe_ok payload = Inr answer"
    and free: "dp_routes_by_alias w (ok_track_alias answer) = None" "dp_unknown_datagrams w (ok_track_alias answer) = None"
      "dp_pending_subgroups_by_alias w (ok_track_alias answer) = None"
  shows "se_promises (subscriber_step (SubSubscribe request True) w) (se_next_promise w) = Some (Failed (PError (exn_what e)))
    \<and> i \<in> set (sb_subscriptions (subscriber_step (SubSubscribe request True) w))
    \<and> last (tp_log (subscriber_run [SubSubscribe request True, SubStream (tp_next_stream w) (Receive [bytes] fin)] w)) = StdTerminate"
proof -
  let ?p = "se_next_promise w" and ?st = "tp_next_stream w"
  define v where "v = subscriber_step (SubSubscribe request True) w"
  have v: "se_promises v ?p = Some (Failed (PError (exn_what e)))" "i \<in> set (sb_subscriptions v)"
    "sb_requests v i = Some (new_request ?st ?p)" "stream_sink v ?st = Some (SubscriberRequestSink i)"
    "dp_routes_by_alias v = dp_routes_by_alias w" "dp_unknown_datagrams v = dp_unknown_datagrams w"
    "dp_pending_subgroups_by_alias v = dp_pending_subgroups_by_alias w"
    using ready i granted refused
    by (auto simp: v_def subscribe_def new_promise_def send_subscribe_def allocate_request_id_def open_stream_def quic_call_def new_stream_def
        put_request_def set_sink_def emit_def Session.fail_def stream_sink_def Let_def split: if_splits)
  let ?u = "handle_subscribe_ok i \<lparr>cm_type = kMessageSubscribeOk, cm_payload = payload\<rparr> v"
  have u: "last (tp_log ?u) = StdTerminate" "request_phase i ?u = Sub_Established" "tp_log ?u \<noteq> []"
    using v ok free
    by (simp_all add: handle_subscribe_ok_def request_phase_def new_request_def new_route_def install_route_def take_pending_def
        put_request_def set_value_def emit_def Let_def)
  have "cmr_status (read_control_message [] 0) \<noteq> Done" by code_simp
  then have "control_loop (\<lambda>w. request_phase i w = Sub_Terminated) (handle_control_message i) v bytes = (?u, [])"
    using ok v(3) u(2)
    by (simp add: control_loop_step control_loop_stop handle_control_message_def request_phase_def new_request_def)
  then have "tp_log (request_on_receive i [bytes] fin v) = tp_log ?u"
    using v(3) u(2) by (simp add: request_on_receive_def new_request_def Let_def)
  with u(1) v(4) have "last (tp_log (subscriber_step (SubStream ?st (Receive [bytes] fin)) v)) = StdTerminate"
    by (simp add: stream_callback_def sub_sinks_def)
  with v(1,2) show ?thesis unfolding subscriber_run.simps v_def [symmetric] by blast
qed

theorem unencodable_subscribe_leaks_witness:
  "last (tp_log (subscriber_run [SubSubscribe bad_request True, SubStream 2 (Receive [[4, 0, 2, 5, 0]] False)] demo_ready)) = StdTerminate"
proof -
  have w: "se_phase demo_ready = Ready" "fst (allocate_request_id demo_ready) = Inr 0" "tp_answer demo_ready (tp_calls demo_ready)"
    "tp_answer demo_ready (tp_calls demo_ready + 1)" "dp_routes_by_alias demo_ready a = None" "dp_unknown_datagrams demo_ready a = None"
    "dp_pending_subgroups_by_alias demo_ready a = None" "tp_next_stream demo_ready = 2" for a
    by (simp_all add: demo_ready_def demo_defs allocate_request_id_def)
  have ok: "read_control_message [4, 0, 2, 5, 0] 0 = \<lparr>cmr_status = Done,
      cmr_message = \<lparr>cm_type = kMessageSubscribeOk, cm_payload = [5, 0]\<rparr>, cmr_bytes = length [4, 0, 2, 5, 0 :: byte]\<rparr>"
    using demo_subscribe_ok(1) by simp
  from unencodable_subscribe_leaks [OF w(1-4) bad_encode ok demo_decode_ok w(5-7), of False] show ?thesis by (simp add: w(8))
qed

end
