(* ===== verification/Publisher_Demo.thy ===== *)
theory Publisher_Demo
  imports Publisher_Inv Object_Properties
begin

text \<open>
  A session of a publisher, event by event: a track is registered, SETUP is exchanged both ways,
  the namespace is announced, and the peer subscribes. The states are computed from the
  definitions and serve as the concrete inputs of the properties of the publisher.
\<close>

fun publisher_run :: "publisher_event list \<Rightarrow> 'a publisher_scheme \<Rightarrow> 'a publisher_scheme" where
  "publisher_run [] w = w"
| "publisher_run (event # events) w = publisher_run events (publisher_step event w)"

definition demo_track :: PublishedTrack where
  "demo_track = \<lparr>pt_namespace = [''a''], pt_name = ''t'', pt_properties = []\<rparr>"

definition pub_start :: publisher where
  "pub_start = initial_publisher (\<lambda>n. True) (\<lambda>n. []) (default_config\<lparr>cfg_host := ''h'', cfg_port := 1, cfg_authority := ''h''\<rparr>) 2"

definition demo_entry :: "RequestId list \<Rightarrow> TrackEntry" where
  "demo_entry ids = \<lparr>te_track = demo_track, te_largest = None, te_subscriptions = ids\<rparr>"

definition pub_handshake :: "publisher_event list" where
  "pub_handshake = [PubRegister demo_track, PubConnection Connected, PubConnection (PeerStreamStarted True 3),
     PubStream 1 (Receive [[175, 0, 0, 0]] False)]"

definition pub_ready :: publisher where
  "pub_ready = pub_start\<lparr>tp_calls := 6,
     tp_streams := [0 \<mapsto> \<lparr>sc_handle = True, sc_unidirectional = True, sc_id = 0, sc_sink = None\<rparr>,
                    1 \<mapsto> \<lparr>sc_handle = True, sc_unidirectional = True, sc_id = 3, sc_sink = Some PeerStreamGateSink\<rparr>,
                    2 \<mapsto> \<lparr>sc_handle = True, sc_unidirectional = False, sc_id = 0, sc_sink = Some (AnnouncementSink ''a'')\<rparr>],
     tp_next_stream := 3, tp_registered := [2, 1, 0],
     tp_log := [StreamOpened 0 True, StreamSent 0 demo_setup False, StreamOpened 2 False, StreamSent 2 [6, 0, 5, 0, 1, 1, 97, 0] False],
     se_phase := Ready, se_local_setup_sent := True, se_peer_setup_received := True, se_negotiated_version := Some kAlpn,
     se_next_request_id := 2, se_gates := [1 \<mapsto> \<lparr>g_mode = GateDone, g_bytes = []\<rparr>],
     sp_tracks := [(([''a''], ''t''), demo_entry [])],
     pb_announced_namespaces := [''a'' \<mapsto> 2], pb_announcement_buffers := [2 \<mapsto> []]\<rparr>"

lemma demo_encode_namespace: "encode_publish_namespace 0 [''a''] = Inr [6, 0, 5, 0, 1, 1, 97, 0]"
  by code_simp

lemma pub_ready_run: "publisher_run pub_handshake pub_start = pub_ready"
  by (simp add: pub_handshake_def pub_register_track_def demo_track_def reserved_namespace_def register_track_def pub_callbacks_def
      demo_step_defs pub_sinks_def pub_role_def on_ready_def announce_namespace_def namespace_text_def allocate_request_id_def
      pub_start_def initial_publisher_def pub_ready_def demo_entry_def demo_encode_setup demo_peer_setup demo_encode_namespace
      fun_eq_iff cong: option.case_cong)

text \<open>The peer subscribes to the track under Request ID 1.\<close>

lemma demo_peer_subscribe:
  "read_control_message [3, 0, 7, 1, 1, 1, 97, 1, 116, 0] 0 =
     \<lparr>cmr_status = Done, cmr_message = \<lparr>cm_type = kMessageSubscribe, cm_payload = [1, 1, 1, 97, 1, 116, 0]\<rparr>, cmr_bytes = 10\<rparr>"
  "decode_subscribe [1, 1, 1, 97, 1, 116, 0] =
     Inr \<lparr>sub_request_id = 1, sub_namespace = [''a''], sub_name = ''t'', sub_parameters = []\<rparr>"
  "decode_subscription_options [] no_options = Inr no_options"
  "encode_subscribe_ok 0 [] [] = Inr [4, 0, 2, 0, 0]"
  by code_simp+

definition demo_send :: SubscriptionSend where
  "demo_send = \<lparr>ss_request_id = 1, ss_track_alias = 0, ss_track_key = ([''a''], ''t''), ss_forward = True,
     ss_start = \<lparr>loc_group = 0, loc_object = 0\<rparr>, ss_end_group = None, ss_stream_count = 0, ss_streams = []\<rparr>"

definition pub_serving :: publisher where
  "pub_serving = pub_ready\<lparr>tp_calls := 7,
     tp_streams := (tp_streams pub_ready)(3 \<mapsto> \<lparr>sc_handle = True, sc_unidirectional = False, sc_id = 5,
       sc_sink = Some (PublisherRequestSink 1)\<rparr>),
     tp_next_stream := 4, tp_registered := [3, 2, 1, 0], tp_log := tp_log pub_ready @ [StreamSent 3 [4, 0, 2, 0, 0] False],
     se_gates := (se_gates pub_ready)(3 \<mapsto> \<lparr>g_mode = GateDone, g_bytes = []\<rparr>),
     sp_tracks := [(([''a''], ''t''), demo_entry [1])], sp_subscriptions := [1 \<mapsto> demo_send],
     pb_next_track_alias := 1, pb_peer_request_ids := {1},
     pb_requests := [1 \<mapsto> \<lparr>pq_namespace = [''a''], pq_name = ''t'', pq_stream = 3, pq_buffer = [], pq_terminated = False\<rparr>],
     pb_subscriptions := [1]\<rparr>"

definition pub_subscribe_events :: "publisher_event list" where
  "pub_subscribe_events = [PubConnection (PeerStreamStarted False 5),
     PubStream 3 (Receive [[3, 0, 7, 1, 1, 1, 97, 1, 116, 0]] False)]"

lemma pub_serving_run: "publisher_run pub_subscribe_events pub_ready = pub_serving"
  by (simp add: pub_subscribe_events_def pub_callbacks_def demo_step_defs pub_sinks_def pub_role_def pub_handle_peer_request_def
      accept_subscribe_def demo_peer_subscribe consume_peer_request_id_def reserved_namespace_def find_track_def
      attach_subscription_def no_options_def nonzero_def put_track_def put_subscription_def accept_attached_def put_pub_request_def
      largest_parameters_def pub_request_on_receive_def process_buffer.simps [of _ _ "[]"] pub_terminated_def demo_subscribe_ok
      demo_entry_def demo_track_def demo_send_def pub_start_def initial_publisher_def pub_ready_def pub_serving_def fun_eq_iff
      cong: option.case_cong)

end
