(* ===== verification/Publisher_Properties.thy ===== *)
theory Publisher_Properties
  imports Publisher_Demo
begin

text \<open>
  The properties of a publisher in every state it can reach: the events of MsQuic and the calls
  of the application in any order, with any answers of MsQuic and any peer.
\<close>

inductive pub_reachable :: "publisher \<Rightarrow> bool" where
  pub_start: "pub_reachable (initial_publisher answer status config max_subscriptions)"
| pub_event: "pub_reachable w \<Longrightarrow> pub_reachable (publisher_step event w)"

lemma initial_publisher_ok:
  "pub_inv (initial_publisher answer status config n) \<and> session_wf (initial_publisher answer status config n)"
  by (simp add: initial_publisher_def pub_inv_def pub_live_def pub_requests_inv_def send_inv_def pub_calm_def session_wf_def)

lemma pub_reachable_ok: "pub_reachable w \<Longrightarrow> pub_inv w \<and> session_wf w"
proof (induction rule: pub_reachable.induct)
  case (pub_event w event)
  then show ?case using pubi.I_step [of w event] puba.I_step [OF ages_refl, of w event] by (simp add: ages_def)
qed (rule initial_publisher_ok)

lemmas pub_reachable_inv = pub_reachable_ok [THEN conjunct1]
  and pub_reachable_wf = pub_reachable_ok [THEN conjunct2]

lemma pub_reachable_parts:
  assumes "pub_reachable w"
  shows "pub_requests_inv w" "send_inv {} w" "pub_calm w" "se_phase w = Closing \<longrightarrow> pb_subscriptions w = []"
  using pub_reachable_inv [OF assms] by (simp_all add: pub_inv_def pub_live_def)

lemma pub_reachable_run: "pub_reachable w \<Longrightarrow> pub_reachable (publisher_run events w)"
  by (induction events arbitrary: w) (simp_all add: pub_event)

lemma pub_serving_reachable: "pub_reachable pub_serving"
  unfolding pub_serving_run [symmetric] pub_ready_run [symmetric] pub_start_def
  by (intro pub_reachable_run pub_reachable.pub_start)

section \<open>Safety\<close>

text \<open>C7: no exception ever leaves a publisher on a thread of the transport, whatever the peer sends;
  and as long as MsQuic grants every call, \<open>publish\<close> never reads a subscription that has been
  erased.\<close>

theorem publisher_never_aborts:
  assumes "pub_reachable w"
  shows "StdTerminate \<notin> set (tp_log w) \<and> (DanglingRead i \<in> set (tp_log w) \<longrightarrow> (\<exists>n. \<not> tp_answer w n))"
  using pub_reachable_parts(3) [OF assms] by (auto simp: pub_calm_def)

theorem publisher_never_aborts_witness: "StdTerminate \<notin> set (tp_log pub_serving) \<and> DanglingRead 1 \<notin> set (tp_log pub_serving)"
proof -
  have "tp_answer pub_serving n" for n by (simp add: pub_serving_def pub_ready_def pub_start_def initial_publisher_def)
  with publisher_never_aborts [OF pub_serving_reachable, of 1] show ?thesis by blast
qed

text \<open>C8: the subscriptions of a publisher are the requests of the peer that have not ended, each under
  a Request ID of its own with the parity of a server, never more than the configured number; the
  send plane serves no others.\<close>

theorem publisher_subscriptions:
  assumes "pub_reachable w"
  shows "distinct (pb_subscriptions w) \<and> length (pb_subscriptions w) \<le> pb_max_subscriptions w
    \<and> set (pb_subscriptions w) = {i. \<exists>rq. pb_requests w i = Some rq \<and> \<not> pq_terminated rq}
    \<and> set (pb_subscriptions w) \<subseteq> pb_peer_request_ids w \<and> (\<forall>i\<in>pb_peer_request_ids w. i AND 1 \<noteq> 0)
    \<and> dom (sp_subscriptions w) \<subseteq> set (pb_subscriptions w)"
proof -
  have "dom (sp_subscriptions w) \<subseteq> set (pb_subscriptions w)"
    using send_invD(1) [OF pub_reachable_parts(2) [OF assms]] by auto
  then show ?thesis using pub_reachable_parts(1) [OF assms] unfolding pub_requests_inv_def by blast
qed

theorem publisher_subscriptions_witness:
  "distinct (pb_subscriptions pub_serving) \<and> set (pb_subscriptions pub_serving) = {1} \<and> dom (sp_subscriptions pub_serving) \<subseteq> {1}"
proof -
  have "set (pb_subscriptions pub_serving) = {1}" by (simp add: pub_serving_def)
  with publisher_subscriptions [OF pub_serving_reachable] show ?thesis by blast
qed

text \<open>C10: the index of a track, the set \<open>publish\<close> walks, is exactly the set of the subscriptions
  to it; a subscription is always to a registered track.\<close>

theorem track_index:
  assumes "pub_reachable w"
  shows "(find_track key w = Some entry \<longrightarrow> distinct (te_subscriptions entry)
      \<and> set (te_subscriptions entry) = {i. \<exists>s. sp_subscriptions w i = Some s \<and> ss_track_key s = key})
    \<and> (sp_subscriptions w i = Some s \<longrightarrow> find_track (ss_track_key s) w \<noteq> None)"
  using send_inv_index [OF pub_reachable_parts(2) [OF assms]] send_invD(4) [OF pub_reachable_parts(2) [OF assms]]
  unfolding find_track_def by blast

theorem track_index_witness: "1 \<in> set (te_subscriptions (the (find_track ([''a''], ''t'') pub_serving)))"
proof -
  have f: "find_track ([''a''], ''t'') pub_serving = Some (demo_entry [1])" by (simp add: find_track_def pub_serving_def)
  have "sp_subscriptions pub_serving 1 = Some demo_send" "ss_track_key demo_send = ([''a''], ''t'')"
    by (simp_all add: pub_serving_def demo_send_def)
  with track_index [OF pub_serving_reachable, of "([''a''], ''t'')" "demo_entry [1]"] f show ?thesis by auto
qed

text \<open>C11: two subscriptions never share a Track Alias: the counter is ahead of every alias in use, and it
  never wraps around because an alias is given for a fresh odd Request ID only.\<close>

theorem track_aliases_unique:
  assumes "pub_reachable w"
  shows "inj_on (\<lambda>i. map_option ss_track_alias (sp_subscriptions w i)) (dom (sp_subscriptions w))
    \<and> (\<forall>s\<in>ran (sp_subscriptions w). ss_track_alias s < pb_next_track_alias w)
    \<and> unat (pb_next_track_alias w) \<le> card (pb_peer_request_ids w)"
proof -
  note inv = pub_reachable_parts(2) [OF assms]
  have "inj_on (\<lambda>i. map_option ss_track_alias (sp_subscriptions w i)) (dom (sp_subscriptions w))"
    by (rule inj_onI) (auto dest: send_invD(6) [OF inv])
  moreover have "\<forall>s\<in>ran (sp_subscriptions w). ss_track_alias s < pb_next_track_alias w"
    using send_invD(3) [OF inv] by (auto simp: ran_def)
  ultimately show ?thesis using pub_reachable_parts(1) [OF assms] by (simp add: pub_requests_inv_def)
qed

theorem track_aliases_unique_witness: "ss_track_alias ` ran (sp_subscriptions pub_serving) \<subseteq> {..<1}"
proof -
  have "pb_next_track_alias pub_serving = 1" by (simp add: pub_serving_def)
  with track_aliases_unique [OF pub_serving_reachable] show ?thesis by (auto simp del: word_less_1)
qed

section \<open>Closing and time\<close>

text \<open>C9: once a publisher is closing every subscription has been cancelled and nobody waits for the
  session to become ready any more.\<close>

theorem publisher_closing_ends_everything:
  assumes "pub_reachable w" "se_phase w = Closing"
  shows "pb_subscriptions w = [] \<and> sp_subscriptions w = Map.empty \<and> se_ready_waiters w = []
    \<and> (\<forall>key entry. find_track key w = Some entry \<longrightarrow> te_subscriptions entry = [])"
proof -
  note p = pub_reachable_parts [OF assms(1)]
  have subs: "pb_subscriptions w = []" using p(4) assms(2) by simp
  have none: "sp_subscriptions w i = None" for i using send_invD(1) [OF p(2), of i] subs by (cases "sp_subscriptions w i") auto
  have "te_subscriptions entry = []" if "map_of (sp_tracks w) key = Some entry" for key entry
    using send_inv_index [OF p(2) that] none by simp
  moreover have "se_ready_waiters w = []" using p(3) assms(2) by (simp add: pub_calm_def phase_order)
  ultimately show ?thesis using subs none by (auto simp: find_track_def fun_eq_iff)
qed

theorem publisher_closing_ends_everything_witness:
  "sp_subscriptions (publisher_step (PubClose 7) pub_serving) = Map.empty"
proof -
  let ?w = "publisher_step (PubClose 7) pub_serving"
  have "se_phase pub_serving = Ready" by (simp add: pub_serving_def pub_ready_def)
  moreover have "pub_live pub_serving" using pub_reachable_inv [OF pub_serving_reachable] by (simp add: pub_inv_def)
  ultimately have "se_phase ?w = Closing" by (simp add: close_def begin_close_closing phase_order)
  with publisher_closing_ends_everything [OF pub_event [OF pub_serving_reachable], of "PubClose 7"] show ?thesis by blast
qed

text \<open>C14: whatever happens to a publisher, its phase only advances, a promise keeps the result it was
  settled with, the first reason for closing stays, its Request IDs are even and grow, and nothing
  sent is taken back.\<close>

theorem publisher_progress:
  assumes "pub_reachable w"
  shows "se_phase w \<le> se_phase (publisher_step event w)
    \<and> (\<forall>p v. se_promises w p = Some v \<longrightarrow> v \<noteq> Pending \<longrightarrow> se_promises (publisher_step event w) p = Some v)
    \<and> (\<forall>r. se_close_reason w = Some r \<longrightarrow> se_close_reason (publisher_step event w) = Some r)
    \<and> se_next_request_id w \<le> se_next_request_id (publisher_step event w) \<and> even (unat (se_next_request_id w))
    \<and> (\<exists>more. tp_log (publisher_step event w) = tp_log w @ more)"
  using puba.I_step [OF ages_refl, of w event] pub_reachable_wf [OF assms]
  by (simp add: ages_def keeps_results_def log_extends_def session_wf_def)

theorem publisher_progress_witness: "Ready \<le> se_phase (publisher_step (PubEndTrack ([''a''], ''t'') 2 []) pub_serving)"
proof -
  have "se_phase pub_serving = Ready" by (simp add: pub_serving_def pub_ready_def)
  with publisher_progress [OF pub_serving_reachable, of "PubEndTrack ([''a''], ''t'') 2 []"] show ?thesis by simp
qed

end
