(* ===== verification/Publish_Stream.thy ===== *)
theory Publish_Stream
  imports Publisher_Properties
begin

text \<open>
  What a published object becomes on the wire: the filters of a subscription, the bytes of a
  subgroup stream, the end of a subscription, and the composition of a publisher with a
  subscriber.
\<close>

section \<open>Filters\<close>

text \<open>The meaning of a subscription filter, over unbounded numbers.\<close>

definition location_pair :: "Location \<Rightarrow> nat \<times> nat" where
  "location_pair l = (unat (loc_group l), unat (loc_object l))"

definition before :: "nat \<times> nat \<Rightarrow> nat \<times> nat \<Rightarrow> bool" where
  "before a b \<longleftrightarrow> fst a < fst b \<or> (fst a = fst b \<and> snd a < snd b)"

definition filter_wants :: "SubscriptionFilter \<Rightarrow> Location option \<Rightarrow> Location \<Rightarrow> bool" where
  "filter_wants f largest l \<longleftrightarrow>
     (if sf_filter_type f = kFilterLargestObject
      then (case largest of None \<Rightarrow> True | Some m \<Rightarrow> before (location_pair m) (location_pair l))
      else if sf_filter_type f = kFilterNextGroupStart
      then (case largest of None \<Rightarrow> True | Some m \<Rightarrow> fst (location_pair m) < fst (location_pair l))
      else if sf_filter_type f = kFilterAbsoluteStart then \<not> before (location_pair l) (location_pair (sf_start f))
      else if sf_filter_type f = kFilterAbsoluteRange
      then \<not> before (location_pair l) (location_pair (sf_start f))
           \<and> fst (location_pair l) \<le> fst (location_pair (sf_start f)) + unat (sf_end_group_delta f)
      else True)"

definition filter_fits :: "SubscriptionFilter \<Rightarrow> Location option \<Rightarrow> bool" where
  "filter_fits f largest \<longleftrightarrow>
     (sf_filter_type f = kFilterAbsoluteRange \<longrightarrow> unat (loc_group (sf_start f)) + unat (sf_end_group_delta f) < 2 ^ 64) \<and>
     (\<forall>m. largest = Some m \<longrightarrow> (sf_filter_type f = kFilterNextGroupStart \<longrightarrow> loc_group m \<noteq> u64_max)
        \<and> (sf_filter_type f = kFilterLargestObject \<longrightarrow> loc_object m \<noteq> u64_max))"

lemma unat_plus_one: "(x :: u64) \<noteq> u64_max \<Longrightarrow> unat (x + 1) = unat x + 1"
proof -
  assume "x \<noteq> u64_max"
  then have "unat x \<noteq> unat u64_max" using word_unat_eq_iff [of x u64_max] by blast
  moreover have "unat u64_max = 2 ^ 64 - 1" using unat_u64_max_minus [of 0] by simp
  ultimately show ?thesis using unat_u64_bound [of x] by (simp add: unat_word_ariths(1))
qed

lemma location_less_before: "location_less a b \<longleftrightarrow> before (location_pair a) (location_pair b)"
  by (auto simp: location_less_def before_def location_pair_def word_less_nat_alt word_unat_eq_iff)

text \<open>C12: the filter of a subscription lets exactly the objects through its type asks for: those after
  the largest published so far, those of the next group on, those from a start, or those of a range
  of groups; as long as the numbers it is resolved to do not wrap around.\<close>

theorem filter_meaning:
  assumes fits: "filter_fits f largest" and s: "(ss_start s, ss_end_group s) = resolve_filter f largest"
  shows "passes_filter s g ob \<longleftrightarrow> filter_wants f largest \<lparr>loc_group = g, loc_object = ob\<rparr>"
proof -
  let ?l = "\<lparr>loc_group = g, loc_object = ob\<rparr>"
  have zero: "\<not> before p (location_pair \<lparr>loc_group = 0, loc_object = 0\<rparr>)" for p by (simp add: before_def location_pair_def)
  have start: "ss_start s = fst (resolve_filter f largest)" "ss_end_group s = snd (resolve_filter f largest)"
    using s by (metis fst_conv, metis snd_conv)
  have after: "sf_filter_type f = kFilterNextGroupStart \<longrightarrow> unat (loc_group m + 1) = unat (loc_group m) + 1"
    "sf_filter_type f = kFilterLargestObject \<longrightarrow> unat (loc_object m + 1) = unat (loc_object m) + 1"
    if "largest = Some m" for m using fits that unat_plus_one by (auto simp: filter_fits_def)
  have range: "unat (loc_group (sf_start f) + sf_end_group_delta f) = unat (loc_group (sf_start f)) + unat (sf_end_group_delta f)"
    if "sf_filter_type f = kFilterAbsoluteRange" using fits that by (simp add: filter_fits_def unat_add_no_wrap)
  consider "sf_filter_type f = kFilterLargestObject" | "sf_filter_type f = kFilterNextGroupStart"
    | "sf_filter_type f = kFilterAbsoluteStart" | "sf_filter_type f = kFilterAbsoluteRange"
    | "sf_filter_type f \<notin> {kFilterLargestObject, kFilterNextGroupStart, kFilterAbsoluteStart, kFilterAbsoluteRange}" by auto
  then show ?thesis
  proof cases
    case 1
    then show ?thesis
      using zero after
      by (auto simp: passes_filter_def start resolve_filter_def filter_wants_def location_less_before split: option.split)
        (auto simp: before_def location_pair_def)
  next
    case 2
    then show ?thesis
      using zero after
      by (auto simp: passes_filter_def start resolve_filter_def filter_wants_def location_less_before split: option.split)
        (auto simp: before_def location_pair_def)
  next
    case 3
    then show ?thesis
      by (simp add: passes_filter_def start resolve_filter_def filter_wants_def location_less_before)
  next
    case 4
    then show ?thesis
      using range by (simp add: passes_filter_def start resolve_filter_def filter_wants_def location_less_before)
        (simp add: location_pair_def word_le_nat_alt)
  next
    case 5
    then show ?thesis
      using zero by (simp add: passes_filter_def start resolve_filter_def filter_wants_def location_less_before)
  qed
qed

theorem filter_meaning_witness:
  "passes_filter (demo_send\<lparr>ss_start := \<lparr>loc_group = 4, loc_object = 0\<rparr>\<rparr>) 4 0"
proof -
  let ?f = "\<lparr>sf_filter_type = kFilterNextGroupStart, sf_start = \<lparr>loc_group = 0, loc_object = 0\<rparr>, sf_end_group_delta = 0\<rparr>"
  let ?largest = "Some \<lparr>loc_group = 3, loc_object = 9\<rparr>"
  have "filter_fits ?f ?largest" by (simp add: filter_fits_def)
  from filter_meaning [OF this, of "demo_send\<lparr>ss_start := \<lparr>loc_group = 4, loc_object = 0\<rparr>\<rparr>" 4 0] show ?thesis
    by (simp add: resolve_filter_def filter_wants_def location_pair_def demo_send_def)
qed

text \<open>At the largest Object ID the filter for new objects wraps around to the start of the group: an
  object that has been published already passes again.\<close>

theorem largest_filter_wraps:
  "passes_filter (demo_send\<lparr>ss_start := fst (resolve_filter
       \<lparr>sf_filter_type = kFilterLargestObject, sf_start = \<lparr>loc_group = 0, loc_object = 0\<rparr>, sf_end_group_delta = 0\<rparr>
       (Some \<lparr>loc_group = 3, loc_object = u64_max\<rparr>))\<rparr>) 3 0
   \<and> \<not> filter_wants \<lparr>sf_filter_type = kFilterLargestObject, sf_start = \<lparr>loc_group = 0, loc_object = 0\<rparr>, sf_end_group_delta = 0\<rparr>
       (Some \<lparr>loc_group = 3, loc_object = u64_max\<rparr>) \<lparr>loc_group = 3, loc_object = 0\<rparr>"
  by (simp add: resolve_filter_def passes_filter_def location_less_def demo_send_def filter_wants_def location_pair_def before_def)

section \<open>The end of a subscription\<close>

text \<open>MsQuic grants every call and the streams are open.\<close>

definition granted :: "'a transport_scheme \<Rightarrow> bool" where
  "granted w \<longleftrightarrow> (\<forall>n. tp_answer w n)"

lemma send_granted:
  "granted w \<Longrightarrow> has_handle w st \<Longrightarrow>
     send st bytes fin w = (True, emit (StreamSent st bytes fin) (w\<lparr>tp_calls := tp_calls w + 1\<rparr>))"
  by (simp add: send_def quic_call_def granted_def)

lemma granted_simps [simp]:
  "granted (emit e w) = granted w" "granted (w\<lparr>tp_calls := n\<rparr>) = granted w"
  "has_handle (emit e w) = has_handle w" "has_handle (w\<lparr>tp_calls := n\<rparr>) = has_handle w"
  by (simp_all add: granted_def has_handle_def emit_def fun_eq_iff)

lemma granted_plane [simp]:
  "granted (put_track key entry w') = granted w'" "granted (w'\<lparr>sp_subscriptions := m\<rparr>) = granted w'"
  "granted (put_subscription i s w') = granted w'" "has_handle (put_track key entry w') = has_handle w'"
  "has_handle (w'\<lparr>sp_subscriptions := m\<rparr>) = has_handle w'" "has_handle (put_subscription i s w') = has_handle w'"
  "tp_log (put_track key entry w') = tp_log w'" "tp_log (put_subscription i s w') = tp_log w'"
  by (simp_all add: granted_def has_handle_def put_track_def put_subscription_def fun_eq_iff)

lemma end_streams_granted:
  "granted w \<Longrightarrow> \<forall>e\<in>set m. has_handle w (os_stream (snd e)) \<Longrightarrow>
     tp_log (end_streams m None w) = tp_log w @ map (\<lambda>e. FinishedSend (os_stream (snd e))) m
     \<and> granted (end_streams m None w) \<and> has_handle (end_streams m None w) = has_handle w"
proof (induction m arbitrary: w)
  case (Cons x m)
  obtain k s where x: "x = (k, s)" by fastforce
  let ?w = "emit (FinishedSend (os_stream s)) (w\<lparr>tp_calls := tp_calls w + 1\<rparr>)"
  have "snd (finish_send (os_stream s) w) = ?w" using Cons.prems by (simp add: finish_send_def quic_call_def granted_def x)
  with Cons.IH [of ?w] Cons.prems show ?case by (simp add: x) (simp add: emit_def)
qed simp

text \<open>C13: when a subscription ends, its data streams are finished first, in the order of their groups, and
  only then goes PUBLISH_DONE with the number of streams that were opened, as the last message of
  the request stream.\<close>

theorem publish_done_last:
  assumes g: "granted w" and rq: "pb_requests w i = Some rq" "\<not> pq_terminated rq" and s: "sp_subscriptions w i = Some s"
    and open_streams: "\<forall>e\<in>set (ss_streams s). has_handle w (os_stream (snd e))" "has_handle w (pq_stream rq)"
    and bytes: "encode_publish_done code (ss_stream_count s) reason = Inr bytes"
  shows "tp_log (snd (finish i code reason w)) = tp_log w @ map (\<lambda>e. FinishedSend (os_stream (snd e))) (ss_streams s)
      @ [StreamSent (pq_stream rq) bytes True, AbortedReceive (pq_stream rq) PubReset_Cancelled]
    \<and> i \<notin> set (pb_subscriptions (snd (finish i code reason w))) \<and> sp_subscriptions (snd (finish i code reason w)) i = None"
proof -
  note e = end_streams_granted [OF g open_streams(1)]
  obtain n d where d: "detach_subscription i None w = (n, d)" by fastforce
  have n: "n = ss_stream_count s" using s d by (simp add: detach_subscription_def Let_def)
  have d': "d = snd (detach_subscription i None w)" using d by simp
  have log: "tp_log d = tp_log w @ map (\<lambda>e. FinishedSend (os_stream (snd e))) (ss_streams s)" "granted d" "has_handle d (pq_stream rq)"
    using e open_streams(2) unfolding d' detach_eq [OF s] by (auto split: option.splits)
  have sp: "sp_subscriptions d i = None" using detach_subscriptions [of i None w] by (simp add: d')
  note sent = send_granted [OF log(2,3), of bytes True]
  show ?thesis
    using rq bytes log sp sent unfolding n [symmetric]
    by (simp add: finish_def d abort_receive_def mark_terminated_def put_pub_request_def) (simp add: emit_def)
qed

text \<open>A subscription with two open streams, of groups 4 and 5.\<close>

theorem publish_done_last_witness:
  "tp_log (snd (finish 1 PublishDone_TrackEnded ''x'' (pub_serving\<lparr>
       tp_streams := (tp_streams pub_serving)(4 \<mapsto> \<lparr>sc_handle = True, sc_unidirectional = True, sc_id = 14, sc_sink = None\<rparr>,
         5 \<mapsto> \<lparr>sc_handle = True, sc_unidirectional = True, sc_id = 18, sc_sink = None\<rparr>),
       sp_subscriptions := [1 \<mapsto> demo_send\<lparr>ss_stream_count := 2, ss_streams :=
         [((4, 0), \<lparr>os_stream = 4, os_last_object_id = Some 2\<rparr>), ((5, 0), \<lparr>os_stream = 5, os_last_object_id = Some 0\<rparr>)]\<rparr>]\<rparr>))) =
     tp_log pub_serving @ [FinishedSend 4, FinishedSend 5, StreamSent 3 [11, 0, 4, 2, 2, 1, 120] True, AbortedReceive 3 PubReset_Cancelled]"
proof -
  let ?s = "demo_send\<lparr>ss_stream_count := 2, ss_streams :=
    [((4, 0), \<lparr>os_stream = 4, os_last_object_id = Some 2\<rparr>), ((5, 0), \<lparr>os_stream = 5, os_last_object_id = Some 0\<rparr>)]\<rparr>"
  let ?w = "pub_serving\<lparr>
    tp_streams := (tp_streams pub_serving)(4 \<mapsto> \<lparr>sc_handle = True, sc_unidirectional = True, sc_id = 14, sc_sink = None\<rparr>,
      5 \<mapsto> \<lparr>sc_handle = True, sc_unidirectional = True, sc_id = 18, sc_sink = None\<rparr>), sp_subscriptions := [1 \<mapsto> ?s]\<rparr>"
  let ?rq = "\<lparr>pq_namespace = [''a''], pq_name = ''t'', pq_stream = 3, pq_buffer = [], pq_terminated = False\<rparr>"
  have g: "granted ?w" by (simp add: granted_def pub_serving_def pub_ready_def pub_start_def initial_publisher_def)
  have rq: "pb_requests ?w 1 = Some ?rq" "\<not> pq_terminated ?rq" and s: "sp_subscriptions ?w 1 = Some ?s"
    and h: "\<forall>e\<in>set (ss_streams ?s). has_handle ?w (os_stream (snd e))" "has_handle ?w (pq_stream ?rq)"
    by (simp_all add: pub_serving_def has_handle_def)
  have e: "encode_publish_done PublishDone_TrackEnded (ss_stream_count ?s) ''x'' = Inr [11, 0, 4, 2, 2, 1, 120]"
    unfolding demo_send_def by code_simp
  from publish_done_last [OF g rq s h e] show ?thesis by simp
qed

section \<open>The bytes of a published object\<close>

text \<open>The objects a published one is on a subgroup stream: itself, and the marker of a complete group.\<close>

definition sent_objects :: "PublishedObject \<Rightarrow> SubgroupObject list" where
  "sent_objects object =
     \<lparr>sgo_object_id = po_object_id object, sgo_status = po_status object,
      sgo_properties = sent_properties (po_status object) (po_properties object), sgo_payload = po_payload object\<rparr>
     # (if po_end_of_group object \<and> \<not> object_abnormal object
        then [\<lparr>sgo_object_id = po_object_id object + 1, sgo_status = Some kObjectStatusEndOfGroup, sgo_properties = [], sgo_payload = []\<rparr>]
        else [])"

lemma encode_subgroup_object_snoc:
  "encode_subgroup_object bytes delta properties status payload = bytes @ encode_subgroup_object [] delta properties status payload"
  by (simp add: encode_subgroup_object_def Let_def write_varint_snoc [of bytes] write_varint_snoc [of "_ @ _"]
      write_varint_snoc [of "write_varint _ _"])

lemma subgroup_bytes_objects:
  "subgroup_bytes bytes last_id object = bytes @ encode_objects last_id (sent_objects object)"
proof -
  have "object_delta last_id (po_object_id object) = (case last_id of Some l \<Rightarrow> po_object_id object - l - 1 | None \<Rightarrow> po_object_id object)"
    by (simp add: object_delta_def split: option.split)
  moreover have "object_delta (Some (po_object_id object)) (po_object_id object + 1) = 0" by (simp add: object_delta_def)
  ultimately show ?thesis
    unfolding subgroup_bytes_def Let_def sent_objects_def encode_subgroup_object_snoc [of bytes]
      encode_subgroup_object_snoc [of "bytes @ _"]
    by (simp add: encode_object_def)
qed

end
