(* ===== verification/End_To_End.thy ===== *)
theory End_To_End
  imports Publish_Stream
begin

text \<open>
  A publisher and a subscriber together: the objects an application publishes to one subgroup,
  through \<open>Publisher::publish\<close>, the send plane and the encoders, arrive through the gate,
  the receiver and the route of a subscriber at \<open>on_object\<close> of the other application.
\<close>

section \<open>One object on a subgroup stream\<close>

definition same_send :: "SubscriptionSend \<Rightarrow> SubscriptionSend \<Rightarrow> bool" where
  "same_send s s' \<longleftrightarrow> ss_forward s' = ss_forward s \<and> ss_start s' = ss_start s \<and> ss_end_group s' = ss_end_group s \<and> ss_track_alias s' = ss_track_alias s"

text \<open>The publisher after the object was sent on stream \<open>st\<close>.\<close>

definition sent_on ::
  "RequestId \<Rightarrow> SubscriptionSend \<Rightarrow> PublishedObject \<Rightarrow> stream_ref \<Rightarrow> effect list \<Rightarrow> 'a publisher_scheme \<Rightarrow> 'a publisher_scheme \<Rightarrow> bool" where
  "sent_on i s object st effects w w' \<longleftrightarrow>
     tp_log w' = tp_log w @ effects \<and> granted w' \<and> has_handle w' st \<and> se_phase w' = se_phase w \<and> sp_tracks w' = sp_tracks w \<and>
     (\<exists>s'. sp_subscriptions w' i = Some s' \<and> same_send s s' \<and> (\<not> closes_stream object \<longrightarrow>
        map_of (ss_streams s') (po_group_id object, po_subgroup_id object) = Some \<lparr>os_stream = st, os_last_object_id = Some (po_object_id object)\<rparr>))"

lemma sent_on_stream:
  assumes r: "ready_stream send_plane_callbacks i s object w = (Some (s', \<lparr>os_stream = st, os_last_object_id = l\<rparr>, bytes), w1)"
    and w1: "granted w1" "has_handle w1 st" "se_phase w1 = se_phase w" "sp_tracks w1 = sp_tracks w" "tp_log w1 = tp_log w @ effects"
    and s': "same_send s s'"
  shows "sent_on i s object st (effects @ [StreamSent st (bytes @ encode_objects l (sent_objects object)) (closes_stream object)]) w
    (send_on_subgroup_stream send_plane_callbacks i s object w)"
proof -
  note sent = send_granted [OF w1(1,2), of "bytes @ encode_objects l (sent_objects object)" "closes_stream object"]
  let ?w = "w1\<lparr>tp_calls := tp_calls w1 + 1\<rparr>"
  have "send_on_subgroup_stream send_plane_callbacks i s object w =
    put_subscription i (s'\<lparr>ss_streams := (let streams = stream_put (po_group_id object, po_subgroup_id object)
        \<lparr>os_stream = st, os_last_object_id = Some (po_object_id object)\<rparr> (ss_streams s')
      in if closes_stream object then stream_erase (po_group_id object, po_subgroup_id object) streams else streams)\<rparr>)
      (emit (StreamSent st (bytes @ encode_objects l (sent_objects object)) (closes_stream object)) ?w)"
    by (simp add: send_on_subgroup_stream_def r subgroup_bytes_objects sent Let_def)
  then show ?thesis
    using w1 s' by (simp add: sent_on_def Let_def stream_map_lookup) (simp add: put_subscription_def emit_def same_send_def stream_map_lookup)
qed

lemma open_data_stream_granted:
  assumes "granted w"
  obtains w1 where "open_data_stream w = (Some (tp_next_stream w), w1)" "granted w1" "has_handle w1 (tp_next_stream w)"
    "se_phase w1 = se_phase w" "sp_tracks w1 = sp_tracks w" "tp_log w1 = tp_log w @ [StreamOpened (tp_next_stream w) True]"
  using assms by (simp add: open_data_stream_def open_stream_def quic_call_def granted_def new_stream_def Let_def emit_def has_handle_def)

lemma sent_on_first:
  assumes g: "granted w" and new: "map_of (ss_streams s) (po_group_id object, po_subgroup_id object) = None"
  shows "sent_on i s object (tp_next_stream w) [StreamOpened (tp_next_stream w) True,
      StreamSent (tp_next_stream w) (encode_subgroup_header [] (ss_track_alias s) (po_group_id object) (po_subgroup_id object)
        (po_publisher_priority object) @ encode_objects None (sent_objects object)) (closes_stream object)] w
    (send_on_subgroup_stream send_plane_callbacks i s object w)"
proof -
  obtain w1 where w1: "open_data_stream w = (Some (tp_next_stream w), w1)" "granted w1" "has_handle w1 (tp_next_stream w)"
    "se_phase w1 = se_phase w" "sp_tracks w1 = sp_tracks w" "tp_log w1 = tp_log w @ [StreamOpened (tp_next_stream w) True]"
    by (rule open_data_stream_granted [OF g])
  have "ready_stream send_plane_callbacks i s object w = (Some (s\<lparr>ss_stream_count := ss_stream_count s + 1,
      ss_streams := stream_put (po_group_id object, po_subgroup_id object) \<lparr>os_stream = tp_next_stream w, os_last_object_id = None\<rparr> (ss_streams s)\<rparr>,
      \<lparr>os_stream = tp_next_stream w, os_last_object_id = None\<rparr>, encode_subgroup_header [] (ss_track_alias s) (po_group_id object)
        (po_subgroup_id object) (po_publisher_priority object)), w1)"
    using new w1(1) by (simp add: ready_stream_def Let_def send_plane_callbacks_def)
  from sent_on_stream [OF this w1(2-6)] show ?thesis by (simp add: same_send_def)
qed

lemma sent_on_next:
  assumes g: "granted w" "has_handle w st"
    and o: "map_of (ss_streams s) (po_group_id object, po_subgroup_id object) = Some \<lparr>os_stream = st, os_last_object_id = Some l\<rparr>"
    and up: "l < po_object_id object"
  shows "sent_on i s object st [StreamSent st (encode_objects (Some l) (sent_objects object)) (closes_stream object)] w
    (send_on_subgroup_stream send_plane_callbacks i s object w)"
proof -
  have "ready_stream send_plane_callbacks i s object w = (Some (s, \<lparr>os_stream = st, os_last_object_id = Some l\<rparr>, []), w)"
    using o up by (simp add: ready_stream_def Let_def)
  from sent_on_stream [OF this g] show ?thesis by (simp add: same_send_def)
qed

section \<open>One object published\<close>

text \<open>The publisher serves one subscription of the track, which forwards and has no end.\<close>

definition serves :: "publisher \<Rightarrow> RequestId \<Rightarrow> TrackKey \<Rightarrow> SubscriptionSend \<Rightarrow> bool" where
  "serves w i key s \<longleftrightarrow> se_phase w = Ready \<and> granted w \<and> (\<exists>entry. map_of (sp_tracks w) key = Some entry \<and> te_subscriptions entry = [i]) \<and>
     sp_subscriptions w i = Some s \<and> ss_forward s \<and> ss_end_group s = None"

definition in_subgroup :: "TrackKey \<Rightarrow> GroupId \<Rightarrow> SubgroupId \<Rightarrow> byte \<Rightarrow> PublishedObject \<Rightarrow> bool" where
  "in_subgroup key g sg priority object \<longleftrightarrow> (po_namespace object, po_name object) = key \<and> po_group_id object = g \<and>
     po_subgroup_id object = sg \<and> po_publisher_priority object = priority \<and> po_delivery_kind object = SubgroupStream \<and>
     valid_publish_status object \<and> po_status object \<noteq> Some kObjectStatusEndOfTrack"

lemma publish_one:
  assumes w: "serves w i key s" and ob: "in_subgroup key g sg priority object" and pass: "passes_filter s g (po_object_id object)"
    and sent: "\<And>w' :: publisher. granted w' = granted w \<Longrightarrow> has_handle w' = has_handle w \<Longrightarrow> tp_next_stream w' = tp_next_stream w \<Longrightarrow>
      sent_on i s object st effects w' (send_on_subgroup_stream send_plane_callbacks i s object w')"
  shows "\<exists>s'. serves (publisher_step (PubPublish object) w) i key s' \<and> same_send s s' \<and>
    tp_log (publisher_step (PubPublish object) w) = tp_log w @ effects \<and> has_handle (publisher_step (PubPublish object) w) st \<and>
    (\<not> closes_stream object \<longrightarrow> map_of (ss_streams s') (g, sg) = Some \<lparr>os_stream = st, os_last_object_id = Some (po_object_id object)\<rparr>)"
proof -
  obtain entry where entry: "map_of (sp_tracks w) key = Some entry" "te_subscriptions entry = [i]" using w by (auto simp: serves_def)
  let ?location = "\<lparr>loc_group = po_group_id object, loc_object = po_object_id object\<rparr>"
  define entry' where "entry' = (case te_largest entry of None \<Rightarrow> entry\<lparr>te_largest := Some ?location\<rparr>
     | Some l \<Rightarrow> if location_less l ?location then entry\<lparr>te_largest := Some ?location\<rparr> else entry)"
  have entry'_subs: "te_subscriptions entry' = [i]" using entry(2) by (simp add: entry'_def split: option.split)
  let ?w = "put_track key entry' w"
  have key: "(po_namespace object, po_name object) = key" using ob by (simp add: in_subgroup_def)
  have "tp_next_stream ?w = tp_next_stream w" by (simp add: put_track_def)
  note s = sent [OF granted_plane(1) granted_plane(4) this, unfolded sent_on_def]
  obtain s' where s': "sp_subscriptions (send_on_subgroup_stream send_plane_callbacks i s object ?w) i = Some s'" "same_send s s'"
    "\<not> closes_stream object \<longrightarrow> map_of (ss_streams s') (g, sg) = Some \<lparr>os_stream = st, os_last_object_id = Some (po_object_id object)\<rparr>"
    using s ob by (auto simp: in_subgroup_def)
  have f: "sp_subscriptions ?w i = Some s" "se_phase ?w = Ready" using w by (simp_all add: serves_def put_track_def)
  have "publish_round send_plane_callbacks key object i ?w = (NextRound, send_on_subgroup_stream send_plane_callbacks i s object ?w)"
    using w f s' ob pass by (simp add: publish_round_def Let_def serves_def in_subgroup_def same_send_def)
  then have "publisher_step (PubPublish object) w = send_on_subgroup_stream send_plane_callbacks i s object ?w"
    using w ob entry(1) entry'_subs unfolding publisher_step.simps pub_publish_def plane_publish_def Let_def key entry(1) option.case entry'_def [symmetric]
    by (simp add: serves_def in_subgroup_def)
  moreover have "map_of (sp_tracks ?w) key = Some entry'" using entry(1) by (simp add: map_of_put_track)
  ultimately show ?thesis
    using s s' f(2) entry'_subs w by (auto simp: serves_def same_send_def)
qed

section \<open>A subgroup\<close>

text \<open>A complete subgroup: the objects follow each other, and only the last may end the stream.\<close>

definition subgroup_of :: "TrackKey \<Rightarrow> GroupId \<Rightarrow> SubgroupId \<Rightarrow> byte \<Rightarrow> SubscriptionSend \<Rightarrow> PublishedObject list \<Rightarrow> bool" where
  "subgroup_of key g sg priority s obs \<longleftrightarrow>
     (\<forall>ob\<in>set obs. in_subgroup key g sg priority ob \<and> passes_filter s g (po_object_id ob)) \<and>
     (\<forall>ob\<in>set (butlast obs). \<not> closes_stream ob)"

lemma subgroup_of_Cons:
  assumes "subgroup_of key g sg priority s (ob # obs)"
  shows "in_subgroup key g sg priority ob" "passes_filter s g (po_object_id ob)" "subgroup_of key g sg priority s obs"
    "obs \<noteq> [] \<Longrightarrow> \<not> closes_stream ob"
  using assms by (auto simp: subgroup_of_def split: if_splits)

lemma subgroup_of_same: "same_send s s' \<Longrightarrow> subgroup_of key g sg priority s obs = subgroup_of key g sg priority s' obs"
  by (simp add: subgroup_of_def same_send_def passes_filter_def)

lemma same_send_trans: "same_send a b \<Longrightarrow> same_send b c \<Longrightarrow> same_send a c"
  by (simp add: same_send_def)

text \<open>What does not close the stream is one object on it.\<close>

lemma sent_objects_single:
  "\<not> closes_stream ob \<Longrightarrow> \<exists>x. sent_objects ob = [x] \<and> sgo_object_id x = po_object_id ob \<and> \<not> final_status x"
  by (auto simp: closes_stream_def sent_objects_def final_status_def object_abnormal_def split: option.splits)

lemma sent_objects_hd: "\<exists>x xs. sent_objects ob = x # xs \<and> sgo_object_id x = po_object_id ob"
  by (simp add: sent_objects_def)

lemma publish_rest:
  assumes "serves w i key s" "has_handle w st" "map_of (ss_streams s) (g, sg) = Some \<lparr>os_stream = st, os_last_object_id = Some l\<rparr>"
    "subgroup_of key g sg priority s obs" "ascending (Some l) (concat (map sent_objects obs))"
  shows "\<exists>chunks. tp_log (publisher_run (map PubPublish obs) w) = tp_log w @ map (\<lambda>(b, f). StreamSent st b f) chunks \<and>
    concat (map fst chunks) = encode_objects (Some l) (concat (map sent_objects obs))"
  using assms
proof (induction obs arbitrary: w s l)
  case Nil
  show ?case by (rule exI [of _ "[]"]) simp
next
  case (Cons ob obs)
  note c = subgroup_of_Cons [OF Cons.prems(4)]
  let ?w = "publisher_step (PubPublish ob) w"
  let ?e = "StreamSent st (encode_objects (Some l) (sent_objects ob)) (closes_stream ob)"
  obtain x xs where x: "sent_objects ob = x # xs" "sgo_object_id x = po_object_id ob" using sent_objects_hd by blast
  have up: "l < po_object_id ob" using Cons.prems(5) x by simp
  have key: "(po_group_id ob, po_subgroup_id ob) = (g, sg)" using c(1) by (simp add: in_subgroup_def)
  have granted: "granted w" using Cons.prems(1) by (simp add: serves_def)
  have "sent_on i s ob st [?e] w' (send_on_subgroup_stream send_plane_callbacks i s ob w')"
    if "granted w' = granted w" "has_handle w' = has_handle w" for w' :: publisher
    using that granted Cons.prems(2,3) up key by (intro sent_on_next) simp_all
  from publish_one [OF Cons.prems(1) c(1,2) this]
  obtain s' where s': "serves ?w i key s'" "same_send s s'" "tp_log ?w = tp_log w @ [?e]" "has_handle ?w st"
    "\<not> closes_stream ob \<longrightarrow> map_of (ss_streams s') (g, sg) = Some \<lparr>os_stream = st, os_last_object_id = Some (po_object_id ob)\<rparr>"
    by blast
  show ?case
  proof (cases "obs = []")
    case True
    then show ?thesis using s'(3) by (intro exI [of _ "[(encode_objects (Some l) (sent_objects ob), closes_stream ob)]"]) simp
  next
    case False
    obtain y where y: "sent_objects ob = [y]" "sgo_object_id y = po_object_id ob" using sent_objects_single c(4) False by blast
    have "ascending (Some (po_object_id ob)) (concat (map sent_objects obs))" using Cons.prems(5) y by simp
    moreover have "subgroup_of key g sg priority s' obs" using c(3) subgroup_of_same [OF s'(2)] by simp
    ultimately obtain chunks where "tp_log (publisher_run (map PubPublish obs) ?w) = tp_log ?w @ map (\<lambda>(b, f). StreamSent st b f) chunks"
      "concat (map fst chunks) = encode_objects (Some (po_object_id ob)) (concat (map sent_objects obs))"
      using Cons.IH [OF s'(1,4)] s'(5) c(4) False by blast
    then show ?thesis
      using s'(3) y by (intro exI [of _ "(encode_objects (Some l) (sent_objects ob), closes_stream ob) # chunks"]) simp
  qed
qed

lemma publish_subgroup:
  assumes w: "serves w i key s" and new: "map_of (ss_streams s) (g, sg) = None"
    and obs: "subgroup_of key g sg priority s obs" "ascending None (concat (map sent_objects obs))" "obs \<noteq> []"
  shows "\<exists>chunks. tp_log (publisher_run (map PubPublish obs) w) =
      tp_log w @ StreamOpened (tp_next_stream w) True # map (\<lambda>(b, f). StreamSent (tp_next_stream w) b f) chunks \<and>
    concat (map fst chunks) = encode_subgroup_header [] (ss_track_alias s) g sg priority @ encode_objects None (concat (map sent_objects obs))"
proof -
  obtain ob rest where o: "obs = ob # rest" using obs(3) by (cases obs) auto
  note c = subgroup_of_Cons [OF obs(1) [unfolded o]]
  let ?st = "tp_next_stream w"
  let ?b = "encode_subgroup_header [] (ss_track_alias s) g sg priority @ encode_objects None (sent_objects ob)"
  let ?e = "[StreamOpened ?st True, StreamSent ?st ?b (closes_stream ob)]"
  let ?w = "publisher_step (PubPublish ob) w"
  have f: "po_group_id ob = g" "po_subgroup_id ob = sg" "po_publisher_priority ob = priority" using c(1) by (simp_all add: in_subgroup_def)
  have granted: "granted w" using w by (simp add: serves_def)
  have "sent_on i s ob ?st ?e w' (send_on_subgroup_stream send_plane_callbacks i s ob w')"
    if "granted w' = granted w" "tp_next_stream w' = tp_next_stream w" for w' :: publisher
    using sent_on_first [of w' s ob i] that granted new f by simp
  from publish_one [OF w c(1,2) this]
  obtain s' where s': "serves ?w i key s'" "same_send s s'" "tp_log ?w = tp_log w @ ?e" "has_handle ?w ?st"
    "\<not> closes_stream ob \<longrightarrow> map_of (ss_streams s') (g, sg) = Some \<lparr>os_stream = ?st, os_last_object_id = Some (po_object_id ob)\<rparr>"
    by blast
  show ?thesis
  proof (cases "rest = []")
    case True
    then show ?thesis using s'(3) by (intro exI [of _ "[(?b, closes_stream ob)]"]) (simp add: o)
  next
    case False
    obtain y where y: "sent_objects ob = [y]" "sgo_object_id y = po_object_id ob" using sent_objects_single c(4) False by blast
    have "ascending (Some (po_object_id ob)) (concat (map sent_objects rest))" using obs(2) y by (simp add: o)
    moreover have "subgroup_of key g sg priority s' rest" using c(3) subgroup_of_same [OF s'(2)] by simp
    ultimately obtain chunks where "tp_log (publisher_run (map PubPublish rest) ?w) = tp_log ?w @ map (\<lambda>(b, f). StreamSent ?st b f) chunks"
      "concat (map fst chunks) = encode_objects (Some (po_object_id ob)) (concat (map sent_objects rest))"
      using publish_rest [OF s'(1,4)] s'(5) c(4) False by blast
    then show ?thesis using s'(3) y by (intro exI [of _ "(?b, closes_stream ob) # chunks"]) (simp add: o)
  qed
qed

lemma final_only_last:
  "\<forall>ob\<in>set (butlast obs). \<not> closes_stream ob \<Longrightarrow> \<forall>x\<in>set (butlast (concat (map sent_objects obs))). \<not> final_status x"
proof (induction obs)
  case (Cons ob obs)
  show ?case
  proof (cases "obs = []")
    case True
    then show ?thesis by (auto simp: sent_objects_def final_status_def object_abnormal_def split: if_splits option.splits)
  next
    case False
    then obtain x where "sent_objects ob = [x]" "\<not> final_status x" using Cons.prems sent_objects_single [of ob] by auto
    moreover have "concat (map sent_objects obs) \<noteq> []" using False by (cases obs) (simp_all add: sent_objects_def)
    ultimately show ?thesis using Cons False by simp
  qed
qed simp

lemma published_delivered:
  assumes w: "serves w i key s" and new: "map_of (ss_streams s) (g, sg) = None"
    and obs: "subgroup_of key g sg priority s obs" "ascending None (concat (map sent_objects obs))" "obs \<noteq> []"
    and v: "dp_routes_by_alias v (ss_track_alias s) = Some ref" "dp_heap v ref = Some route" "open_route g route"
      "sb_app v = (\<lambda>_. [])" "tp_streams v st = Some c"
  shows "\<exists>chunks. tp_log (publisher_run (map PubPublish obs) w) =
      tp_log w @ StreamOpened (tp_next_stream w) True # map (\<lambda>(b, f). StreamSent (tp_next_stream w) b f) chunks
    \<and> tp_log (start_subgroup_stream callbacks st (concat (map fst chunks)) fin v) = tp_log v @ map (\<lambda>ob.
        OnObject (stream_object (rr_request_id route) (ss_track_alias s) g sg priority (sc_id c) (on_the_wire ob)))
          (concat (map sent_objects obs))"
proof -
  obtain chunks where "tp_log (publisher_run (map PubPublish obs) w) =
      tp_log w @ StreamOpened (tp_next_stream w) True # map (\<lambda>(b, f). StreamSent (tp_next_stream w) b f) chunks"
    and bytes: "concat (map fst chunks) = encode_subgroup_header [] (ss_track_alias s) g sg priority @ encode_objects None (concat (map sent_objects obs))"
    using publish_subgroup [OF w new obs] by blast
  moreover have "\<forall>x\<in>set (butlast (concat (map sent_objects obs))). \<not> final_status x"
    using obs(1) by (intro final_only_last) (simp add: subgroup_of_def)
  note subscriber_gets = stream_delivered [OF v(1-4) obs(2) this v(5)]
  ultimately show ?thesis using subscriber_gets [of sg priority fin] unfolding bytes [symmetric] by blast
qed

text \<open>C6: what one application publishes to a subgroup arrives at the other: the publisher opens one
  stream and sends its objects on it, and the subscriber that is fed these bytes gives its
  application the published objects one by one, in order, with the marker of a complete group when
  the publisher asked for it.\<close>

theorem publisher_to_subscriber:
  assumes w: "serves w i key s" and new: "map_of (ss_streams s) (g, sg) = None"
    and obs: "subgroup_of key g sg priority s obs" "ascending None (concat (map sent_objects obs))" "obs \<noteq> []"
    and v: "dp_routes_by_alias v (ss_track_alias s) = Some ref" "dp_heap v ref = Some route" "open_route g route"
      "sb_app v = (\<lambda>_. [])" "tp_streams v st = Some c"
  shows "\<exists>chunks. tp_log (publisher_run (map PubPublish obs) w) =
      tp_log w @ StreamOpened (tp_next_stream w) True # map (\<lambda>(b, f). StreamSent (tp_next_stream w) b f) chunks
    \<and> tp_log (start_subgroup_stream callbacks st (concat (map fst chunks)) fin v) = tp_log v @ map (\<lambda>ob.
        OnObject (stream_object (rr_request_id route) (ss_track_alias s) g sg priority (sc_id c) (on_the_wire ob)))
          (concat (map sent_objects obs))"
  by (rule published_delivered [OF assms])

definition demo_published :: "ObjectId \<Rightarrow> ByteBuffer \<Rightarrow> bool \<Rightarrow> PublishedObject" where
  "demo_published ob payload complete =
     \<lparr>po_namespace = [''a''], po_name = ''t'', po_group_id = 4, po_subgroup_id = 0, po_object_id = ob, po_publisher_priority = 128,
      po_properties = [], po_payload = payload, po_status = None, po_delivery_kind = SubgroupStream, po_end_of_subgroup = False,
      po_end_of_group = complete\<rparr>"

theorem publisher_to_subscriber_witness:
  "\<exists>chunks. tp_log (publisher_run (map PubPublish [demo_published 0 [7] False, demo_published 3 [8] True]) pub_serving) =
      tp_log pub_serving @ StreamOpened 4 True # map (\<lambda>(b, f). StreamSent 4 b f) chunks
    \<and> tp_log (start_subgroup_stream callbacks 1 (concat (map fst chunks)) True
        (demo_established\<lparr>dp_routes_by_alias := [0 \<mapsto> 0], sb_app := \<lambda>_. []\<rparr>)) = tp_log demo_established @ map (\<lambda>ob.
          OnObject (stream_object 0 0 4 0 128 3 (on_the_wire ob)))
            [\<lparr>sgo_object_id = 0, sgo_status = None, sgo_properties = [], sgo_payload = [7]\<rparr>,
             \<lparr>sgo_object_id = 3, sgo_status = None, sgo_properties = [], sgo_payload = [8]\<rparr>,
             \<lparr>sgo_object_id = 4, sgo_status = Some kObjectStatusEndOfGroup, sgo_properties = [], sgo_payload = []\<rparr>]"
proof -
  let ?v = "demo_established\<lparr>dp_routes_by_alias := [0 \<mapsto> 0], sb_app := \<lambda>_. []\<rparr>"
  let ?obs = "[demo_published 0 [7] False, demo_published 3 [8] True]"
  let ?route = "\<lparr>rr_request_id = 0, rr_active = True, rr_final_object_in_group = Map.empty, rr_final_object_in_track = None\<rparr>"
  have w: "serves pub_serving 1 ([''a''], ''t'') demo_send"
    by (simp add: serves_def granted_def pub_serving_def pub_ready_def pub_start_def initial_publisher_def demo_entry_def demo_send_def)
  have new: "map_of (ss_streams demo_send) (4, 0) = None" and next_st: "tp_next_stream pub_serving = 4"
    by (simp_all add: demo_send_def pub_serving_def)
  have sent: "concat (map sent_objects ?obs) =
      [\<lparr>sgo_object_id = 0, sgo_status = None, sgo_properties = [], sgo_payload = [7]\<rparr>,
       \<lparr>sgo_object_id = 3, sgo_status = None, sgo_properties = [], sgo_payload = [8]\<rparr>,
       \<lparr>sgo_object_id = 4, sgo_status = Some kObjectStatusEndOfGroup, sgo_properties = [], sgo_payload = []\<rparr>]"
    by (simp add: sent_objects_def demo_published_def sent_properties_def object_abnormal_def)
  have obs: "subgroup_of ([''a''], ''t'') 4 0 128 demo_send ?obs" "ascending None (concat (map sent_objects ?obs))" "?obs \<noteq> []"
    unfolding sent
    by (simp_all add: subgroup_of_def in_subgroup_def demo_published_def valid_publish_status_def passes_filter_def location_less_def
        demo_send_def closes_stream_def object_abnormal_def object_ok_def object_fields_ok_def is_valid_object_status_def)
  have v: "dp_routes_by_alias ?v (ss_track_alias demo_send) = Some 0" "dp_heap ?v 0 = Some ?route" "open_route 4 ?route" "sb_app ?v = (\<lambda>_. [])"
    "tp_streams ?v 1 = Some \<lparr>sc_handle = True, sc_unidirectional = True, sc_id = 3, sc_sink = Some PeerStreamGateSink\<rparr>"
    by (simp_all add: demo_send_def open_route_def demo_established_def demo_pending_def demo_ready_def)
  have "ss_track_alias demo_send = 0" "tp_log ?v = tp_log demo_established" by (simp_all add: demo_send_def)
  with publisher_to_subscriber [OF w new obs v, of True] show ?thesis unfolding sent next_st by simp
qed

end
