(* ===== verification/Publisher_Errors.thy ===== *)
theory Publisher_Errors
  imports End_To_End
begin

text \<open>
  What a publisher answers to requests it cannot serve, and the corners of the send side where
  the code does something else than its documentation says.
\<close>

section \<open>Requests that are refused\<close>

text \<open>C25: a SUBSCRIBE under a Request ID that has been used, or with the parity of the client, closes the
  session with \<open>InvalidRequestId\<close>.\<close>

theorem bad_request_id_closes:
  assumes r: "pub_reachable w" and ready: "se_phase w = Ready" and d: "decode_subscribe payload = Inr sb"
    and bad: "sub_request_id sb \<in> pb_peer_request_ids w \<or> sub_request_id sb AND 1 = 0"
  shows "\<exists>text. se_close_reason (snd (accept_subscribe payload st leftover fin w)) = Some (Close_InvalidRequestId, text)
    \<and> se_phase (snd (accept_subscribe payload st leftover fin w)) = Closing
    \<and> sp_subscriptions (snd (accept_subscribe payload st leftover fin w)) = Map.empty"
proof -
  obtain e where c: "consume_peer_request_id (sub_request_id sb) w = (Some e, w)"
    using bad by (cases "sub_request_id sb AND 1 = 0") (simp_all add: consume_peer_request_id_def)
  let ?w = "begin_close pub_terminate_subscriptions Close_InvalidRequestId e w"
  have a: "snd (accept_subscribe payload st leftover fin w) = ?w" using d c by (simp add: accept_subscribe_def)
  have inv: "pub_inv w" "session_wf w" using pub_reachable_ok [OF r] by simp_all
  have open_phase: "se_phase w < Closing" using ready by (simp add: phase_order)
  have closing: "se_phase ?w = Closing" using begin_close_closing [OF _ open_phase] inv(1) by (simp add: pub_inv_def)
  have "pub_inv ?w" by (rule pub_inv_begin_close [OF inv(1)])
  then have "send_inv {} ?w" "pb_subscriptions ?w = []" using closing by (simp_all add: pub_inv_def pub_live_def)
  then have "sp_subscriptions ?w i = None" for i using send_invD(1) [of "{}" ?w i] by (cases "sp_subscriptions ?w i") auto
  then show ?thesis
    using a closing pub_closing.begin_close_reason [OF inv(2) open_phase, of Close_InvalidRequestId e] by (auto simp: fun_eq_iff)
qed

theorem bad_request_id_closes_witness:
  "\<exists>text. se_close_reason (snd (accept_subscribe [1, 1, 1, 97, 1, 116, 0] 5 [] False pub_serving)) = Some (Close_InvalidRequestId, text)"
proof -
  have "se_phase pub_serving = Ready" "1 \<in> pb_peer_request_ids pub_serving" by (simp_all add: pub_serving_def pub_ready_def)
  with bad_request_id_closes [OF pub_serving_reachable _ demo_peer_subscribe(2), of 5 "[]" False] show ?thesis by auto
qed

text \<open>C26: a SUBSCRIBE beyond the configured number is refused with \<open>ExcessiveLoad\<close> on its own
  stream; all that is left of it is its Request ID.\<close>

theorem subscription_limit_refused:
  assumes g: "granted w" "has_handle w st" and d: "decode_subscribe payload = Inr sb"
    and c: "consume_peer_request_id (sub_request_id sb) w = (None, w1)"
    and o: "decode_subscription_options (sub_parameters sb) no_options = Inr options"
    and ns: "\<not> reserved_namespace (sub_namespace sb)" and full: "pb_max_subscriptions w \<le> length (pb_subscriptions w)"
  shows "\<exists>bytes. encode_request_error RequestError_ExcessiveLoad ''subscription limit reached'' 0 = Inr bytes
    \<and> accept_subscribe payload st leftover fin w = (None, w\<lparr>pb_peer_request_ids := insert (sub_request_id sb) (pb_peer_request_ids w),
        tp_calls := tp_calls w + 1, tp_log := tp_log w @ [StreamSent st bytes True, AbortedReceive st PubReset_Cancelled]\<rparr>)"
proof -
  obtain bytes where bytes: "encode_request_error RequestError_ExcessiveLoad ''subscription limit reached'' 0 = Inr bytes"
    using encode_reason_ok(1) [of "''subscription limit reached''" RequestError_ExcessiveLoad 0] by auto
  have w1: "w1 = w\<lparr>pb_peer_request_ids := insert (sub_request_id sb) (pb_peer_request_ids w)\<rparr>"
    using c by (auto simp: consume_peer_request_id_def split: if_splits)
  have g1: "granted w1" "has_handle w1 st" using g by (simp_all add: w1 granted_def has_handle_def)
  have "accept_subscribe payload st leftover fin w = reject_subscribe st RequestError_ExcessiveLoad ''subscription limit reached'' w1"
    using d c o ns full by (simp add: accept_subscribe_def w1)
  also have "\<dots> = (None, abort_receive st PubReset_Cancelled (emit (StreamSent st bytes True) (w1\<lparr>tp_calls := tp_calls w1 + 1\<rparr>)))"
    using bytes send_granted [OF g1, of bytes True] by (simp add: reject_subscribe_def)
  finally show ?thesis using bytes g1(2) by (simp add: abort_receive_def) (simp add: emit_def w1)
qed

lemma demo_second_subscribe:
  "decode_subscribe [3, 1, 1, 97, 1, 116, 0] = Inr \<lparr>sub_request_id = 3, sub_namespace = [''a''], sub_name = ''t'', sub_parameters = []\<rparr>"
  by code_simp

theorem subscription_limit_refused_witness:
  "\<exists>bytes. encode_request_error RequestError_ExcessiveLoad ''subscription limit reached'' 0 = Inr bytes
    \<and> tp_log (snd (accept_subscribe [3, 1, 1, 97, 1, 116, 0] 3 [] False (pub_serving\<lparr>pb_max_subscriptions := 1\<rparr>))) =
        tp_log pub_serving @ [StreamSent 3 bytes True, AbortedReceive 3 PubReset_Cancelled]
    \<and> pb_subscriptions (snd (accept_subscribe [3, 1, 1, 97, 1, 116, 0] 3 [] False (pub_serving\<lparr>pb_max_subscriptions := 1\<rparr>))) = [1]"
proof -
  let ?w = "pub_serving\<lparr>pb_max_subscriptions := 1\<rparr>"
  have g: "granted ?w" "has_handle ?w 3"
    by (simp_all add: granted_def has_handle_def pub_serving_def pub_ready_def pub_start_def initial_publisher_def)
  have c: "consume_peer_request_id (sub_request_id \<lparr>sub_request_id = 3, sub_namespace = [''a''], sub_name = ''t'', sub_parameters = []\<rparr>) ?w
      = (None, ?w\<lparr>pb_peer_request_ids := {3, 1}\<rparr>)"
    by (simp add: consume_peer_request_id_def pub_serving_def)
  have "decode_subscription_options (sub_parameters \<lparr>sub_request_id = 3, sub_namespace = [''a''], sub_name = ''t'', sub_parameters = []\<rparr>) no_options = Inr no_options"
    using demo_peer_subscribe(3) by simp
  moreover have "pb_max_subscriptions ?w \<le> length (pb_subscriptions ?w)" "pb_subscriptions pub_serving = [1]" by (simp_all add: pub_serving_def)
  ultimately show ?thesis
    using subscription_limit_refused [OF g demo_second_subscribe c, of no_options "[]" False] by (auto simp: reserved_namespace_def)
qed

section \<open>Corners of the send side\<close>

text \<open>When MsQuic refuses the data stream for an object, the session closes and erases the subscription
  while \<open>publish\<close> is still working on it: the reference it holds dangles.\<close>

theorem open_failure_reads_erased:
  "DanglingRead 1 \<in> set (tp_log (publisher_step (PubPublish (demo_published 0 [7] False)) (pub_serving\<lparr>tp_answer := \<lambda>n. n < 7\<rparr>)))"
  by (simp add: pub_publish_def plane_publish_def publish_round_def send_on_subgroup_stream_def ready_stream_def
      send_plane_callbacks_def open_data_stream_def open_stream_def quic_call_def begin_close_def fail_ready_waiters_def
      pub_terminate_subscriptions_def cancel_def detach_subscription_def abort_send_def abort_receive_def has_handle_def
      mark_terminated_def put_pub_request_def put_track_def shutdown_def emit_def passes_filter_def location_less_def phase_order
      valid_publish_status_def demo_published_def demo_send_def demo_entry_def pub_serving_def pub_ready_def pub_start_def
      initial_publisher_def Let_def)

text \<open>Two different namespaces have the same text, under which announcements are kept: the second is
  never announced.\<close>

lemma namespaces_share_text:
  "[''a/b''] \<noteq> [''a'', ''b'']" "namespace_text [''a/b''] = namespace_text [''a'', ''b'']"
  "pb_announced_namespaces w (namespace_text [''a/b'']) = Some st \<Longrightarrow> announce_namespace [''a'', ''b''] w = w"
  by (simp_all add: namespace_text_def announce_namespace_def Let_def)

text \<open>The end of a group is not announced by a datagram without payload.\<close>

lemma empty_datagram_loses_end_of_group:
  "po_payload object = [] \<Longrightarrow> po_status object = None \<Longrightarrow>
     send_datagram_object cb s (object\<lparr>po_end_of_group := True\<rparr>) w = send_datagram_object cb s (object\<lparr>po_end_of_group := False\<rparr>) w"
  by (simp add: send_datagram_object_def encode_object_datagram_def datagram_type_def Let_def)

text \<open>An object with the explicit status Normal is accepted with a payload, which is not sent.\<close>

lemma normal_status_drops_payload:
  "po_status object = Some kObjectStatusNormal \<Longrightarrow> valid_publish_status object
     \<and> subgroup_bytes bytes last_id object = subgroup_bytes bytes last_id (object\<lparr>po_payload := []\<rparr>)"
  by (simp add: valid_publish_status_def subgroup_bytes_def Let_def encode_subgroup_object_def object_abnormal_def
      split: option.split)

end
