(* ===== verification/Snapshots.thy ===== *)
theory Snapshots
  imports Subscriber_Properties Publisher_Properties
begin

text \<open>
  What an application sees of a session: the snapshots of \<open>Session::state\<close> and
  \<open>Subscriber::subscription_state\<close>.
\<close>

section \<open>Snapshots\<close>

record SessionStateSnapshot =
  snap_phase :: SessionPhase
  snap_local_setup_sent :: bool
  snap_peer_setup_received :: bool
  snap_negotiated_version :: "string option"
  snap_active_subscriptions :: nat
  snap_close_reason :: "(u64 \<times> string) option"

definition session_state :: "('a session_scheme \<Rightarrow> nat) \<Rightarrow> 'a session_scheme \<Rightarrow> SessionStateSnapshot" where
  "session_state active_subscriptions w =
     \<lparr>snap_phase = se_phase w, snap_local_setup_sent = se_local_setup_sent w, snap_peer_setup_received = se_peer_setup_received w,
      snap_negotiated_version = se_negotiated_version w, snap_active_subscriptions = active_subscriptions w,
      snap_close_reason = se_close_reason w\<rparr>"

definition active_subscriptions :: "'a subscriber_scheme \<Rightarrow> nat" where
  "active_subscriptions w = length (sb_subscriptions w)"

definition pub_active_subscriptions :: "'a publisher_scheme \<Rightarrow> nat" where
  "pub_active_subscriptions w = length (pb_subscriptions w)"

record SubscriptionStateSnapshot =
  snap_subscription_phase :: SubscriptionPhase
  snap_request_id :: RequestId
  snap_track_alias :: "TrackAlias option"
  snap_inflight_updates :: nat

definition subscription_state :: "RequestId \<Rightarrow> 'a subscriber_scheme \<Rightarrow> SubscriptionStateSnapshot" where
  "subscription_state request_id w =
     (case (if request_id \<in> set (sb_subscriptions w) then sb_requests w request_id else None) of
        None \<Rightarrow> \<lparr>snap_subscription_phase = Sub_Terminated, snap_request_id = request_id, snap_track_alias = None, snap_inflight_updates = 0\<rparr>
      | Some rq \<Rightarrow> \<lparr>snap_subscription_phase = rq_phase rq, snap_request_id = request_id, snap_track_alias = rq_track_alias rq,
          snap_inflight_updates = length (rq_updates rq)\<rparr>)"

section \<open>What they show\<close>

text \<open>A session that is closing counts no subscription.\<close>

lemma closing_counts_none:
  "sub_reachable w \<Longrightarrow> se_phase w = Closing \<Longrightarrow> snap_active_subscriptions (session_state active_subscriptions w) = 0"
  "pub_reachable v \<Longrightarrow> se_phase v = Closing \<Longrightarrow> snap_active_subscriptions (session_state pub_active_subscriptions v) = 0"
  using closing_quiet(1) [of w] pub_reachable_parts(4) [of v]
  by (simp_all add: session_state_def active_subscriptions_def pub_active_subscriptions_def)

text \<open>A publisher never counts more than it was configured for.\<close>

lemma publisher_count_bounded:
  "pub_reachable w \<Longrightarrow> snap_active_subscriptions (session_state pub_active_subscriptions w) \<le> pb_max_subscriptions w"
  using pub_reachable_parts(1) [of w] by (simp add: session_state_def pub_active_subscriptions_def pub_requests_inv_def)

end
