(* ===== verification/Adapter_Lifetime.thy ===== *)
theory Adapter_Lifetime
  imports Adapter
begin

text \<open>
  The rest of \<^verbatim>\<open>src/msquic_transport_adapter.cpp\<close>: the constructor, \<open>start\<close>
  with the resolution of the remote address, and the destructor. MsQuic and
  \<^verbatim>\<open>getaddrinfo\<close> are parameters: \<open>quic c\<close> is the status of the call \<open>c\<close> when
  it fails, and \<open>getaddrinfo host service\<close> the text of an error or the list of addresses. The calls that
  succeed are recorded in their order.
\<close>

section \<open>Status texts\<close>

datatype QUIC_STATUS =
    QUIC_STATUS_BAD_CERTIFICATE
  | QUIC_STATUS_UNSUPPORTED_CERTIFICATE
  | QUIC_STATUS_REVOKED_CERTIFICATE
  | QUIC_STATUS_EXPIRED_CERTIFICATE
  | QUIC_STATUS_UNKNOWN_CERTIFICATE
  | QUIC_STATUS_REQUIRED_CERTIFICATE
  | OtherStatus u64

text \<open>\<open>QuicStatusToString\<close> of the MsQuic helper is an argument.\<close>

definition quic_status_string :: "(QUIC_STATUS \<Rightarrow> string) \<Rightarrow> QUIC_STATUS \<Rightarrow> string" where
  "quic_status_string QuicStatusToString status =
     (case status of
        QUIC_STATUS_BAD_CERTIFICATE \<Rightarrow> ''BAD_CERTIFICATE''
      | QUIC_STATUS_UNSUPPORTED_CERTIFICATE \<Rightarrow> ''UNSUPPORTED_CERTIFICATE''
      | QUIC_STATUS_REVOKED_CERTIFICATE \<Rightarrow> ''REVOKED_CERTIFICATE''
      | QUIC_STATUS_EXPIRED_CERTIFICATE \<Rightarrow> ''EXPIRED_CERTIFICATE''
      | QUIC_STATUS_UNKNOWN_CERTIFICATE \<Rightarrow> ''UNKNOWN_CERTIFICATE''
      | QUIC_STATUS_REQUIRED_CERTIFICATE \<Rightarrow> ''REQUIRED_CERTIFICATE''
      | _ \<Rightarrow> QuicStatusToString status)"

section \<open>Calls into MsQuic\<close>

record QUIC_SETTINGS =
  IdleTimeoutMs :: u64
  PeerBidiStreamCount :: nat
  PeerUnidiStreamCount :: nat
  DatagramReceiveEnabled :: bool

datatype native_call =
    MsQuicOpen2
  | RegistrationOpen
  | ConfigurationOpen string QUIC_SETTINGS
  | ConfigurationLoadCredential bool
  | ConnectionOpen
  | SetRemoteAddress ByteBuffer
  | ConnectionStart string u16
  | StreamClose stream_ref
  | ConnectionClose
  | ConfigurationClose
  | RegistrationClose
  | MsQuicClose

text \<open>The handles of the adapter that are not null, and the calls made.\<close>

record adapter =
  ad_config :: MsQuicClientConfig
  ad_api :: bool
  ad_registration :: bool
  ad_configuration :: bool
  ad_connection :: bool
  ad_calls :: "native_call list"

type_synonym native = "(native_call \<Rightarrow> QUIC_STATUS option) \<times> (QUIC_STATUS \<Rightarrow> string)"

text \<open>A call under \<open>throw_if_failed\<close>; \<open>upd\<close> stores the handle it returns.\<close>

definition throw_if_failed ::
  "native \<Rightarrow> native_call \<Rightarrow> string \<Rightarrow> (adapter \<Rightarrow> adapter) \<Rightarrow> adapter \<Rightarrow> exn option \<times> adapter" where
  "throw_if_failed quic c what upd ad =
     (case fst quic c of
        Some status \<Rightarrow> (Some (runtime_error (what @ '' failed: '' @ quic_status_string (snd quic) status)), ad)
      | None \<Rightarrow> (None, upd (ad\<lparr>ad_calls := ad_calls ad @ [c]\<rparr>)))"

text \<open>Statements in sequence, up to the first that throws.\<close>

fun in_sequence :: "('s \<Rightarrow> exn option \<times> 's) list \<Rightarrow> 's \<Rightarrow> exn option \<times> 's" where
  "in_sequence [] s = (None, s)"
| "in_sequence (f # fs) s = (case f s of (Some e, s) \<Rightarrow> (Some e, s) | (None, s) \<Rightarrow> in_sequence fs s)"

definition adapter_settings :: "MsQuicClientConfig \<Rightarrow> QUIC_SETTINGS" where
  "adapter_settings config =
     \<lparr>IdleTimeoutMs = word_of_int (cfg_idle_timeout config), PeerBidiStreamCount = 128, PeerUnidiStreamCount = 1024,
      DatagramReceiveEnabled = True\<rparr>"

definition MsQuicTransportAdapter :: "native \<Rightarrow> MsQuicClientConfig \<Rightarrow> exn option \<times> adapter" where
  "MsQuicTransportAdapter quic config =
     in_sequence
       [throw_if_failed quic MsQuicOpen2 ''MsQuicOpen2'' (ad_api_update (\<lambda>_. True)),
        throw_if_failed quic RegistrationOpen ''RegistrationOpen'' (ad_registration_update (\<lambda>_. True)),
        throw_if_failed quic (ConfigurationOpen kAlpn (adapter_settings config)) ''ConfigurationOpen'' (ad_configuration_update (\<lambda>_. True)),
        throw_if_failed quic (ConfigurationLoadCredential (cfg_disable_certificate_validation config)) ''ConfigurationLoadCredential'' (\<lambda>ad. ad),
        throw_if_failed quic ConnectionOpen ''ConnectionOpen'' (ad_connection_update (\<lambda>_. True))]
       \<lparr>ad_config = config, ad_api = False, ad_registration = False, ad_configuration = False, ad_connection = False, ad_calls = []\<rparr>"

section \<open>The remote address\<close>

datatype address_family = AF_INET | AF_INET6 | AF_OTHER

record addrinfo =
  ai_family :: address_family
  ai_addr :: ByteBuffer

text \<open>The loop over the addresses; \<open>size\<close> is \<^verbatim>\<open>sizeof(QUIC_ADDR)\<close>. The copy fills the front of a zeroed address.\<close>

fun first_address :: "nat \<Rightarrow> addrinfo list \<Rightarrow> ByteBuffer option" where
  "first_address sz [] = None"
| "first_address sz (address # addresses) =
     (if ai_family address \<noteq> AF_INET \<and> ai_family address \<noteq> AF_INET6 \<or> sz < length (ai_addr address)
      then first_address sz addresses
      else Some (ai_addr address @ replicate (sz - length (ai_addr address)) 0))"

definition resolve_remote_address ::
  "(string \<Rightarrow> string \<Rightarrow> string + addrinfo list) \<Rightarrow> nat \<Rightarrow> string \<Rightarrow> u16 \<Rightarrow> exn + ByteBuffer" where
  "resolve_remote_address getaddrinfo sz host port =
     (case getaddrinfo host (to_string (unat port)) of
        Inl message \<Rightarrow> Inl (runtime_error (''failed to resolve remote host '' @ host @ '': '' @ message))
      | Inr addresses \<Rightarrow>
          (case first_address sz addresses of
             None \<Rightarrow> Inl (runtime_error (''remote host did not resolve to an IPv4 or IPv6 address: '' @ host))
           | Some remote \<Rightarrow> Inr remote))"

definition adapter_start ::
  "native \<Rightarrow> (string \<Rightarrow> string \<Rightarrow> string + addrinfo list) \<Rightarrow> nat \<Rightarrow> adapter \<Rightarrow> exn option \<times> adapter" where
  "adapter_start quic getaddrinfo sz ad =
     (let config = ad_config ad;
          server_name = (if cfg_server_name config = [] then cfg_host config else cfg_server_name config);
          connect = throw_if_failed quic (ConnectionStart server_name (cfg_port config)) ''ConnectionStart'' (\<lambda>ad. ad)
      in if cfg_server_name config \<noteq> [] then
           (case resolve_remote_address getaddrinfo sz (cfg_host config) (cfg_port config) of
              Inl e \<Rightarrow> (Some e, ad)
            | Inr remote \<Rightarrow>
                in_sequence [throw_if_failed quic (SetRemoteAddress remote) ''SetParam(QUIC_PARAM_CONN_REMOTE_ADDRESS)'' (\<lambda>ad. ad), connect] ad)
         else connect ad)"

section \<open>The destructor\<close>

text \<open>
  \<open>StreamClose\<close> may run the callback for \<^verbatim>\<open>SHUTDOWN_COMPLETE\<close> before it returns: \<open>inline st\<close> says
  for which streams it does. The handle is cleared only afterwards, so the callback still finds it. The sinks of the
  session and its \<open>transport_error\<close> are those of the callback.
\<close>

definition clear_handle :: "stream_ref \<Rightarrow> 'a transport_scheme \<Rightarrow> 'a transport_scheme" where
  "clear_handle st w = w\<lparr>tp_streams := (tp_streams w)(st := map_option (\<lambda>c. c\<lparr>sc_handle := False\<rparr>) (tp_streams w st))\<rparr>"

definition close_stream ::
  "('a session_scheme) sink_handlers \<Rightarrow> (string \<Rightarrow> 'a session_scheme \<Rightarrow> 'a session_scheme) \<Rightarrow> (stream_ref \<Rightarrow> bool)
     \<Rightarrow> stream_ref \<Rightarrow> 'a session_scheme \<Rightarrow> 'a session_scheme" where
  "close_stream h on_transport_error inline st w =
     (if has_handle w st then
        let w = emit (StreamClosed st) w;
            w = (if inline st then stream_callback h on_transport_error st StreamShutdownComplete w else w)
        in clear_handle st w
      else w)"

text \<open>\<open>streams_\<close> is swapped out first, so \<open>remove_stream\<close> of the callback finds nothing.\<close>

definition destroy_streams ::
  "('a session_scheme) sink_handlers \<Rightarrow> (string \<Rightarrow> 'a session_scheme \<Rightarrow> 'a session_scheme) \<Rightarrow> (stream_ref \<Rightarrow> bool)
     \<Rightarrow> 'a session_scheme \<Rightarrow> 'a session_scheme" where
  "destroy_streams h on_transport_error inline w =
     fold (close_stream h on_transport_error inline) (tp_registered w) (w\<lparr>tp_registered := []\<rparr>)"

definition release :: "bool \<Rightarrow> native_call \<Rightarrow> adapter \<Rightarrow> adapter" where
  "release held c ad = (if held then ad\<lparr>ad_calls := ad_calls ad @ [c]\<rparr> else ad)"

definition destroy_handles :: "adapter \<Rightarrow> adapter" where
  "destroy_handles ad =
     release (ad_api ad) MsQuicClose
       (release (ad_registration ad) RegistrationClose
         (release (ad_configuration ad) ConfigurationClose
           (release (ad_connection ad) ConnectionClose ad)))"

section \<open>What the lifetime keeps\<close>

text \<open>The calls that open a handle and those that close it.\<close>

fun closes_with :: "native_call \<Rightarrow> native_call option" where
  "closes_with MsQuicOpen2 = Some MsQuicClose"
| "closes_with RegistrationOpen = Some RegistrationClose"
| "closes_with (ConfigurationOpen _ _) = Some ConfigurationClose"
| "closes_with ConnectionOpen = Some ConnectionClose"
| "closes_with _ = None"

definition to_close :: "adapter \<Rightarrow> native_call list" where
  "to_close ad = List.map_filter closes_with (ad_calls ad)"

text \<open>The handles that are set are those the recorded calls opened.\<close>

definition handles_inv :: "adapter \<Rightarrow> bool" where
  "handles_inv ad \<longleftrightarrow> to_close ad =
     [c. (held, c) \<leftarrow> [(ad_api ad, MsQuicClose), (ad_registration ad, RegistrationClose),
        (ad_configuration ad, ConfigurationClose), (ad_connection ad, ConnectionClose)], held]"

lemma throw_if_failed_cases:
  obtains (failed) status where "fst quic c = Some status"
      "throw_if_failed quic c what upd ad = (Some (runtime_error (what @ '' failed: '' @ quic_status_string (snd quic) status)), ad)"
  | (ok) "fst quic c = None" "throw_if_failed quic c what upd ad = (None, upd (ad\<lparr>ad_calls := ad_calls ad @ [c]\<rparr>))"
  by (cases "fst quic c") (simp_all add: throw_if_failed_def)

lemma constructor_calls:
  "snd (MsQuicTransportAdapter quic config) = \<lparr>ad_config = config, ad_api = 1 \<le> n, ad_registration = 2 \<le> n, ad_configuration = 3 \<le> n, ad_connection = 5 \<le> n,
      ad_calls = take n [MsQuicOpen2, RegistrationOpen, ConfigurationOpen kAlpn (adapter_settings config),
        ConfigurationLoadCredential (cfg_disable_certificate_validation config), ConnectionOpen]\<rparr>
   \<and> (fst (MsQuicTransportAdapter quic config) = None \<longleftrightarrow> 5 \<le> n)"
  if "n = length (takeWhile (\<lambda>c. fst quic c = None) [MsQuicOpen2, RegistrationOpen, ConfigurationOpen kAlpn (adapter_settings config),
        ConfigurationLoadCredential (cfg_disable_certificate_validation config), ConnectionOpen])"
  unfolding that by (simp add: MsQuicTransportAdapter_def throw_if_failed_def split: option.split)

lemma constructor_handles: "handles_inv (snd (MsQuicTransportAdapter quic config))"
  using constructor_calls [OF refl, of quic config]
  by (simp add: handles_inv_def to_close_def MsQuicTransportAdapter_def throw_if_failed_def map_filter_simps split: option.split)

lemma start_keeps_handles:
  "ad_api (snd (adapter_start quic getaddrinfo sz ad)) = ad_api ad"
  "ad_registration (snd (adapter_start quic getaddrinfo sz ad)) = ad_registration ad"
  "ad_configuration (snd (adapter_start quic getaddrinfo sz ad)) = ad_configuration ad"
  "ad_connection (snd (adapter_start quic getaddrinfo sz ad)) = ad_connection ad"
  "to_close (snd (adapter_start quic getaddrinfo sz ad)) = to_close ad"
  "ad_config (snd (adapter_start quic getaddrinfo sz ad)) = ad_config ad"
  by (simp_all add: adapter_start_def throw_if_failed_def to_close_def List.map_filter_def Let_def split: option.split sum.split)

lemma start_handles: "handles_inv ad \<Longrightarrow> handles_inv (snd (adapter_start quic getaddrinfo sz ad))"
  by (simp only: handles_inv_def start_keeps_handles)

lemma destroy_handles_calls:
  assumes "handles_inv ad"
  shows "ad_calls (destroy_handles ad) = ad_calls ad @ rev (to_close ad)"
  using assms by (simp add: handles_inv_def destroy_handles_def release_def)

section \<open>The streams\<close>

text \<open>The calls of \<open>StreamClose\<close>, in their order.\<close>

definition stream_closes :: "'a transport_scheme \<Rightarrow> stream_ref list" where
  "stream_closes w = List.map_filter (\<lambda>e. case e of StreamClosed st \<Rightarrow> Some st | _ \<Rightarrow> None) (tp_log w)"

lemma stream_closes_emit [simp]:
  "stream_closes (emit e w) = stream_closes w @ (case e of StreamClosed st \<Rightarrow> [st] | _ \<Rightarrow> [])"
  by (simp add: stream_closes_def emit_def List.map_filter_def split: effect.split)

text \<open>What the destructor relies on: the sinks do not close streams when theirs is closed.\<close>

locale quiet_sinks =
  fixes h :: "('a session_scheme) sink_handlers"
  assumes closed_handles: "has_handle (on_sink_closed h k st w) = has_handle w"
    and closed_closes: "stream_closes (on_sink_closed h k st w) = stream_closes w"
begin

lemma close_stream_closes:
  "stream_closes (close_stream h on_error inline st w) =
     stream_closes w @ (if has_handle w st then if inline st then [st, st] else [st] else [])"
  "has_handle (close_stream h on_error inline st w) st' \<longleftrightarrow> has_handle w st' \<and> st' \<noteq> st"
proof -
  have upd: "stream_closes (clear_handle st v) = stream_closes v" "stream_closes (set_sink st k v) = stream_closes v"
    "stream_closes (remove_stream st v) = stream_closes v" "has_handle (remove_stream st v) = has_handle v"
    "has_handle (set_sink st k v) = has_handle v" "has_handle (clear_handle st v) st' \<longleftrightarrow> has_handle v st' \<and> st' \<noteq> st"
    "has_handle (emit e v) = has_handle v" "close_handle st v = emit (StreamClosed st) (clear_handle st v)"
    for k e and v :: "'a session_scheme"
    by (auto simp: stream_closes_def clear_handle_def set_sink_def remove_stream_def has_handle_def emit_def close_handle_def
        fun_eq_iff split: option.splits)
  show "stream_closes (close_stream h on_error inline st w) =
      stream_closes w @ (if has_handle w st then if inline st then [st, st] else [st] else [])"
    by (simp add: close_stream_def stream_callback_def Let_def upd closed_closes split: option.split)
  show "has_handle (close_stream h on_error inline st w) st' \<longleftrightarrow> has_handle w st' \<and> st' \<noteq> st"
    by (auto simp: close_stream_def stream_callback_def Let_def upd closed_handles split: option.splits)
qed

lemma close_streams_closes:
  "distinct sts \<Longrightarrow> stream_closes (fold (close_stream h on_error inline) sts w) =
     stream_closes w @ concat (map (\<lambda>st. if inline st then [st, st] else [st]) (filter (has_handle w) sts))"
  "has_handle (fold (close_stream h on_error inline) sts w) st' \<longleftrightarrow> has_handle w st' \<and> st' \<notin> set sts"
proof (induction sts arbitrary: w)
  case (Cons st sts)
  {
    case 1
    then have "filter (has_handle (close_stream h on_error inline st w)) sts = filter (has_handle w) sts"
      by (intro filter_cong) (auto simp: close_stream_closes)
    then show ?case using Cons(1) [of "close_stream h on_error inline st w"] 1 by (simp add: close_stream_closes(1))
  next
    case 2 show ?case using Cons(2) by (auto simp: close_stream_closes)
  }
qed simp_all

lemma destroy_streams_closes:
  assumes "distinct (tp_registered w)"
  shows "stream_closes (destroy_streams h on_error inline w) =
      stream_closes w @ concat (map (\<lambda>st. if inline st then [st, st] else [st]) (filter (has_handle w) (tp_registered w)))"
    "has_handle (destroy_streams h on_error inline w) st \<longleftrightarrow> has_handle w st \<and> st \<notin> set (tp_registered w)"
proof -
  have same: "has_handle (w\<lparr>tp_registered := []\<rparr>) = has_handle w" "stream_closes (w\<lparr>tp_registered := []\<rparr>) = stream_closes w"
    by (simp_all add: has_handle_def stream_closes_def fun_eq_iff)
  show "stream_closes (destroy_streams h on_error inline w) =
      stream_closes w @ concat (map (\<lambda>st. if inline st then [st, st] else [st]) (filter (has_handle w) (tp_registered w)))"
    "has_handle (destroy_streams h on_error inline w) st \<longleftrightarrow> has_handle w st \<and> st \<notin> set (tp_registered w)"
    using close_streams_closes [where sts = "tp_registered w" and w = "w\<lparr>tp_registered := []\<rparr>"] assms
    by (simp_all add: destroy_streams_def same)
qed

end

text \<open>An exception out of the constructor leaves what was opened before: the destructor does not run.\<close>

lemma constructor_leaks:
  "MsQuicTransportAdapter ((\<lambda>c. if c = RegistrationOpen then Some (OtherStatus 1) else None), \<lambda>_. ''FAILED'') config =
     (Some (runtime_error ''RegistrationOpen failed: FAILED''), \<lparr>ad_config = config, ad_api = True, ad_registration = False,
        ad_configuration = False, ad_connection = False, ad_calls = [MsQuicOpen2]\<rparr>)"
  by (simp add: MsQuicTransportAdapter_def throw_if_failed_def quic_status_string_def)

text \<open>The address that is used is the first of a known family that fits, filled up with zeros.\<close>

lemma first_address_first:
  "first_address sz addresses = map_option (\<lambda>a. ai_addr a @ replicate (sz - length (ai_addr a)) 0)
     (List.find (\<lambda>a. ai_family a \<noteq> AF_OTHER \<and> length (ai_addr a) \<le> sz) addresses)"
proof (induction addresses)
  case (Cons a addresses)
  then show ?case by (cases "ai_family a") (simp_all add: not_le)
qed simp

end
