(* ===== verification/Connect.thy ===== *)
theory Connect
  imports Adapter_Lifetime Publisher_Properties Subscriber_Properties
begin

text \<open>
  From nothing to a session and back: \<open>Publisher::connect\<close> and \<open>Subscriber::connect\<close>, which construct a
  session and run \<open>Session::start\<close> of \<^verbatim>\<open>src/session.cpp\<close>, and the destructors, which close the
  session and destroy its adapter. The parameters are those of \<open>Adapter_Lifetime\<close>; the session callbacks that
  \<open>Session::start\<close> installs are the steps of \<open>Publisher\<close> and \<open>Subscriber\<close>.
\<close>

section \<open>Definitions\<close>

text \<open>The end of \<open>Session::start\<close>: the exception, if any, whether \<open>transport_\<close> has been set, and the adapter.\<close>

definition session_start ::
  "native \<Rightarrow> (string \<Rightarrow> string \<Rightarrow> string + addrinfo list) \<Rightarrow> nat \<Rightarrow> MsQuicClientConfig \<Rightarrow> exn option \<times> bool \<times> adapter" where
  "session_start quic getaddrinfo sz config =
     (case MsQuicTransportAdapter quic config of
        (Some e, ad) \<Rightarrow> (Some e, False, ad)
      | (None, ad) \<Rightarrow> (case adapter_start quic getaddrinfo sz ad of (e, ad) \<Rightarrow> (e, True, ad)))"

text \<open>
  The wait of \<open>~MsQuicTransportAdapter\<close>: \<open>completed\<close> is the time until \<^verbatim>\<open>SHUTDOWN_COMPLETE\<close> arrives, in
  the unit of \<open>idle_timeout\<close>, with the flag it carries, if it ever does. \<open>destructor_wait\<close> is how long the wait
  lasts and \<open>shutdown_awaited\<close> the flag, when the event is handled meanwhile. A negative timeout is one that has passed.
\<close>

definition destructor_wait :: "bool \<Rightarrow> int \<Rightarrow> (nat \<times> bool) option \<Rightarrow> nat" where
  "destructor_wait shutdown_requested idle_timeout completed =
     (if shutdown_requested
      then case completed of None \<Rightarrow> nat idle_timeout | Some (t, _) \<Rightarrow> min t (nat idle_timeout)
      else 0)"

definition shutdown_awaited :: "bool \<Rightarrow> int \<Rightarrow> (nat \<times> bool) option \<Rightarrow> bool option" where
  "shutdown_awaited shutdown_requested idle_timeout completed =
     (case completed of
        None \<Rightarrow> None
      | Some (t, handshake_completed) \<Rightarrow>
          if shutdown_requested \<and> t \<le> nat idle_timeout then Some handshake_completed else None)"

text \<open>
  \<open>~Publisher\<close> and \<open>~Subscriber\<close>: \<open>close_and_wait\<close>, whose \<open>transport.reset()\<close> destroys the adapter. The
  callback \<open>shutdown_complete\<close> of the session runs during the wait.
\<close>

definition session_destroy ::
  "(string \<Rightarrow> 'a session_scheme \<Rightarrow> 'a session_scheme) \<Rightarrow> ('a session_scheme) sink_handlers \<Rightarrow> (stream_ref \<Rightarrow> bool)
     \<Rightarrow> (nat \<times> bool) option \<Rightarrow> 'a session_scheme \<times> adapter \<Rightarrow> 'a session_scheme \<times> adapter" where
  "session_destroy on_terminate h inline completed s =
     (case s of (w, ad) \<Rightarrow>
        let alive = tp_alive w;
            w = close_and_wait on_terminate w
        in if alive then
             let w = (case shutdown_awaited (tp_shutdown_requested w) (cfg_idle_timeout (ad_config ad)) completed of
                        None \<Rightarrow> w | Some handshake_completed \<Rightarrow> shutdown_complete handshake_completed w)
             in (destroy_streams h (transport_error on_terminate) inline w, destroy_handles ad)
           else (w, ad))"

text \<open>An exception out of \<open>start\<close> destroys the session on its way out of \<open>connect\<close>.\<close>

definition session_connect ::
  "(string \<Rightarrow> 'a session_scheme \<Rightarrow> 'a session_scheme) \<Rightarrow> ('a session_scheme) sink_handlers \<Rightarrow> native
     \<Rightarrow> (string \<Rightarrow> string \<Rightarrow> string + addrinfo list) \<Rightarrow> nat \<Rightarrow> (stream_ref \<Rightarrow> bool) \<Rightarrow> (nat \<times> bool) option
     \<Rightarrow> 'a session_scheme \<Rightarrow> (exn \<times> 'a session_scheme \<times> adapter) + ('a session_scheme \<times> adapter)" where
  "session_connect on_terminate h quic getaddrinfo sz inline completed w =
     (case session_start quic getaddrinfo sz (se_config w) of
        (None, made, ad) \<Rightarrow> Inr (w\<lparr>tp_alive := made\<rparr>, ad)
      | (Some e, made, ad) \<Rightarrow> Inl (e, session_destroy on_terminate h inline completed (w\<lparr>tp_alive := made\<rparr>, ad)))"

definition pub_connect ::
  "native \<Rightarrow> (string \<Rightarrow> string \<Rightarrow> string + addrinfo list) \<Rightarrow> nat \<Rightarrow> (stream_ref \<Rightarrow> bool) \<Rightarrow> (nat \<times> bool) option
     \<Rightarrow> (nat \<Rightarrow> bool) \<Rightarrow> (nat \<Rightarrow> string) \<Rightarrow> MsQuicClientConfig \<Rightarrow> nat \<Rightarrow> (exn \<times> publisher \<times> adapter) + (publisher \<times> adapter)" where
  "pub_connect quic getaddrinfo sz inline completed answer status config max_subscriptions =
     session_connect pub_terminate_subscriptions pub_sinks quic getaddrinfo sz inline completed
       ((initial_publisher answer status config max_subscriptions)\<lparr>tp_alive := False\<rparr>)"

definition sub_connect ::
  "native \<Rightarrow> (string \<Rightarrow> string \<Rightarrow> string + addrinfo list) \<Rightarrow> nat \<Rightarrow> (stream_ref \<Rightarrow> bool) \<Rightarrow> (nat \<times> bool) option
     \<Rightarrow> (nat \<Rightarrow> bool) \<Rightarrow> (nat \<Rightarrow> string) \<Rightarrow> MsQuicClientConfig \<Rightarrow> SubscriberConfig \<Rightarrow> (Object \<Rightarrow> app_call list)
     \<Rightarrow> (exn \<times> subscriber \<times> adapter) + (subscriber \<times> adapter)" where
  "sub_connect quic getaddrinfo sz inline completed answer status config sub_config app =
     session_connect terminate_subscriptions sub_sinks quic getaddrinfo sz inline completed
       ((initial_subscriber answer status config sub_config app)\<lparr>tp_alive := False\<rparr>)"

section \<open>What connecting leaves\<close>

lemma destructor_wait_bounded: "destructor_wait requested idle_timeout completed \<le> nat idle_timeout"
  by (auto simp: destructor_wait_def split: option.split)

lemma destructor_waits_for_shutdown:
  "shutdown_awaited requested idle_timeout completed = Some hs \<Longrightarrow>
     completed = Some (destructor_wait requested idle_timeout completed, hs)"
  by (auto simp: destructor_wait_def shutdown_awaited_def split: option.splits if_splits)

definition all_closed :: "native_call list" where
  "all_closed = [ConnectionClose, ConfigurationClose, RegistrationClose, MsQuicClose]"

lemma session_start_handles:
  assumes "session_start quic getaddrinfo sz config = (e, made, ad)"
  shows "made \<longleftrightarrow> fst (MsQuicTransportAdapter quic config) = None" "e = None \<Longrightarrow> made"
    "made \<Longrightarrow> handles_inv ad \<and> to_close ad = rev all_closed" "made \<Longrightarrow> ad_config ad = config" "\<not> made \<Longrightarrow> ad = snd (MsQuicTransportAdapter quic config)"
proof -
  let ?ad = "snd (MsQuicTransportAdapter quic config)"
  have full: "to_close ?ad = rev all_closed" if "fst (MsQuicTransportAdapter quic config) = None"
    using constructor_calls [OF refl, of quic config] that by (simp add: to_close_def map_filter_simps all_closed_def)
  show "made \<longleftrightarrow> fst (MsQuicTransportAdapter quic config) = None" "e = None \<Longrightarrow> made"
    "\<not> made \<Longrightarrow> ad = snd (MsQuicTransportAdapter quic config)"
    using assms by (auto simp: session_start_def split: prod.splits option.splits)
  assume made
  then have "ad = snd (adapter_start quic getaddrinfo sz ?ad)" "fst (MsQuicTransportAdapter quic config) = None"
    using assms by (auto simp: session_start_def split: prod.splits option.splits)
  moreover have "ad_config ?ad = config" using constructor_calls [OF refl, of quic config] by simp
  ultimately show "handles_inv ad \<and> to_close ad = rev all_closed" "ad_config ad = config"
    using full start_handles [OF constructor_handles] by (simp_all add: start_keeps_handles)
qed

text \<open>A session started with a server name connects under that name to the address of its host.\<close>

lemma session_start_server_name:
  assumes "cfg_server_name config \<noteq> []" "session_start quic getaddrinfo sz config = (None, made, ad)"
  shows "\<exists>addresses a. getaddrinfo (cfg_host config) (to_string (unat (cfg_port config))) = Inr addresses
    \<and> first_address sz addresses = Some a \<and> last (ad_calls ad) = ConnectionStart (cfg_server_name config) (cfg_port config)
    \<and> SetRemoteAddress a \<in> set (ad_calls ad)"
proof -
  obtain ad0 where made: "MsQuicTransportAdapter quic config = (None, ad0)" "adapter_start quic getaddrinfo sz ad0 = (None, ad)"
    using assms(2) by (auto simp: session_start_def split: prod.splits option.splits)
  have "ad_config ad0 = config" using constructor_calls [OF refl, of quic config] made(1) by simp
  then show ?thesis
    using made(2) assms(1)
    by (auto simp: adapter_start_def resolve_remote_address_def throw_if_failed_def Let_def split: sum.splits option.splits)
qed

text \<open>The session when \<open>start\<close> fails: it is closing, nothing was sent, and the adapter is gone.\<close>

lemma session_connect_cases:
  assumes fresh: "se_phase w = Init" "tp_log w = []" "tp_registered w = []" "se_ready_waiters w = []"
    and idle: "\<And>reason v. v = w\<lparr>se_phase := Closing, tp_alive := tp_alive v, se_close_reason := se_close_reason v\<rparr> \<Longrightarrow> on_terminate reason v = v"
  shows "(case session_connect on_terminate h quic getaddrinfo sz inline completed w of
      Inr (v, ad) \<Rightarrow> v = w\<lparr>tp_alive := True\<rparr> \<and> to_close ad = rev all_closed
    | Inl (e, v, ad) \<Rightarrow> \<not> tp_alive v
        \<and> se_phase v = (if shutdown_awaited (fst (MsQuicTransportAdapter quic (se_config w)) = None)
            (cfg_idle_timeout (se_config w)) completed = None then Closing else Closed)
        \<and> (if fst (MsQuicTransportAdapter quic (se_config w)) = None
           then tp_log v = [ConnectionShutdown Close_NoError] \<and> (\<exists>opened. ad_calls ad = opened @ all_closed
                  \<and> List.map_filter closes_with opened = rev all_closed)
           else tp_log v = [] \<and> ad = snd (MsQuicTransportAdapter quic (se_config w))))"
proof -
  obtain e made ad where s: "session_start quic getaddrinfo sz (se_config w) = (e, made, ad)"
    by (metis prod_cases3)
  note h = session_start_handles [OF s]
  show ?thesis
  proof (cases e)
    case None
    then show ?thesis using s h by (simp add: session_connect_def)
  next
    case (Some x)
    define v where "v = close_and_wait on_terminate (w\<lparr>tp_alive := made\<rparr>)"
    have v: "se_phase v = Closing" "\<not> tp_alive v" "tp_log v = (if made then [ConnectionShutdown Close_NoError] else [])"
      "tp_registered v = []" "se_ready_waiters v = []" "made \<Longrightarrow> tp_shutdown_requested v"
      using fresh by (simp_all add: v_def close_and_wait_def begin_close_def Let_def idle fail_ready_waiters_def shutdown_def emit_def
          less_eq_SessionPhase_def)
    define u where "u = (case shutdown_awaited (tp_shutdown_requested v) (cfg_idle_timeout (ad_config ad)) completed of
      None \<Rightarrow> v | Some hs \<Rightarrow> shutdown_complete hs v)"
    have u: "\<not> tp_alive u" "tp_log u = tp_log v" "tp_registered u = []"
      "se_phase u = (if shutdown_awaited (tp_shutdown_requested v) (cfg_idle_timeout (ad_config ad)) completed = None then Closing else Closed)"
      using v by (auto simp: u_def shutdown_complete_def fail_ready_waiters_def Let_def split: option.split)
    have d: "destroy_streams h (transport_error on_terminate) inline u = u" using u(3) by (simp add: destroy_streams_def)
    have "ad_calls (destroy_handles ad) = ad_calls ad @ all_closed \<and> List.map_filter closes_with (ad_calls ad) = rev all_closed"
      if made using h(3) [OF that] destroy_handles_calls [of ad] by (auto simp: to_close_def)
    moreover have "shutdown_awaited False t completed = None" for t by (simp add: shutdown_awaited_def split: option.split)
    moreover have "session_connect on_terminate h quic getaddrinfo sz inline completed w =
        Inl (x, if made then (u, destroy_handles ad) else (v, ad))"
    proof -
      have m: "tp_alive (w\<lparr>tp_alive := made\<rparr>) = made" by simp
      show ?thesis
        by (simp only: session_connect_def session_destroy_def Let_def s Some prod.case option.case m v_def [symmetric]
            u_def [symmetric] d)
    qed
    ultimately show ?thesis using h u v by (auto simp: h(4))
  qed
qed

text \<open>C28: \<open>Publisher::connect\<close> either returns a session in its initial state with every handle of its adapter
  open, or throws; when the constructor of the adapter had succeeded the connection has then been shut down and
  every handle closed once, in the reverse order; the session is closed when its shutdown completed within the idle
  timeout, and closing otherwise.\<close>

theorem connect_all_or_nothing:
  "case pub_connect quic getaddrinfo sz inline completed answer status config max_subscriptions of
     Inr (w, ad) \<Rightarrow> w = initial_publisher answer status config max_subscriptions \<and> pub_reachable w \<and> to_close ad = rev all_closed
   | Inl (e, w, ad) \<Rightarrow> \<not> tp_alive w
       \<and> se_phase w = (if shutdown_awaited (fst (MsQuicTransportAdapter quic config) = None) (cfg_idle_timeout config) completed = None
           then Closing else Closed)
       \<and> (if fst (MsQuicTransportAdapter quic config) = None
          then tp_log w = [ConnectionShutdown Close_NoError] \<and> (\<exists>opened. ad_calls ad = opened @ all_closed
                 \<and> List.map_filter closes_with opened = rev all_closed)
          else tp_log w = [] \<and> ad = snd (MsQuicTransportAdapter quic config))"
proof -
  let ?w = "(initial_publisher answer status config max_subscriptions)\<lparr>tp_alive := False\<rparr>"
  have w: "se_phase ?w = Init" "tp_log ?w = []" "tp_registered ?w = []" "se_ready_waiters ?w = []" "se_config ?w = config"
    "pb_subscriptions ?w = []" "?w\<lparr>tp_alive := True\<rparr> = initial_publisher answer status config max_subscriptions"
    by (simp_all add: initial_publisher_def)
  have "pub_terminate_subscriptions reason v = v"
    if "v = ?w\<lparr>se_phase := Closing, tp_alive := tp_alive v, se_close_reason := se_close_reason v\<rparr>" for reason v
    using arg_cong [OF that, of pb_subscriptions] w(6) by (simp add: pub_terminate_subscriptions_def)
  note outcome = session_connect_cases [where on_terminate = pub_terminate_subscriptions and h = pub_sinks, OF w(1-4) this,
      where quic = quic and getaddrinfo = getaddrinfo and sz = sz and inline = inline and completed = completed,
      folded pub_connect_def, unfolded w(5,7)]
  show ?thesis
  proof (cases "pub_connect quic getaddrinfo sz inline completed answer status config max_subscriptions")
    case (Inl p)
    from outcome show ?thesis unfolding Inl sum.case .
  next
    case (Inr p)
    with outcome show ?thesis by (cases p) (simp add: pub_reachable.pub_start)
  qed
qed

text \<open>The same of \<open>Subscriber::connect\<close>.\<close>

lemma sub_connect_all_or_nothing:
  "case sub_connect quic getaddrinfo sz inline completed answer status config sub_config app of
     Inr (w, ad) \<Rightarrow> w = initial_subscriber answer status config sub_config app \<and> to_close ad = rev all_closed
   | Inl (e, w, ad) \<Rightarrow> \<not> tp_alive w
       \<and> se_phase w = (if shutdown_awaited (fst (MsQuicTransportAdapter quic config) = None) (cfg_idle_timeout config) completed = None
           then Closing else Closed)
       \<and> (if fst (MsQuicTransportAdapter quic config) = None
          then tp_log w = [ConnectionShutdown Close_NoError] \<and> (\<exists>opened. ad_calls ad = opened @ all_closed
                 \<and> List.map_filter closes_with opened = rev all_closed)
          else tp_log w = [] \<and> ad = snd (MsQuicTransportAdapter quic config))"
proof -
  let ?w = "(initial_subscriber answer status config sub_config app)\<lparr>tp_alive := False\<rparr>"
  have w: "se_phase ?w = Init" "tp_log ?w = []" "tp_registered ?w = []" "se_ready_waiters ?w = []" "se_config ?w = config"
    "sb_subscriptions ?w = []" "?w\<lparr>tp_alive := True\<rparr> = initial_subscriber answer status config sub_config app"
    by (simp_all add: initial_subscriber_def)
  have "terminate_subscriptions reason v = v"
    if "v = ?w\<lparr>se_phase := Closing, tp_alive := tp_alive v, se_close_reason := se_close_reason v\<rparr>" for reason v
    using arg_cong [OF that, of sb_subscriptions] w(6) by (simp add: terminate_subscriptions_def)
  note outcome = session_connect_cases [where on_terminate = terminate_subscriptions and h = sub_sinks, OF w(1-4) this,
      where quic = quic and getaddrinfo = getaddrinfo and sz = sz and inline = inline and completed = completed,
      folded sub_connect_def, unfolded w(5,7)]
  then show ?thesis by (simp only:)
qed

section \<open>What the destructor releases\<close>

text \<open>The sinks of both roles only end their requests when their stream is closed.\<close>

definition keeps_streams :: "'a transport_scheme \<Rightarrow> 'a transport_scheme \<Rightarrow> bool" where
  "keeps_streams w w' \<longleftrightarrow> has_handle w' = has_handle w \<and> stream_closes w' = stream_closes w"

lemma keeps_streams_trans: "keeps_streams a b \<Longrightarrow> keeps_streams b c \<Longrightarrow> keeps_streams a c"
  by (simp add: keeps_streams_def)

lemma keeps_streams_same: "tp_streams w' = tp_streams w \<Longrightarrow> tp_log w' = tp_log w \<Longrightarrow> keeps_streams w w'"
  by (simp add: keeps_streams_def has_handle_def stream_closes_def fun_eq_iff)

lemma keeps_streams_emit: "(\<And>st. e \<noteq> StreamClosed st) \<Longrightarrow> keeps_streams w (emit e w)"
  by (cases e) (auto simp: keeps_streams_def has_handle_def fun_eq_iff, simp_all add: emit_def)

lemma keeps_streams_abort: "keeps_streams w (abort_send st code w)" "keeps_streams w (abort_receive st code w)"
  by (auto simp: abort_send_def abort_receive_def intro: keeps_streams_emit keeps_streams_same)

lemma keeps_streams_detach: "keeps_streams w (snd (detach_subscription i (Some code) w))"
proof -
  have e: "keeps_streams v (end_streams m (Some code) v)" for m and v :: "'a sender_scheme"
  proof (induction m arbitrary: v)
    case (Cons x m)
    show ?case using keeps_streams_trans [OF keeps_streams_abort(1) Cons.IH] by (cases x) simp
  qed (simp add: keeps_streams_same)
  show ?thesis
  proof (cases "sp_subscriptions w i")
    case None
    then show ?thesis by (simp add: detach_subscription_def keeps_streams_same)
  next
    case (Some s)
    let ?v = "end_streams (ss_streams s) (Some code) w"
    have "keeps_streams ?v (snd (detach_subscription i (Some code) w))"
      using Some by (intro keeps_streams_same) (simp_all add: detach_subscription_def Let_def put_track_def split: option.split)
    then show ?thesis by (rule keeps_streams_trans [OF e])
  qed
qed

interpretation pub_quiet: quiet_sinks "pub_sinks :: ('a publisher_scheme) sink_handlers"
proof -
  have c: "keeps_streams w (cancel i code w)" for i code and w :: "'a publisher_scheme"
  proof -
    have m: "keeps_streams v (mark_terminated i rq v)" for rq and v :: "'a publisher_scheme"
      by (simp add: keeps_streams_same mark_terminated_def put_pub_request_def)
    note step = keeps_streams_trans [OF keeps_streams_detach keeps_streams_trans [OF keeps_streams_abort(1)
          keeps_streams_trans [OF keeps_streams_abort(2) m]]]
    show ?thesis by (simp add: cancel_def keeps_streams_same step split: option.split)
  qed
  have "keeps_streams w (on_sink_closed pub_sinks k st w)" for k st and w :: "'a publisher_scheme"
    using c by (cases k) (simp_all add: pub_sinks_def keeps_streams_same)
  then show "quiet_sinks (pub_sinks :: ('a publisher_scheme) sink_handlers)" by unfold_locales (simp_all add: keeps_streams_def)
qed

interpretation sub_quiet: quiet_sinks "sub_sinks :: ('a subscriber_scheme) sink_handlers"
proof -
  have t: "keeps_streams w (terminate i reason w)" for i reason and w :: "'a subscriber_scheme"
    by (auto simp: keeps_streams_def has_handle_def fun_eq_iff)
      (auto simp: stream_closes_def List.map_filter_def terminate_def Let_def fail_updates_def fail_all_eq Session.fail_def put_request_def
        emit_def retire_route_def update_route_def split: option.split)
  have "keeps_streams w (on_sink_closed sub_sinks k st w)" for k st and w :: "'a subscriber_scheme"
    using t by (cases k) (simp_all add: sub_sinks_def keeps_streams_same)
  then show "quiet_sinks (sub_sinks :: ('a subscriber_scheme) sink_handlers)" by unfold_locales (simp_all add: keeps_streams_def)
qed

text \<open>C29: whatever MsQuic grants, the destructor of an adapter that was constructed and started closes every stream that is
  still open and then the handles the adapter opened, each once and in the reverse order. A stream is closed once, unless its
  \<open>StreamClose\<close> runs the callback for \<^verbatim>\<open>SHUTDOWN_COMPLETE\<close> before it returns: the callback then finds the
  handle and closes the stream a second time. Afterwards no stream of the adapter has a handle.\<close>

theorem adapter_releases_everything:
  fixes w :: "'a publisher_scheme" and v :: "'b subscriber_scheme"
  assumes made: "MsQuicTransportAdapter quic config = (None, ad)" and streams: "distinct (tp_registered w)" "distinct (tp_registered v)"
  shows "ad_calls (destroy_handles (snd (adapter_start quic getaddrinfo sz ad))) =
      ad_calls (snd (adapter_start quic getaddrinfo sz ad)) @ [ConnectionClose, ConfigurationClose, RegistrationClose, MsQuicClose]
    \<and> stream_closes (destroy_streams pub_sinks (transport_error pub_terminate_subscriptions) inline w) = stream_closes w
        @ concat (map (\<lambda>st. if inline st then [st, st] else [st]) (filter (has_handle w) (tp_registered w)))
    \<and> stream_closes (destroy_streams sub_sinks (transport_error terminate_subscriptions) inline v) = stream_closes v
        @ concat (map (\<lambda>st. if inline st then [st, st] else [st]) (filter (has_handle v) (tp_registered v)))
    \<and> list_all (\<lambda>st. \<not> has_handle (destroy_streams pub_sinks (transport_error pub_terminate_subscriptions) inline w) st) (tp_registered w)
    \<and> list_all (\<lambda>st. \<not> has_handle (destroy_streams sub_sinks (transport_error terminate_subscriptions) inline v) st) (tp_registered v)"
proof -
  have "session_start quic getaddrinfo sz config = (fst (adapter_start quic getaddrinfo sz ad), True, snd (adapter_start quic getaddrinfo sz ad))"
    using made by (simp add: session_start_def case_prod_beta)
  from session_start_handles(3) [OF this] destroy_handles_calls [of "snd (adapter_start quic getaddrinfo sz ad)"]
  have "ad_calls (destroy_handles (snd (adapter_start quic getaddrinfo sz ad))) =
      ad_calls (snd (adapter_start quic getaddrinfo sz ad)) @ [ConnectionClose, ConfigurationClose, RegistrationClose, MsQuicClose]"
    by (simp add: all_closed_def)
  then show ?thesis
    using pub_quiet.destroy_streams_closes [OF streams(1)] sub_quiet.destroy_streams_closes [OF streams(2)] by (simp add: list_all_iff)
qed

theorem adapter_releases_everything_witness:
  "stream_closes (destroy_streams pub_sinks (transport_error pub_terminate_subscriptions) (\<lambda>st. st = 3) pub_serving) = [3, 3, 2, 1, 0]
   \<and> stream_closes (destroy_streams sub_sinks (transport_error terminate_subscriptions) (\<lambda>st. st = 3) demo_established) = [2, 1, 0]"
proof -
  let ?quic = "(\<lambda>_. None, \<lambda>_. [])"
  have made: "MsQuicTransportAdapter ?quic default_config = (None, snd (MsQuicTransportAdapter ?quic default_config))"
    by (simp add: MsQuicTransportAdapter_def throw_if_failed_def)
  have w: "distinct (tp_registered pub_serving)" "filter (has_handle pub_serving) (tp_registered pub_serving) = [3, 2, 1, 0]"
    "stream_closes pub_serving = []"
    by (simp_all add: pub_serving_def pub_ready_def pub_start_def initial_publisher_def has_handle_def stream_closes_def map_filter_simps)
  have v: "distinct (tp_registered demo_established)" "filter (has_handle demo_established) (tp_registered demo_established) = [2, 1, 0]"
    "stream_closes demo_established = []"
    by (simp_all add: demo_established_def demo_pending_def demo_ready_def demo_defs has_handle_def stream_closes_def map_filter_simps)
  from adapter_releases_everything [OF made w(1) v(1), where inline = "\<lambda>st. st = 3"] show ?thesis
    unfolding w(2,3) v(2,3) by simp
qed

end
