(* ===== verification/Pending_Sends.thy ===== *)
theory Pending_Sends
  imports Adapter "HOL-Library.AList" "HOL-Library.Multiset"
begin

text \<open>
  The buffers of pending sends: \<^verbatim>\<open>struct PendingSend\<close> of \<^verbatim>\<open>src/stream_context.h\<close>, its
  \<^verbatim>\<open>new\<close> in \<open>StreamContext::send\<close> and \<open>MsQuicTransportAdapter::send_datagram\<close>, and its
  \<^verbatim>\<open>delete\<close> there and in the two callbacks. \<open>Transport\<close> says what these functions answer and
  put on the wire; here they also keep the heap, and are shown to refine the ones of \<open>Transport\<close>.
  \<^verbatim>\<open>operator new\<close> is the parameter \<open>fresh\<close>, which is given the addresses in use and may return any
  other, so that an address can be used again. The macro \<^verbatim>\<open>QUIC_DATAGRAM_SEND_STATE_IS_FINAL\<close> of
  MsQuic is the parameter \<open>is_final\<close>.
\<close>

section \<open>The heap of PendingSend objects\<close>

text \<open>\<open>ps_length\<close> is the 32-bit \<^verbatim>\<open>Length\<close> of the \<^verbatim>\<open>QUIC_BUFFER\<close>, whose
  \<^verbatim>\<open>Buffer\<close> points into \<open>ps_bytes\<close>.\<close>

record PendingSend =
  ps_bytes :: ByteBuffer
  ps_length :: "32 word"

definition pending_of :: "ByteBuffer \<Rightarrow> PendingSend" where
  "pending_of input = \<lparr>ps_bytes = input, ps_length = word_of_nat (length input)\<rparr>"

text \<open>What MsQuic reads through the descriptor.\<close>

definition described :: "PendingSend \<Rightarrow> ByteBuffer" where
  "described ps = take (unat (ps_length ps)) (ps_bytes ps)"

text \<open>
  The objects that exist, by address, and the deletes of an address where there is none. \<open>sh_streams\<close> and
  \<open>sh_datagrams\<close> are what MsQuic holds: the contexts of the calls it accepted and has not completed, with the
  descriptors as they were given to it.
\<close>

record send_heap =
  sh_heap :: "(nat \<times> PendingSend) list"
  sh_faults :: "nat list"
  sh_streams :: "(nat \<times> PendingSend) list"
  sh_datagrams :: "(nat \<times> PendingSend) list"

definition no_sends :: send_heap where
  "no_sends = \<lparr>sh_heap = [], sh_faults = [], sh_streams = [], sh_datagrams = []\<rparr>"

definition new_pending :: "(nat list \<Rightarrow> nat) \<Rightarrow> ByteBuffer \<Rightarrow> send_heap \<Rightarrow> nat \<times> send_heap" where
  "new_pending fresh bytes h =
     (let pending = fresh (map fst (sh_heap h))
      in (pending, h\<lparr>sh_heap := (pending, pending_of bytes) # sh_heap h\<rparr>))"

definition delete_pending :: "nat \<Rightarrow> send_heap \<Rightarrow> send_heap" where
  "delete_pending pending h =
     (if pending \<in> set (map fst (sh_heap h)) then h\<lparr>sh_heap := AList.delete pending (sh_heap h)\<rparr>
      else h\<lparr>sh_faults := sh_faults h @ [pending]\<rparr>)"

section \<open>The operations\<close>

definition pending_send ::
  "(nat list \<Rightarrow> nat) \<Rightarrow> stream_ref \<Rightarrow> ByteBuffer \<Rightarrow> bool \<Rightarrow> send_heap \<times> 'a transport_scheme
     \<Rightarrow> bool \<times> send_heap \<times> 'a transport_scheme" where
  "pending_send fresh st bytes fin s =
     (case s of (h, w) \<Rightarrow>
        if \<not> has_handle w st then (False, h, w)
        else case new_pending fresh bytes h of (pending, h) \<Rightarrow>
          case quic_call w of (ok, w) \<Rightarrow>
            if \<not> ok then (False, delete_pending pending h, w)
            else (True, h\<lparr>sh_streams := (pending, pending_of bytes) # sh_streams h\<rparr>,
                  emit (StreamSent st (described (pending_of bytes)) fin) w))"

text \<open>\<open>connection_\<close> is set by the constructor and never cleared, so the test of it always passes.\<close>

definition pending_send_datagram ::
  "(nat list \<Rightarrow> nat) \<Rightarrow> ByteBuffer \<Rightarrow> send_heap \<times> 'a transport_scheme \<Rightarrow> bool \<times> send_heap \<times> 'a transport_scheme" where
  "pending_send_datagram fresh bytes s =
     (case s of (h, w) \<Rightarrow>
        case new_pending fresh bytes h of (pending, h) \<Rightarrow>
          case quic_call w of (ok, w) \<Rightarrow>
            if \<not> ok then (False, delete_pending pending h, w)
            else (True, h\<lparr>sh_datagrams := (pending, pending_of bytes) # sh_datagrams h\<rparr>,
                  emit (DatagramSent (described (pending_of bytes))) w))"

text \<open>The case \<^verbatim>\<open>QUIC_STREAM_EVENT_SEND_COMPLETE\<close>.\<close>

definition on_send_complete :: "nat \<Rightarrow> send_heap \<Rightarrow> send_heap" where
  "on_send_complete client_context h = delete_pending client_context h"

text \<open>The case \<^verbatim>\<open>QUIC_CONNECTION_EVENT_DATAGRAM_SEND_STATE_CHANGED\<close>.\<close>

definition on_datagram_state :: "('q \<Rightarrow> bool) \<Rightarrow> nat \<Rightarrow> 'q \<Rightarrow> send_heap \<Rightarrow> send_heap" where
  "on_datagram_state is_final client_context state h =
     (if is_final state then delete_pending client_context h else h)"

section \<open>MsQuic\<close>

text \<open>
  What MsQuic documents of its events: a completion gives the context of a stream send back to the application,
  and a change of state that of a datagram when the state is final; before that the context is still MsQuic's.
\<close>

definition gives_stream_back :: "nat \<Rightarrow> send_heap \<Rightarrow> send_heap" where
  "gives_stream_back p h = h\<lparr>sh_streams := AList.delete p (sh_streams h)\<rparr>"

definition gives_datagram_back :: "('q \<Rightarrow> bool) \<Rightarrow> nat \<Rightarrow> 'q \<Rightarrow> send_heap \<Rightarrow> send_heap" where
  "gives_datagram_back is_final p q h = (if is_final q then h\<lparr>sh_datagrams := AList.delete p (sh_datagrams h)\<rparr> else h)"

section \<open>Runs\<close>

datatype 'q send_event =
    CallSend stream_ref ByteBuffer bool
  | CallSendDatagram ByteBuffer
  | SendCompleted nat
  | DatagramState nat 'q

fun sends_step ::
  "(nat list \<Rightarrow> nat) \<Rightarrow> ('q \<Rightarrow> bool) \<Rightarrow> 'q send_event \<Rightarrow> send_heap \<times> 'a transport_scheme \<Rightarrow> send_heap \<times> 'a transport_scheme" where
  "sends_step fresh is_final (CallSend st bytes fin) s = snd (pending_send fresh st bytes fin s)"
| "sends_step fresh is_final (CallSendDatagram bytes) s = snd (pending_send_datagram fresh bytes s)"
| "sends_step fresh is_final (SendCompleted p) s = (on_send_complete p (gives_stream_back p (fst s)), snd s)"
| "sends_step fresh is_final (DatagramState p q) s =
     (on_datagram_state is_final p q (gives_datagram_back is_final p q (fst s)), snd s)"

fun sends_run ::
  "(nat list \<Rightarrow> nat) \<Rightarrow> ('q \<Rightarrow> bool) \<Rightarrow> 'q send_event list \<Rightarrow> send_heap \<times> 'a transport_scheme \<Rightarrow> send_heap \<times> 'a transport_scheme" where
  "sends_run fresh is_final [] s = s"
| "sends_run fresh is_final (e # es) s = sends_run fresh is_final es (sends_step fresh is_final e s)"

text \<open>
  A completion or a change of state names a context that MsQuic holds from an accepted call. The sequence of
  events is otherwise free.
\<close>

fun held_context :: "'q send_event \<Rightarrow> send_heap \<Rightarrow> bool" where
  "held_context (SendCompleted p) h \<longleftrightarrow> p \<in> set (map fst (sh_streams h))"
| "held_context (DatagramState p q) h \<longleftrightarrow> p \<in> set (map fst (sh_datagrams h))"
| "held_context _ h \<longleftrightarrow> True"

fun completions_ok ::
  "(nat list \<Rightarrow> nat) \<Rightarrow> ('q \<Rightarrow> bool) \<Rightarrow> 'q send_event list \<Rightarrow> send_heap \<times> 'a transport_scheme \<Rightarrow> bool" where
  "completions_ok fresh is_final [] s \<longleftrightarrow> True"
| "completions_ok fresh is_final (e # es) s \<longleftrightarrow>
     held_context e (fst s) \<and> completions_ok fresh is_final es (sends_step fresh is_final e s)"

section \<open>Every buffer has one owner\<close>

text \<open>The objects that exist are those MsQuic holds, each under its own address, with the bytes it was given.\<close>

definition sends_inv :: "send_heap \<Rightarrow> bool" where
  "sends_inv h \<longleftrightarrow> distinct (map fst (sh_heap h)) \<and> mset (sh_heap h) = mset (sh_streams h @ sh_datagrams h) \<and> sh_faults h = []"

lemma delete_new: "p \<notin> set (map fst xs) \<Longrightarrow> AList.delete p ((p, v) # xs) = xs"
  by (force simp: AList.delete_eq filter_id_conv)

lemma distinct_of_mset: "mset xs = mset ys \<Longrightarrow> distinct (map fst xs) \<Longrightarrow> distinct (map fst ys)"
  by (metis mset_eq_imp_distinct_iff mset_map)

lemma fst_of_mset: "mset xs = mset ys \<Longrightarrow> set (map fst xs) = set (map fst ys)"
  by (metis mset_eq_setD set_map)

lemma mset_delete:
  assumes "mset xs = mset (ys @ zs)" "distinct (map fst xs)" "p \<in> set (map fst ys)"
  shows "mset (AList.delete p xs) = mset (AList.delete p ys @ zs)"
proof -
  let ?other = "\<lambda>e. p \<noteq> fst e"
  have "distinct (map fst (ys @ zs))" using assms distinct_of_mset by blast
  then have "p \<notin> set (map fst zs)" using assms(3) by auto
  then have "filter ?other zs = zs" by (intro filter_True) auto
  moreover have "mset (filter ?other xs) = mset (filter ?other (ys @ zs))" using assms(1) by (simp only: mset_filter)
  ultimately show ?thesis by (simp add: AList.delete_eq case_prod_beta')
qed

lemma distinct_delete: "distinct (map fst xs) \<Longrightarrow> distinct (map fst (AList.delete p xs))"
  by (simp add: AList.distinct_delete)

lemma sends_inv_complete:
  assumes "sends_inv h"
  shows "p \<in> set (map fst (sh_streams h)) \<Longrightarrow> sends_inv (on_send_complete p (gives_stream_back p h))"
    "p \<in> set (map fst (sh_datagrams h)) \<Longrightarrow> sends_inv (on_datagram_state is_final p q (gives_datagram_back is_final p q h))"
proof -
  have d: "distinct (map fst (sh_heap h))" and m: "mset (sh_heap h) = mset (sh_streams h @ sh_datagrams h)"
    and m': "mset (sh_heap h) = mset (sh_datagrams h @ sh_streams h)" and f: "sh_faults h = []"
    using assms by (simp_all add: sends_inv_def)
  note live = fst_of_mset [OF m, unfolded map_append set_append]
  show "sends_inv (on_send_complete p (gives_stream_back p h))" if "p \<in> set (map fst (sh_streams h))"
    using mset_delete [OF m d that] distinct_delete [OF d] f that live
    by (auto simp: sends_inv_def on_send_complete_def gives_stream_back_def delete_pending_def)
  show "sends_inv (on_datagram_state is_final p q (gives_datagram_back is_final p q h))" if "p \<in> set (map fst (sh_datagrams h))"
    using mset_delete [OF m' d that] distinct_delete [OF d] f that live assms
    by (auto simp: sends_inv_def on_datagram_state_def gives_datagram_back_def delete_pending_def add.commute)
qed

lemma sends_inv_new:
  assumes "sends_inv h" "fresh (map fst (sh_heap h)) \<notin> set (map fst (sh_heap h))" "new_pending fresh bytes h = (p, h')"
  shows "delete_pending p h' = h" "sends_inv (h'\<lparr>sh_streams := (p, pending_of bytes) # sh_streams h'\<rparr>)"
    "sends_inv (h'\<lparr>sh_datagrams := (p, pending_of bytes) # sh_datagrams h'\<rparr>)"
  using assms delete_new [of p "sh_heap h" "pending_of bytes"]
  by (auto simp: new_pending_def Let_def delete_pending_def sends_inv_def)

lemma sends_inv_step:
  assumes fresh: "\<And>used. fresh used \<notin> set used" and "sends_inv (fst s)" "held_context e (fst s)"
  shows "sends_inv (fst (sends_step fresh is_final e s))"
proof (cases e)
  case (CallSend st bytes fin)
  then show ?thesis using sends_inv_new [where h = "fst s" and fresh = fresh, OF assms(2) fresh] assms(2)
    by (auto simp: pending_send_def split: prod.split)
next
  case (CallSendDatagram bytes)
  then show ?thesis using sends_inv_new [where h = "fst s" and fresh = fresh, OF assms(2) fresh] assms(2)
    by (auto simp: pending_send_datagram_def split: prod.split)
qed (use sends_inv_complete [OF assms(2)] assms(3) in simp_all)

lemma sends_inv_run:
  assumes fresh: "\<And>used. fresh used \<notin> set used"
  shows "sends_inv (fst s) \<Longrightarrow> completions_ok fresh is_final events s \<Longrightarrow> sends_inv (fst (sends_run fresh is_final events s))"
proof (induction events arbitrary: s)
  case (Cons e events)
  then show ?case using sends_inv_step [OF fresh, of s e is_final] by simp
qed simp

text \<open>C27: whatever is sent and however MsQuic accepts, refuses and completes the sends, no buffer is deleted twice, and the
  buffers that exist are at every moment exactly the ones MsQuic still holds, each at its own address and with the bytes it
  was given: a buffer lives until the completion of its send, and none is left when all sends are complete.\<close>

theorem pending_sends_owned:
  assumes fresh: "\<And>used. fresh used \<notin> set used" and quic: "completions_ok fresh is_final events (no_sends, w)"
  shows "(let h = fst (sends_run fresh is_final events (no_sends, w))
    in sh_faults h = [] \<and> distinct (map fst (sh_heap h)) \<and> mset (sh_heap h) = mset (sh_streams h @ sh_datagrams h)
      \<and> (sh_streams h = [] \<and> sh_datagrams h = [] \<longrightarrow> sh_heap h = []))"
proof -
  have "sends_inv (fst (no_sends, w))" by (simp add: sends_inv_def no_sends_def)
  from sends_inv_run [OF fresh this quic] show ?thesis by (auto simp: sends_inv_def Let_def)
qed

text \<open>A stream and a datagram are sent, the stream send is refused once, both complete; the second address is used again.\<close>

definition demo_transport :: transport where
  "demo_transport = \<lparr>tp_answer = (\<lambda>n. n \<noteq> 1), tp_status = (\<lambda>_. []), tp_calls = 0,
     tp_streams = [3 \<mapsto> \<lparr>sc_handle = True, sc_unidirectional = True, sc_id = 7, sc_sink = None\<rparr>], tp_next_stream = 4,
     tp_registered = [3], tp_alive = True, tp_shutdown_requested = False, tp_log = []\<rparr>"

definition demo_sends :: "nat send_event list" where
  "demo_sends = [CallSend 3 [1, 2] False, CallSend 3 [5] True, CallSendDatagram [9], DatagramState 2 0, SendCompleted 1, CallSend 3 [5] True]"

definition demo_fresh :: "nat list \<Rightarrow> nat" where "demo_fresh used = Suc (sum_list used)"

lemma demo_fresh_new: "demo_fresh used \<notin> set used"
  using member_le_sum_list [of "Suc (sum_list used)" used] by (auto simp: demo_fresh_def)

theorem pending_sends_owned_witness:
  "completions_ok demo_fresh (\<lambda>q. q \<ge> 3) demo_sends (no_sends, demo_transport)
   \<and> sh_faults (fst (sends_run demo_fresh (\<lambda>q. q \<ge> 3) demo_sends (no_sends, demo_transport))) = []
   \<and> sh_streams (fst (sends_run demo_fresh (\<lambda>q. q \<ge> 3) demo_sends (no_sends, demo_transport))) = [(3, pending_of [5])]"
proof -
  note eval = demo_sends_def demo_transport_def no_sends_def pending_send_def pending_send_datagram_def new_pending_def demo_fresh_def
    has_handle_def quic_call_def delete_pending_def emit_def on_send_complete_def on_datagram_state_def gives_stream_back_def gives_datagram_back_def Let_def
  have ok: "completions_ok demo_fresh (\<lambda>q. q \<ge> 3) demo_sends (no_sends, demo_transport)" by (simp add: eval)
  moreover have "sh_streams (fst (sends_run demo_fresh (\<lambda>q. q \<ge> 3) demo_sends (no_sends, demo_transport))) = [(3, pending_of [5])]"
    by (simp add: eval)
  ultimately show ?thesis using pending_sends_owned [OF demo_fresh_new ok] by (simp only: Let_def)
qed

section \<open>Refinement\<close>

text \<open>The length of a descriptor has 32 bits.\<close>

lemma described_pending: "described (pending_of bytes) = take (length bytes mod 2 ^ 32) bytes"
  by (simp add: described_def pending_of_def unsigned_of_nat take_bit_eq_mod)

lemma described_short: "length bytes < 2 ^ 32 \<Longrightarrow> described (pending_of bytes) = bytes"
  by (simp add: described_pending)

lemma pending_send_refines:
  assumes "length bytes < 2 ^ 32"
  shows "(fst (pending_send fresh st bytes fin (h, w)), snd (snd (pending_send fresh st bytes fin (h, w)))) = send st bytes fin w"
  using assms by (simp add: pending_send_def send_def described_short split: prod.split)

lemma pending_send_datagram_refines:
  assumes "length bytes < 2 ^ 32"
  shows "(fst (pending_send_datagram fresh bytes (h, w)), snd (snd (pending_send_datagram fresh bytes (h, w)))) = send_datagram bytes w"
  using assms by (simp add: pending_send_datagram_def send_datagram_def described_short split: prod.split)

text \<open>Control messages always fit; an object whose payload is that long does not.\<close>

lemma control_message_fits:
  assumes "encode_control_message type payload = Inr frame"
  shows "described (pending_of frame) = frame"
proof -
  have "length frame \<le> 9 + 2 + 65535"
    using assms varint_size_bounds(2) [of type] by (auto simp: encode_control_message_def split: if_splits)
  then show ?thesis by (intro described_short) simp
qed

text \<open>A buffer of \<open>2 ^ 32\<close> bytes goes out empty, and \<open>send\<close> reports success.\<close>

lemma long_send_truncated:
  assumes "length bytes = 2 ^ 32" "has_handle w st" "tp_answer w (tp_calls w)"
  shows "fst (pending_send fresh st bytes fin (h, w))"
    "tp_log (snd (snd (pending_send fresh st bytes fin (h, w)))) = tp_log w @ [StreamSent st [] fin]"
  using assms by (simp_all add: pending_send_def described_pending quic_call_def emit_def split: prod.split)

end
