(* ===== verification/Arguments.thy ===== *)
theory Arguments
  imports Publisher
begin

text \<open>
  The arguments of the programs: \<^verbatim>\<open>example/arguments.h\<close> and the parsing half of
  \<^verbatim>\<open>tools/moqtopus_interop_client.cpp\<close>. \<^verbatim>\<open>std::stoul\<close> is written out as
  the standard describes it, with an \<^verbatim>\<open>unsigned long\<close> of 64 bits: leading white
  space and a sign are skipped, the value of a negative number is taken modulo \<open>2 ^ 64\<close>,
  and whatever follows the digits is left alone.
\<close>

section \<open>Strings of the standard library\<close>

definition is_space :: "char \<Rightarrow> bool" where
  "is_space c \<longleftrightarrow> (of_char c :: nat) = 32 \<or> 9 \<le> (of_char c :: nat) \<and> (of_char c :: nat) \<le> 13"

definition is_digit :: "char \<Rightarrow> bool" where
  "is_digit c \<longleftrightarrow> 48 \<le> (of_char c :: nat) \<and> (of_char c :: nat) \<le> 57"

definition digits_value :: "string \<Rightarrow> nat" where
  "digits_value ds = foldl (\<lambda>n c. 10 * n + (of_char c - 48)) 0 ds"

text \<open>The value and the number of characters consumed.\<close>

definition stoul :: "string \<Rightarrow> exn + u64 \<times> nat" where
  "stoul value =
     (let spaces = length (takeWhile is_space value);
          rest = drop spaces value;
          sign = (if rest \<noteq> [] \<and> (hd rest = CHR ''+'' \<or> hd rest = CHR ''-'') then 1 else 0);
          digits = takeWhile is_digit (drop sign rest);
          n = digits_value digits
      in if digits = [] then Inl (invalid_argument ''stoul'')
         else if 2 ^ 64 \<le> n then Inl (out_of_range ''stoul'')
         else Inr (if sign = 1 \<and> hd rest = CHR ''-'' then - word_of_nat n else word_of_nat n,
                   spaces + sign + length digits))"

definition find_char :: "char \<Rightarrow> string \<Rightarrow> nat \<Rightarrow> nat option" where
  "find_char c value start =
     (let k = length (takeWhile (\<lambda>d. d \<noteq> c) (drop start value))
      in if start + k < length value then Some (start + k) else None)"

definition rfind_char :: "char \<Rightarrow> string \<Rightarrow> nat option" where
  "rfind_char c value =
     (let k = length (takeWhile (\<lambda>d. d \<noteq> c) (rev value))
      in if k < length value then Some (length value - 1 - k) else None)"

definition substr :: "string \<Rightarrow> nat \<Rightarrow> nat \<Rightarrow> string" where
  "substr value pos n = take n (drop pos value)"

section \<open>\<open>example/arguments.h\<close>\<close>

definition example_ParsePort :: "string \<Rightarrow> u16 option" where
  "example_ParsePort value =
     (case stoul value of
        Inl e \<Rightarrow> None
      | Inr (parsed, _) \<Rightarrow> if parsed = 0 \<or> 65535 < parsed then None else Some (ucast parsed))"

function ParseNamespace_from :: "string \<Rightarrow> nat \<Rightarrow> TrackNamespace \<Rightarrow> exn + TrackNamespace" where
  "ParseNamespace_from value start names =
     (if start < length value then
        let slash = find_char (CHR ''/'') value start;
            stop = (case slash of None \<Rightarrow> length value | Some i \<Rightarrow> i)
        in if stop = start then Inl (invalid_argument ''namespace fields must not be empty'')
           else
             let names = names @ [substr value start (stop - start)]
             in case slash of None \<Rightarrow> Inr names | Some i \<Rightarrow> ParseNamespace_from value (i + 1) names
      else Inr names)"
  by pat_completeness auto
termination
  by (relation "measure (\<lambda>(value, start, _). length value - start)")
    (auto simp: find_char_def Let_def split: if_splits)

declare ParseNamespace_from.simps [simp del]

definition ParseNamespace :: "string \<Rightarrow> exn + TrackNamespace" where
  "ParseNamespace value = ParseNamespace_from value 0 []"

section \<open>The relay URL of the interop client\<close>

record RelayEndpoint =
  rep_host :: string
  rep_port :: u16
  rep_path :: string

definition ParsePort :: "string \<Rightarrow> exn + u16" where
  "ParsePort value =
     (case stoul value of
        Inl e \<Rightarrow> Inl e
      | Inr (port, consumed) \<Rightarrow>
          if consumed \<noteq> length value \<or> port = 0 \<or> 65535 < port
          then Inl (invalid_argument (''invalid relay port: '' @ value))
          else Inr (ucast port))"

definition ParseRelayUrl :: "string \<Rightarrow> exn + RelayEndpoint" where
  "ParseRelayUrl url =
     (let scheme = ''moqt://'' in
      if substr url 0 (length scheme) \<noteq> scheme
      then Inl (invalid_argument ''moqtopus only supports raw QUIC relay URLs using moqt://'')
      else
        let authority_and_path = drop (length scheme) url;
            slash = find_char (CHR ''/'') authority_and_path 0;
            authority = (case slash of None \<Rightarrow> authority_and_path | Some i \<Rightarrow> substr authority_and_path 0 i);
            no_endpoint = Inl (invalid_argument ''relay URL must include host and port'')
        in case rfind_char (CHR '':'') authority of
             None \<Rightarrow> no_endpoint
           | Some colon \<Rightarrow>
               if authority = [] \<or> colon = 0 \<or> colon + 1 = length authority then no_endpoint
               else case ParsePort (drop (colon + 1) authority) of
                 Inl e \<Rightarrow> Inl e
               | Inr port \<Rightarrow>
                   Inr \<lparr>rep_host = substr authority 0 colon, rep_port = port,
                        rep_path = (case slash of None \<Rightarrow> ''/'' | Some i \<Rightarrow> drop i authority_and_path)\<rparr>)"

section \<open>The options of the interop client\<close>

record Options =
  op_relay_url :: string
  op_testcase :: "string option"
  op_list :: bool
  op_verbose :: bool
  op_tls_disable_verify :: bool

definition kDefaultRelayUrl :: string where
  "kDefaultRelayUrl = ''moqt://localhost:4443''"

text \<open>The environment is the argument \<open>getenv\<close>.\<close>

definition EnvEnabled :: "(string \<Rightarrow> string option) \<Rightarrow> string \<Rightarrow> bool" where
  "EnvEnabled getenv name =
     (case getenv name of None \<Rightarrow> False | Some value \<Rightarrow> value = ''1'' \<or> value = ''true'')"

fun ParseOptions_loop :: "string list \<Rightarrow> Options \<Rightarrow> exn + Options" where
  "ParseOptions_loop [] options = Inr options"
| "ParseOptions_loop (arg # args) options =
     (if arg = ''-l'' \<or> arg = ''--list'' then ParseOptions_loop args (options\<lparr>op_list := True\<rparr>)
      else if arg = ''-v'' \<or> arg = ''--verbose'' then ParseOptions_loop args (options\<lparr>op_verbose := True\<rparr>)
      else if arg = ''--tls-disable-verify'' then ParseOptions_loop args (options\<lparr>op_tls_disable_verify := True\<rparr>)
      else if arg = ''-r'' \<or> arg = ''--relay'' \<or> arg = ''-t'' \<or> arg = ''--test'' then
        (case args of
           [] \<Rightarrow> Inl (invalid_argument (arg @ '' requires a value''))
         | value # args \<Rightarrow>
             ParseOptions_loop args
               (if arg = ''-r'' \<or> arg = ''--relay'' then options\<lparr>op_relay_url := value\<rparr>
                else options\<lparr>op_testcase := Some value\<rparr>))
      else Inl (invalid_argument (''unknown option: '' @ arg)))"

definition ParseOptions :: "(string \<Rightarrow> string option) \<Rightarrow> string list \<Rightarrow> exn + Options" where
  "ParseOptions getenv args =
     ParseOptions_loop args
       \<lparr>op_relay_url = (case getenv ''RELAY_URL'' of None \<Rightarrow> kDefaultRelayUrl | Some url \<Rightarrow> url),
        op_testcase = (case getenv ''TESTCASE'' of None \<Rightarrow> None | Some testcase \<Rightarrow> if testcase = [] then None else Some testcase),
        op_list = False,
        op_verbose = EnvEnabled getenv ''VERBOSE'',
        op_tls_disable_verify = EnvEnabled getenv ''TLS_DISABLE_VERIFY''\<rparr>"

definition kSessionIdleTimeout :: int where "kSessionIdleTimeout = 5000"

definition MakeClientConfig :: "Options \<Rightarrow> exn + MsQuicClientConfig" where
  "MakeClientConfig options =
     (case ParseRelayUrl (op_relay_url options) of
        Inl e \<Rightarrow> Inl e
      | Inr endpoint \<Rightarrow>
          Inr (default_config\<lparr>cfg_host := rep_host endpoint, cfg_port := rep_port endpoint, cfg_path := rep_path endpoint,
                 cfg_disable_certificate_validation := op_tls_disable_verify options,
                 cfg_idle_timeout := kSessionIdleTimeout\<rparr>))"

section \<open>Numbers\<close>

lemma of_char_digit: "d < 10 \<Longrightarrow> (of_char (char_of (48 + d) :: char) :: nat) = 48 + d"
  by simp

lemma to_string_digits: "list_all is_digit (to_string n)"
proof (induction n rule: to_string.induct)
  case (1 n)
  have d: "is_digit (char_of (48 + k))" if "k < 10" for k :: nat using that by (simp add: is_digit_def)
  then show ?case using 1 by (subst to_string.simps) simp
qed

lemma digits_value_to_string: "digits_value (to_string n) = n"
proof (induction n rule: to_string.induct)
  case (1 n)
  show ?case
  proof (cases "n < 10")
    case True then show ?thesis by (subst to_string.simps) (simp add: digits_value_def)
  next
    case False
    then have "digits_value (to_string n) = 10 * digits_value (to_string (n div 10)) + n mod 10"
      by (subst to_string.simps) (simp add: digits_value_def)
    also have "\<dots> = n" using 1 [OF False] by simp
    finally show ?thesis .
  qed
qed

lemma to_string_not_Nil [simp]: "to_string n \<noteq> []"
  by (subst to_string.simps) simp

lemma takeWhile_all: "list_all P xs \<Longrightarrow> takeWhile P (xs @ ys) = xs @ takeWhile P ys"
  by (induction xs) auto

lemma is_digitD: "is_digit c \<Longrightarrow> \<not> is_space c" "is_digit c \<Longrightarrow> c \<noteq> CHR ''+''" "is_digit c \<Longrightarrow> c \<noteq> CHR ''-''"
    "is_digit c \<Longrightarrow> c \<noteq> CHR ''/''" "is_digit c \<Longrightarrow> c \<noteq> CHR '':''"
  by (auto simp: is_digit_def is_space_def)

text \<open>Digits are read up to the first character that is not one, whatever it is.\<close>

lemma stoul_to_string:
  assumes "n < 2 ^ 64" and tail: "tail = [] \<or> \<not> is_digit (hd tail)"
  shows "stoul (to_string n @ tail) = Inr (word_of_nat n, length (to_string n))"
proof -
  obtain d ds where ds: "to_string n = d # ds" "is_digit d" using to_string_digits [of n] to_string_not_Nil [of n] by (cases "to_string n") auto
  have "takeWhile is_digit tail = []" using tail by (cases tail) auto
  then have "takeWhile is_digit (to_string n @ tail) = to_string n"
    by (simp add: takeWhile_all [OF to_string_digits])
  then show ?thesis using ds is_digitD(1-3) [OF ds(2)] assms(1) digits_value_to_string [of n] by (simp add: stoul_def Let_def)
qed

lemma ParsePort_to_string: "port \<noteq> 0 \<Longrightarrow> ParsePort (to_string (unat port)) = Inr port"
proof -
  assume "port \<noteq> 0"
  have b: "unat port < 65536" using unsigned_less [where w = port and 'a = nat] by simp
  have u: "unat (ucast port :: u64) = unat port" using unat_of_nat_u64 [of "unat port"] b by simp
  have "(ucast port :: u64) \<le> 65535" using b u by (simp add: word_le_nat_alt)
  moreover have "ucast (ucast port :: u64) = port" by (rule bit_word_eqI) (simp add: bit_simps)
  moreover have "(ucast port :: u64) \<noteq> 0" using \<open>port \<noteq> 0\<close> u by (metis unat_eq_0 unat_0)
  ultimately show ?thesis
    using stoul_to_string [of "unat port" "[]"] b by (simp add: ParsePort_def not_less)
qed

end
