(* ===== verification/Examples.thy ===== *)
theory Examples
  imports End_To_End Arguments
begin

text \<open>
  \<^verbatim>\<open>example/publisher.cpp\<close> and \<^verbatim>\<open>example/subscriber.cpp\<close>: the command lines,
  the objects the publisher makes until it is interrupted, and what the subscriber prints of an
  object. Waiting, signals and the log level are not modelled; the number of rounds the publisher
  makes before the interrupt is an argument.
\<close>

section \<open>Command lines\<close>

text \<open>An exit code, or what the rest of \<open>main\<close> works with. \<open>argv\<close> begins with the name of the program.\<close>

definition publisher_arguments :: "string list \<Rightarrow> int + MsQuicClientConfig \<times> bool \<times> TrackKey" where
  "publisher_arguments argv =
     (if length argv < 5 \<or> 8 < length argv then Inl 2
      else case example_ParsePort (argv ! 2) of
        None \<Rightarrow> Inl 2
      | Some port \<Rightarrow>
          let config = default_config\<lparr>cfg_host := argv ! 1, cfg_port := port,
                 cfg_path := (if 6 \<le> length argv then argv ! 5 else ''/''),
                 cfg_server_name := (if 8 \<le> length argv then argv ! 7 else [])\<rparr>;
              use_datagrams = (7 \<le> length argv \<and> argv ! 6 = ''datagram'')
          in case ParseNamespace (argv ! 3) of
               Inl e \<Rightarrow> Inl 1
             | Inr track_namespace \<Rightarrow> Inr (config, use_datagrams, track_namespace, argv ! 4))"

definition subscriber_arguments :: "string list \<Rightarrow> int + MsQuicClientConfig" where
  "subscriber_arguments argv =
     (if length argv < 5 \<or> 7 < length argv then Inl 2
      else case example_ParsePort (argv ! 2) of
        None \<Rightarrow> Inl 2
      | Some port \<Rightarrow>
          Inr (default_config\<lparr>cfg_host := argv ! 1, cfg_port := port,
                 cfg_path := (if 6 \<le> length argv then argv ! 5 else ''/''),
                 cfg_server_name := (if 7 \<le> length argv then argv ! 6 else [])\<rparr>))"

text \<open>The namespace is parsed after the session has become ready.\<close>

definition subscriber_request :: "string list \<Rightarrow> int + SubscribeRequest" where
  "subscriber_request argv =
     (case ParseNamespace (argv ! 3) of
        Inl e \<Rightarrow> Inl 1
      | Inr track_namespace \<Rightarrow> Inr \<lparr>sr_namespace = track_namespace, sr_name = argv ! 4, sr_parameters = []\<rparr>)"

section \<open>The objects of the publisher\<close>

definition kObjectsPerGroup :: u64 where "kObjectsPerGroup = 30"

definition example_object :: "TrackKey \<Rightarrow> bool \<Rightarrow> GroupId \<Rightarrow> ObjectId \<Rightarrow> PublishedObject" where
  "example_object key use_datagrams group_id object_id =
     \<lparr>po_namespace = fst key, po_name = snd key, po_group_id = group_id, po_subgroup_id = 0, po_object_id = object_id,
      po_publisher_priority = 128, po_properties = [],
      po_payload = bytes_of_string (''moqtopus object '' @ to_string (unat group_id) @ ''/'' @ to_string (unat object_id)),
      po_status = None, po_delivery_kind = (if use_datagrams then Datagram else SubgroupStream), po_end_of_subgroup = False,
      po_end_of_group = (object_id + 1 = kObjectsPerGroup)\<rparr>"

fun example_loop :: "nat \<Rightarrow> TrackKey \<Rightarrow> bool \<Rightarrow> GroupId \<Rightarrow> ObjectId \<Rightarrow> PublishedObject list" where
  "example_loop 0 key use_datagrams group_id object_id = []"
| "example_loop (Suc rounds) key use_datagrams group_id object_id =
     example_object key use_datagrams group_id object_id
     # (let object_id = object_id + 1
        in if object_id = kObjectsPerGroup then example_loop rounds key use_datagrams (group_id + 1) 0
           else example_loop rounds key use_datagrams group_id object_id)"

text \<open>The calls on the session, between \<open>ready\<close> and the end of \<open>main\<close>.\<close>

definition publisher_calls :: "TrackKey \<Rightarrow> bool \<Rightarrow> nat \<Rightarrow> publisher_event list" where
  "publisher_calls key use_datagrams rounds =
     PubRegister \<lparr>pt_namespace = fst key, pt_name = snd key, pt_properties = []\<rparr>
     # map PubPublish (example_loop rounds key use_datagrams 0 0)
     @ [PubEndTrack key PublishDone_TrackEnded [], PubClose Close_NoError]"

section \<open>The printer of the subscriber\<close>

fun DeliveryName :: "DeliveryKind \<Rightarrow> string" where
  "DeliveryName SubgroupStream = ''subgroup''"
| "DeliveryName Datagram = ''datagram''"
| "DeliveryName FetchStream = ''fetch''"

definition hex_digit :: "nat \<Rightarrow> char" where
  "hex_digit d = char_of (if d < 10 then 48 + d else 87 + d)"

definition preview_byte :: "byte \<Rightarrow> string" where
  "preview_byte b =
     (if 0x20 \<le> b \<and> b \<le> 0x7e then [char_of_byte b]
      else [CHR 0x5C, CHR ''x'', hex_digit (unat b div 16), hex_digit (unat b mod 16)])"

definition kMaxBytes :: nat where "kMaxBytes = 24"

definition PayloadPreview :: "ByteBuffer \<Rightarrow> string" where
  "PayloadPreview payload = concat (map preview_byte (take kMaxBytes payload)) @ (if kMaxBytes < length payload then ''...'' else [])"

record PrintingHandler =
  ph_stopped :: bool
  ph_object_count :: u64
  ph_total_payload_bytes :: u64

definition print_object :: "Object \<Rightarrow> PrintingHandler \<Rightarrow> string \<times> PrintingHandler" where
  "print_object object h =
     (let count = ph_object_count h + 1;
          h = h\<lparr>ph_object_count := count, ph_total_payload_bytes := ph_total_payload_bytes h + word_of_nat (length (obj_payload object))\<rparr>
      in (''object #'' @ to_string (unat count) @ '' delivery='' @ DeliveryName (obj_delivery_kind object)
            @ '' request='' @ to_string (unat (obj_request_id object)) @ '' alias='' @ to_string (unat (obj_track_alias object))
            @ '' group='' @ to_string (unat (obj_group_id object)) @ '' object='' @ to_string (unat (obj_object_id object))
            @ (case obj_subgroup_id object of None \<Rightarrow> [] | Some s \<Rightarrow> '' subgroup='' @ to_string (unat s))
            @ (case obj_status object of
                 Some s \<Rightarrow> '' status='' @ to_string (unat s)
               | None \<Rightarrow> '' payload='' @ to_string (length (obj_payload object)) @ '' bytes preview='' @ [CHR 0x22]
                   @ PayloadPreview (obj_payload object) @ [CHR 0x22])
            @ [CHR 0x0A], h))"

definition print_publish_done :: "PublishDone \<Rightarrow> PrintingHandler \<Rightarrow> string \<times> PrintingHandler" where
  "print_publish_done pd h =
     (''publisher finished track status='' @ to_string (unat (pd_status_code pd)) @ '' streams='' @ to_string (unat (pd_stream_count pd))
        @ (if pd_reason pd = [] then [] else '' reason='' @ [CHR 0x22] @ pd_reason pd @ [CHR 0x22]) @ [CHR 0x0A],
      h\<lparr>ph_stopped := True\<rparr>)"

definition print_error :: "PrintingHandler \<Rightarrow> PrintingHandler" where
  "print_error h = h\<lparr>ph_stopped := True\<rparr>"

section \<open>What is printed\<close>

text \<open>A preview is short and shows printable characters only.\<close>

lemma preview_byte_printable: "c \<in> set (preview_byte b) \<Longrightarrow> 0x20 \<le> (of_char c :: nat) \<and> (of_char c :: nat) \<le> 0x7e"
proof -
  have d: "0x20 \<le> (of_char (hex_digit n) :: nat) \<and> (of_char (hex_digit n) :: nat) \<le> 0x7e" if "n < 16" for n
    using that by (simp add: hex_digit_def)
  have "unat b div 16 < 16" using unsigned_less [where w = b and 'a = nat] by simp
  moreover assume "c \<in> set (preview_byte b)"
  ultimately show ?thesis using d [of "unat b div 16"] d [of "unat b mod 16"]
    by (auto simp: preview_byte_def char_of_byte_def word_le_nat_alt split: if_splits)
qed

lemma preview_printable: "c \<in> set (PayloadPreview payload) \<Longrightarrow> 0x20 \<le> (of_char c :: nat) \<and> (of_char c :: nat) \<le> 0x7e"
  using preview_byte_printable by (auto simp: PayloadPreview_def split: if_splits)

lemma preview_short: "length (PayloadPreview payload) \<le> 4 * kMaxBytes + 3"
proof -
  have "length (preview_byte b) \<le> 4" for b by (simp add: preview_byte_def)
  then have "length (concat (map preview_byte bs)) \<le> 4 * length bs" for bs
  proof (induction bs)
    case (Cons b bs) then show ?case using Cons.prems [of b] by (simp add: add_le_mono)
  qed simp
  from this [of "take kMaxBytes payload"] show ?thesis by (simp add: PayloadPreview_def min_def split: if_splits)
qed

section \<open>A group of the example, from one program to the other\<close>

definition example_group :: "TrackKey \<Rightarrow> bool \<Rightarrow> GroupId \<Rightarrow> PublishedObject list" where
  "example_group key use_datagrams g = map (\<lambda>n. example_object key use_datagrams g (word_of_nat n)) [0..<30]"

text \<open>Thirty rounds from the start of a group make the group.\<close>

lemma example_rounds:
  "k \<le> 30 \<Longrightarrow> 0 < k \<Longrightarrow> example_loop (k + rounds) key use_datagrams g (word_of_nat (30 - k)) =
     map (\<lambda>n. example_object key use_datagrams g (word_of_nat n)) [30 - k..<30] @ example_loop rounds key use_datagrams (g + 1) 0"
proof (induction k)
  case (Suc k)
  have up: "word_of_nat (30 - Suc k) + 1 = (word_of_nat (30 - k) :: u64)" using Suc.prems by (simp flip: of_nat_Suc add: Suc_diff_le)
  have cons: "[30 - Suc k..<30] = (30 - Suc k) # [30 - k..<30]" proof -
    have "Suc (30 - Suc k) = 30 - k" using Suc.prems by arith
    then show ?thesis using Suc.prems upt_conv_Cons [of "30 - Suc k" 30] by simp
  qed
  have "unat (word_of_nat (30 - k) :: u64) = 30 - k" by (rule unat_of_nat_u64) simp
  then have "k = 0" if "word_of_nat (30 - k) = (30 :: u64)" using Suc.prems by (simp only: that) simp
  then have "word_of_nat (30 - k) = kObjectsPerGroup \<longleftrightarrow> k = 0" by (auto simp: kObjectsPerGroup_def)
  then show ?case using Suc up cons by (cases "k = 0") (simp_all add: Let_def)
qed simp

lemma example_loop_groups:
  "example_loop (30 * k) key use_datagrams g 0 = concat (map (\<lambda>n. example_group key use_datagrams (g + word_of_nat n)) [0..<k])"
proof (induction k arbitrary: g)
  case (Suc k)
  have "example_loop (30 * Suc k) key use_datagrams g 0 = example_group key use_datagrams g @ example_loop (30 * k) key use_datagrams (g + 1) 0"
    using example_rounds [of 30 "30 * k" key use_datagrams g] by (simp add: example_group_def)
  then show ?case using Suc by (simp add: upt_conv_Cons map_Suc_upt [symmetric] comp_def add.assoc del: upt_Suc)
qed simp

text \<open>What a subscriber sees of a group: thirty objects with their texts and the marker of the end.\<close>

definition example_received :: "GroupId \<Rightarrow> SubgroupObject list" where
  "example_received g =
     map (\<lambda>n. \<lparr>sgo_object_id = word_of_nat n, sgo_status = None, sgo_properties = [],
        sgo_payload = bytes_of_string (''moqtopus object '' @ to_string (unat g) @ ''/'' @ to_string n)\<rparr>) [0..<30]
     @ [\<lparr>sgo_object_id = 30, sgo_status = Some kObjectStatusEndOfGroup, sgo_properties = [], sgo_payload = []\<rparr>]"

lemma sent_example:
  assumes "n < 30"
  shows "sent_objects (example_object key use_datagrams g (word_of_nat n)) =
    \<lparr>sgo_object_id = word_of_nat n, sgo_status = None, sgo_properties = [],
      sgo_payload = bytes_of_string (''moqtopus object '' @ to_string (unat g) @ ''/'' @ to_string n)\<rparr>
    # (if n = 29 then [\<lparr>sgo_object_id = 30, sgo_status = Some kObjectStatusEndOfGroup, sgo_properties = [], sgo_payload = []\<rparr>] else [])"
    "closes_stream (example_object key use_datagrams g (word_of_nat n)) \<longleftrightarrow> n = 29"
proof -
  have n: "unat (word_of_nat n :: u64) = n" using assms by (intro unat_of_nat_u64) simp
  have "word_of_nat n = (29 :: u64) \<Longrightarrow> n = 29" using n by simp
  then have "word_of_nat n + 1 = kObjectsPerGroup \<longleftrightarrow> n = 29" by (auto simp: kObjectsPerGroup_def)
  then show "sent_objects (example_object key use_datagrams g (word_of_nat n)) =
    \<lparr>sgo_object_id = word_of_nat n, sgo_status = None, sgo_properties = [],
      sgo_payload = bytes_of_string (''moqtopus object '' @ to_string (unat g) @ ''/'' @ to_string n)\<rparr>
    # (if n = 29 then [\<lparr>sgo_object_id = 30, sgo_status = Some kObjectStatusEndOfGroup, sgo_properties = [], sgo_payload = []\<rparr>] else [])"
    "closes_stream (example_object key use_datagrams g (word_of_nat n)) \<longleftrightarrow> n = 29"
    using n by (auto simp: sent_objects_def example_object_def sent_properties_def object_abnormal_def closes_stream_def kObjectsPerGroup_def)
qed

lemma thirty: "[0..<30] = [0..<29] @ [29 :: nat]"
  by code_simp

lemma sent_group: "concat (map sent_objects (example_group key use_datagrams g)) = example_received g"
proof -
  have "example_group key use_datagrams g =
      map (\<lambda>n. example_object key use_datagrams g (word_of_nat n)) [0..<29] @ [example_object key use_datagrams g (word_of_nat 29)]"
    unfolding example_group_def thirty by simp
  moreover have "concat (map (\<lambda>n. sent_objects (example_object key use_datagrams g (word_of_nat n))) [0..<29]) =
      map (\<lambda>n. \<lparr>sgo_object_id = word_of_nat n, sgo_status = None, sgo_properties = [],
        sgo_payload = bytes_of_string (''moqtopus object '' @ to_string (unat g) @ ''/'' @ to_string n)\<rparr>) [0..<29]"
    by (subst concat_map_singleton [symmetric], rule arg_cong [of _ _ concat], rule map_cong) (auto simp: sent_example)
  ultimately show ?thesis using sent_example(1) [of 29 key use_datagrams g]
    by (simp add: example_received_def thirty comp_def)
qed

lemma ascending_upt:
  assumes f: "\<And>n. n < j \<Longrightarrow> object_ok (f n) \<and> sgo_object_id (f n) = word_of_nat n" and j: "j < 2 ^ 64"
    and tail: "ascending (Some (word_of_nat (j - 1))) tail"
  shows "i < j \<Longrightarrow> (\<And>l. last_id = Some l \<Longrightarrow> unat l < i) \<Longrightarrow> ascending last_id (map f [i..<j] @ tail)"
proof (induction "j - i" arbitrary: i last_id)
  case (Suc d)
  have u: "unat (word_of_nat i :: u64) = i" using Suc.prems(1) j by (intro unat_of_nat_u64) simp
  have cons: "[i..<j] = i # [Suc i..<j]" using Suc.prems(1) by (rule upt_conv_Cons)
  have "ascending (Some (word_of_nat i)) (map f [Suc i..<j] @ tail)"
  proof (cases "Suc i < j")
    case True
    then show ?thesis using Suc.hyps(1) [of "Suc i" "Some (word_of_nat i)"] Suc.hyps(2) u by auto
  next
    case False
    then have "j - 1 = i" using Suc.prems(1) by simp
    then show ?thesis using tail False by simp
  qed
  then show ?case using f [OF Suc.prems(1)] Suc.prems(2) u by (auto simp: cons word_less_nat_alt)
qed simp

lemma ascending_example: "ascending None (example_received g)"
proof -
  have short: "length (to_string n) \<le> n div 10 + 1" for n
  proof (induction n rule: to_string.induct)
    case (1 n)
    show ?case
    proof (cases "n < 10")
      case False
      then have "n div 10 div 10 + 1 \<le> n div 10" by linarith
      then show ?thesis using 1 [OF False] False by (simp add: to_string.simps [of n])
    qed (simp add: to_string.simps [of n])
  qed
  show ?thesis
    unfolding example_received_def
  proof (rule ascending_upt [of 30])
    fix n :: nat
    assume "n < 30"
    then have "length (to_string (unat g)) + length (to_string n) < 2 ^ 64 - 17"
      using short [of "unat g"] short [of n] unat_u64_bound [of g] by simp
    then show "object_ok \<lparr>sgo_object_id = word_of_nat n, sgo_status = None, sgo_properties = [],
        sgo_payload = bytes_of_string (''moqtopus object '' @ to_string (unat g) @ ''/'' @ to_string n)\<rparr> \<and>
      sgo_object_id \<lparr>sgo_object_id = word_of_nat n, sgo_status = None, sgo_properties = [],
        sgo_payload = bytes_of_string (''moqtopus object '' @ to_string (unat g) @ ''/'' @ to_string n)\<rparr> = word_of_nat n"
      by (simp add: object_ok_def object_fields_ok_def)
  qed (simp_all add: object_ok_def object_fields_ok_def is_valid_object_status_def)
qed

lemma on_the_wire_example: "map on_the_wire (example_received g) = example_received g"
  by (simp add: example_received_def on_the_wire_def wire_status_def bytes_of_string_def)

lemma example_subgroup:
  assumes "passes_filter s g 0" "ss_end_group s = None"
  shows "subgroup_of key g 0 128 s (example_group key False g)"
proof -
  have "butlast (example_group key False g) = map (\<lambda>n. example_object key False g (word_of_nat n)) [0..<29]"
    unfolding example_group_def thirty by (simp add: butlast_append)
  moreover have "passes_filter s g ob" for ob
    using assms by (auto simp: passes_filter_def location_less_def word_gt_0 split: if_splits)
  ultimately show ?thesis
    using sent_example(2) by (auto simp: subgroup_of_def in_subgroup_def example_group_def)
      (auto simp: example_object_def valid_publish_status_def)
qed

text \<open>C30: a group of the example publisher reaches the example subscriber: the publisher opens one stream
  for it, and the subscriber that is fed its bytes is given the thirty texts in their order and then the end of the group.\<close>

theorem example_group_delivered:
  assumes w: "serves w i key s" and new: "map_of (ss_streams s) (g, 0) = None" and starts: "passes_filter s g 0"
    and v: "dp_routes_by_alias v (ss_track_alias s) = Some ref" "dp_heap v ref = Some route" "open_route g route"
      "sb_app v = (\<lambda>_. [])" "tp_streams v st = Some c"
  shows "\<exists>chunks. tp_log (publisher_run (map PubPublish (example_loop 30 key False g 0)) w) =
      tp_log w @ StreamOpened (tp_next_stream w) True # map (\<lambda>(b, f). StreamSent (tp_next_stream w) b f) chunks
    \<and> tp_log (start_subgroup_stream callbacks st (concat (map fst chunks)) fin v) = tp_log v @ map (\<lambda>ob.
        OnObject (stream_object (rr_request_id route) (ss_track_alias s) g 0 128 (sc_id c) ob)) (example_received g)"
proof -
  have loop: "example_loop 30 key False g 0 = example_group key False g" using example_loop_groups [of 1 key False g] by simp
  have sub: "subgroup_of key g 0 128 s (example_group key False g)"
    using w starts by (intro example_subgroup) (simp_all add: serves_def)
  have wire: "map (\<lambda>ob. OnObject (stream_object r a g 0 128 d (on_the_wire ob))) (example_received g) =
      map (\<lambda>ob. OnObject (stream_object r a g 0 128 d ob)) (example_received g)" for r a d
    using arg_cong [OF on_the_wire_example, of "map (\<lambda>ob. OnObject (stream_object r a g 0 128 d ob))" g] by (simp add: comp_def)
  have "example_group key False g \<noteq> []" by (simp add: example_group_def)
  from published_delivered [OF w new sub _ this v, of fin] show ?thesis unfolding loop sent_group wire using ascending_example by blast
qed

theorem example_group_delivered_witness:
  "\<exists>chunks. tp_log (publisher_run (map PubPublish (example_loop 30 ([''a''], ''t'') False 4 0)) pub_serving) =
      tp_log pub_serving @ StreamOpened 4 True # map (\<lambda>(b, f). StreamSent 4 b f) chunks
    \<and> tp_log (start_subgroup_stream callbacks 1 (concat (map fst chunks)) True
        (demo_established\<lparr>dp_routes_by_alias := [0 \<mapsto> 0], sb_app := \<lambda>_. []\<rparr>)) = tp_log demo_established @ map (\<lambda>ob.
          OnObject (stream_object 0 0 4 0 128 3 ob)) (example_received 4)"
proof -
  let ?v = "demo_established\<lparr>dp_routes_by_alias := [0 \<mapsto> 0], sb_app := \<lambda>_. []\<rparr>"
  let ?route = "\<lparr>rr_request_id = 0, rr_active = True, rr_final_object_in_group = Map.empty, rr_final_object_in_track = None\<rparr>"
  have w: "serves pub_serving 1 ([''a''], ''t'') demo_send"
    by (simp add: serves_def granted_def pub_serving_def pub_ready_def pub_start_def initial_publisher_def demo_entry_def demo_send_def)
  have s: "map_of (ss_streams demo_send) (4, 0) = None" "passes_filter demo_send 4 0" "ss_track_alias demo_send = 0" "tp_next_stream pub_serving = 4"
    by (simp_all add: demo_send_def pub_serving_def passes_filter_def location_less_def)
  have v: "dp_routes_by_alias ?v (ss_track_alias demo_send) = Some 0" "dp_heap ?v 0 = Some ?route" "open_route 4 ?route" "sb_app ?v = (\<lambda>_. [])"
    "tp_streams ?v 1 = Some \<lparr>sc_handle = True, sc_unidirectional = True, sc_id = 3, sc_sink = Some PeerStreamGateSink\<rparr>"
    by (simp_all add: demo_send_def open_route_def demo_established_def demo_pending_def demo_ready_def)
  have "tp_log ?v = tp_log demo_established" by simp
  with example_group_delivered [OF w s(1,2) v, of True] show ?thesis unfolding s(3,4) by simp
qed

end
