(* ===== verification/Example_Programs.thy ===== *)
theory Example_Programs
  imports Examples
begin

text \<open>
  The programs as a whole. \<open>main\<close> of \<^verbatim>\<open>example/publisher.cpp\<close> makes its calls on the session or ends
  before the first of them. The rest of \<open>main\<close> of \<^verbatim>\<open>example/subscriber.cpp\<close>: it subscribes, polls until the handler has
  stopped, and reports what was received. What the session calls on the handler is an argument: the calls of
  each interval between two polls, in their order. \<^verbatim>\<open>interrupted\<close> is a constant: no statement of the
  program sets it.
\<close>

section \<open>Definitions\<close>

text \<open>\<^verbatim>\<open>struct Subscription\<close> of \<^verbatim>\<open>include/moq/subscriber_session.h\<close>, the value of the promise \<open>SubscriptionValue\<close>.\<close>

record Subscription =
  sn_request_id :: RequestId
  sn_track_alias :: TrackAlias

datatype handler_call = HandlerObject Object | HandlerDone PublishDone | HandlerError

fun handle_call :: "handler_call \<Rightarrow> PrintingHandler \<Rightarrow> string \<times> PrintingHandler" where
  "handle_call (HandlerObject object) h = print_object object h"
| "handle_call (HandlerDone pd) h = print_publish_done pd h"
| "handle_call HandlerError h = ([], print_error h)"

fun handle_calls :: "handler_call list \<Rightarrow> PrintingHandler \<Rightarrow> string \<times> PrintingHandler" where
  "handle_calls [] h = ([], h)"
| "handle_calls (c # cs) h =
     (case handle_call c h of (line, h) \<Rightarrow> case handle_calls cs h of (lines, h) \<Rightarrow> (line @ lines, h))"

definition new_handler :: PrintingHandler where
  "new_handler = \<lparr>ph_stopped = False, ph_object_count = 0, ph_total_payload_bytes = 0\<rparr>"

text \<open>The loop; \<open>None\<close> when it has not ended after the given intervals.\<close>

fun poll_loop :: "bool \<Rightarrow> handler_call list list \<Rightarrow> PrintingHandler \<Rightarrow> (string \<times> PrintingHandler) option" where
  "poll_loop interrupted intervals h =
     (if interrupted \<or> ph_stopped h then Some ([], h)
      else case intervals of
        [] \<Rightarrow> None
      | calls # intervals \<Rightarrow>
          (case handle_calls calls h of (lines, h) \<Rightarrow> map_option (map_prod ((@) lines) id) (poll_loop interrupted intervals h)))"

declare poll_loop.simps [simp del]

definition subscribed_line :: "Subscription \<Rightarrow> string" where
  "subscribed_line subscription =
     ''subscribed request='' @ to_string (unat (sn_request_id subscription)) @ '' alias='' @ to_string (unat (sn_track_alias subscription)) @ [CHR 0x0A]"

definition received_line :: "PrintingHandler \<Rightarrow> string" where
  "received_line h =
     ''received objects='' @ to_string (unat (ph_object_count h)) @ '' payload_bytes='' @ to_string (unat (ph_total_payload_bytes h)) @ [CHR 0x0A]"

text \<open>The calls on the session after \<open>connect\<close>, with the subscription that \<open>subscribe\<close> returned.\<close>

definition subscriber_calls :: "SubscribeRequest \<Rightarrow> Subscription \<Rightarrow> subscriber_event list" where
  "subscriber_calls request subscription =
     [SubReady, SubSubscribe request True, SubStop (sn_request_id subscription), SubClose Close_NoError]"

text \<open>
  What the program prints and its exit code. \<open>early\<close> are the calls on the handler before \<open>subscribe\<close> has
  returned, \<open>late\<close> those between the loop and the report. \<open>session request\<close> is the subscription or the text of the exception that
  \<open>connect\<close>, \<open>ready\<close> or \<open>subscribe\<close> ended with; an exception of \<open>ParseNamespace\<close> ends it as well.
\<close>

definition subscriber_main ::
  "(MsQuicClientConfig \<Rightarrow> string option) \<Rightarrow> (SubscribeRequest \<Rightarrow> string + Subscription) \<Rightarrow> handler_call list
     \<Rightarrow> handler_call list list \<Rightarrow> handler_call list \<Rightarrow> string list \<Rightarrow> (string \<times> int) option" where
  "subscriber_main ready_session session early intervals late argv =
     (case subscriber_arguments argv of
        Inl code \<Rightarrow> Some ([], code)
      | Inr config \<Rightarrow>
          (case ready_session config of
             Some failure \<Rightarrow> Some ([], 1)
           | None \<Rightarrow>
               (case subscriber_request argv of
                  Inl code \<Rightarrow> Some ([], code)
                | Inr request \<Rightarrow>
                    (case session request of
                       Inl failure \<Rightarrow> Some ([], 1)
                     | Inr subscription \<Rightarrow>
                         (case handle_calls early new_handler of (first_lines, h) \<Rightarrow>
                            map_option (\<lambda>(lines, h). case handle_calls late h of (last_lines, h) \<Rightarrow>
                                (first_lines @ subscribed_line subscription @ lines @ last_lines @ received_line h, 0))
                              (poll_loop False intervals h))))))"

text \<open>
  The calls the example publisher makes and its exit code; \<open>rounds\<close> is the number of objects until the interrupt. None of the
  calls throws: the reasons they end a subscription with are short.
\<close>

definition publisher_main ::
  "(MsQuicClientConfig \<Rightarrow> string option) \<Rightarrow> nat \<Rightarrow> string list \<Rightarrow> publisher_event list \<times> int" where
  "publisher_main ready_session rounds argv =
     (case publisher_arguments argv of
        Inl code \<Rightarrow> ([], code)
      | Inr (config, use_datagrams, key) \<Rightarrow>
          (case ready_session config of
             Some failure \<Rightarrow> ([], 1)
           | None \<Rightarrow> (publisher_calls key use_datagrams rounds, 0)))"

section \<open>Properties\<close>

text \<open>The example publisher exits with 0 exactly when it came to publish, and has then closed its session.\<close>

lemma publisher_main_closes:
  "snd (publisher_main ready_session rounds argv) = 0 \<longleftrightarrow> fst (publisher_main ready_session rounds argv) \<noteq> []"
  "fst (publisher_main ready_session rounds argv) \<noteq> [] \<Longrightarrow> last (fst (publisher_main ready_session rounds argv)) = PubClose Close_NoError"
  "length (filter (\<lambda>e. \<exists>object. e = PubPublish object) (publisher_calls key use_datagrams rounds)) = rounds"
proof -
  have "length (example_loop rounds key use_datagrams g ob) = rounds" for g ob
    by (induction rounds key use_datagrams g ob rule: example_loop.induct) (simp_all add: Let_def)
  then show "length (filter (\<lambda>e. \<exists>object. e = PubPublish object) (publisher_calls key use_datagrams rounds)) = rounds"
    by (simp add: publisher_calls_def filter_map comp_def)
  have "code \<noteq> 0" if "publisher_arguments argv = Inl code" for code
    using that by (auto simp: publisher_arguments_def Let_def split: if_splits option.splits sum.splits)
  then show "snd (publisher_main ready_session rounds argv) = 0 \<longleftrightarrow> fst (publisher_main ready_session rounds argv) \<noteq> []"
    by (auto simp: publisher_main_def publisher_calls_def split: sum.splits option.splits prod.splits)
  show "last (fst (publisher_main ready_session rounds argv)) = PubClose Close_NoError"
    if "fst (publisher_main ready_session rounds argv) \<noteq> []"
    using that by (auto simp: publisher_main_def publisher_calls_def split: sum.splits option.splits prod.splits)
qed

definition objects_of :: "handler_call list \<Rightarrow> Object list" where
  "objects_of calls = List.map_filter (\<lambda>c. case c of HandlerObject object \<Rightarrow> Some object | _ \<Rightarrow> None) calls"

definition stops :: "handler_call \<Rightarrow> bool" where
  "stops c = (case c of HandlerObject _ \<Rightarrow> False | _ \<Rightarrow> True)"

lemma handle_calls_state:
  "ph_object_count (snd (handle_calls calls h)) = ph_object_count h + word_of_nat (length (objects_of calls))"
  "ph_total_payload_bytes (snd (handle_calls calls h)) =
     ph_total_payload_bytes h + word_of_nat (sum_list (map (\<lambda>ob. length (obj_payload ob)) (objects_of calls)))"
  "ph_stopped (snd (handle_calls calls h)) \<longleftrightarrow> ph_stopped h \<or> list_ex stops calls"
proof (induction calls arbitrary: h)
  case (Cons c calls)
  {
    case 1 show ?case using Cons(1) by (cases c) (simp_all add: case_prod_beta' objects_of_def map_filter_simps print_object_def
      print_publish_done_def print_error_def Let_def)
  next
    case 2 show ?case using Cons(2) by (cases c) (simp_all add: case_prod_beta' objects_of_def map_filter_simps print_object_def
      print_publish_done_def print_error_def Let_def add.assoc)
  next
    case 3 show ?case using Cons(3) by (cases c) (simp_all add: case_prod_beta' stops_def print_object_def
      print_publish_done_def print_error_def Let_def)
  }
qed (simp_all add: objects_of_def)

lemma handle_calls_append: "snd (handle_calls (xs @ ys) h) = snd (handle_calls ys (snd (handle_calls xs h)))"
  by (induction xs arbitrary: h) (simp_all add: case_prod_beta')

text \<open>The loop ends with the first interval in which the track ended or an error was reported, and only then.\<close>

lemma poll_loop_ends:
  assumes "\<not> ph_stopped h" "list_all (\<lambda>calls. \<not> list_ex stops calls) earlier" "list_ex stops calls"
  shows "\<exists>lines. poll_loop False (earlier @ calls # later) h = Some (lines, snd (handle_calls (concat earlier @ calls) h))"
  using assms
proof (induction earlier arbitrary: h)
  case Nil
  then show ?case
    using handle_calls_state(3) [of calls h] by (simp add: poll_loop.simps [of False _ h] poll_loop.simps [of False later] case_prod_beta') (metis prod.collapse)
next
  case (Cons cs earlier)
  have "\<not> ph_stopped (snd (handle_calls cs h))" using Cons.prems handle_calls_state(3) [of cs h] by simp
  from Cons.IH [OF this] Cons.prems show ?case
    by (auto simp: poll_loop.simps [of False _ h] case_prod_beta' handle_calls_append)
qed

lemma poll_loop_runs:
  "\<not> ph_stopped h \<Longrightarrow> list_all (\<lambda>calls. \<not> list_ex stops calls) intervals \<Longrightarrow> poll_loop False intervals h = None"
proof (induction intervals arbitrary: h)
  case (Cons calls intervals)
  have "\<not> ph_stopped (snd (handle_calls calls h))" using Cons.prems handle_calls_state(3) [of calls h] by simp
  with Cons show ?case by (simp add: poll_loop.simps [of False _ h] case_prod_beta')
qed (simp add: poll_loop.simps)

lemma subscriber_main_returns:
  assumes ok: "subscriber_arguments argv = Inr config" "ready_session config = None" "subscriber_request argv = Inr request"
      "session request = Inr subscription"
    and seen: "\<not> list_ex stops early" "list_all (\<lambda>calls. \<not> list_ex stops calls) earlier" "list_ex stops calls"
  shows "\<exists>lines h. subscriber_main ready_session session early (earlier @ calls # later) late argv = Some (lines @ received_line h, 0)
    \<and> ph_object_count h = word_of_nat (length (objects_of (early @ concat earlier @ calls @ late)))
    \<and> ph_total_payload_bytes h = word_of_nat (sum_list (map (\<lambda>ob. length (obj_payload ob)) (objects_of (early @ concat earlier @ calls @ late))))"
proof -
  let ?first = "snd (handle_calls early new_handler)" and ?final = "snd (handle_calls (early @ concat earlier @ calls @ late) new_handler)"
  have new: "\<not> ph_stopped new_handler" "ph_object_count new_handler = 0" "ph_total_payload_bytes new_handler = 0" by (simp_all add: new_handler_def)
  then have "\<not> ph_stopped ?first" using seen(1) handle_calls_state(3) by simp
  from poll_loop_ends [OF this seen(2,3), of later] obtain lines where
    "poll_loop False (earlier @ calls # later) ?first = Some (lines, snd (handle_calls (concat earlier @ calls) ?first))" by blast
  then have "\<exists>lines. subscriber_main ready_session session early (earlier @ calls # later) late argv = Some (lines @ received_line ?final, 0)"
    using ok by (auto simp: subscriber_main_def case_prod_beta' handle_calls_append intro: exI [of _ "u @ v @ x @ y" for u v x y])
  then show ?thesis using handle_calls_state(1,2) [of "early @ concat earlier @ calls @ late" new_handler] new by auto
qed

text \<open>Without the end of the track and without an error the program does not end: no interrupt reaches the loop.\<close>

lemma subscriber_main_runs:
  assumes ok: "subscriber_arguments argv = Inr config" "ready_session config = None" "subscriber_request argv = Inr request"
      "session request = Inr subscription"
    and "\<not> list_ex stops early" "list_all (\<lambda>calls. \<not> list_ex stops calls) intervals"
  shows "subscriber_main ready_session session early intervals late argv = None"
proof -
  have "\<not> ph_stopped (snd (handle_calls early new_handler))" using assms(5) handle_calls_state(3) [of early new_handler] by (simp add: new_handler_def)
  from poll_loop_runs [OF this assms(6)] ok show ?thesis by (simp add: subscriber_main_def case_prod_beta')
qed

end
