(* ===== verification/Interop_Client.thy ===== *)
theory Interop_Client
  imports Arguments
begin

text \<open>
  \<^verbatim>\<open>tools/moqtopus_interop_client.cpp\<close>: the tests of the interop client, its report and
  its exit code. What the sessions do during a test depends on the relay, so the results of the
  calls a test makes on them are a parameter, the record \<open>peer\<close>: a call throws or returns, and
  a future is not ready in time, has a value or throws. The calls are recorded in their order;
  the sessions that go out of scope at the end of a test and the delays between the calls are not.
\<close>

section \<open>Results\<close>

text \<open>\<open>what()\<close> of a \<^verbatim>\<open>RequestRejected\<close>.\<close>

definition rejected_what :: "RequestError \<Rightarrow> string" where
  "rejected_what e =
     ''MOQT request rejected: code='' @ to_string (unat (re_code e))
       @ (if re_reason e = [] then [] else '' reason='' @ re_reason e)"

record TestResult =
  tr_passed :: bool
  tr_message :: string
  tr_expected :: string
  tr_received :: string
  tr_duration_ms :: nat

definition new_result :: TestResult where
  "new_result = \<lparr>tr_passed = False, tr_message = [], tr_expected = [], tr_received = [], tr_duration_ms = 0\<rparr>"

datatype 'a future = NotReady | Value 'a | Raises promise_error

text \<open>A call that may throw gives the text of its exception.\<close>

record peer =
  pe_connect_subscriber :: "MsQuicClientConfig \<Rightarrow> string option"
  pe_subscriber_ready :: "unit future"
  pe_connect_publisher :: "MsQuicClientConfig \<Rightarrow> string option"
  pe_publisher_ready :: "unit future"
  pe_register_track :: "string option"
  pe_unregister_track :: "string option"
  pe_subscribe :: "SubscribeRequest \<Rightarrow> string + RequestId future"
  pe_stop_subscription :: "string option"

datatype tool_call =
    ConnectedSubscriber MsQuicClientConfig
  | ConnectedPublisher MsQuicClientConfig
  | ClosedSession
  | RegisteredTrack PublishedTrack
  | UnregisteredTrack TrackNamespace TrackName
  | Subscribed SubscribeRequest
  | StoppedSubscription RequestId

section \<open>Running a test\<close>

text \<open>A statement of \<open>RunTest\<close> throws or goes on, with the result and the calls so far.\<close>

record test_state =
  ts_result :: TestResult
  ts_calls :: "tool_call list"

type_synonym 'a test = "test_state \<Rightarrow> (promise_error + 'a) \<times> test_state"

definition treturn :: "'a \<Rightarrow> 'a test" where
  "treturn x s = (Inr x, s)"

definition tthrow :: "promise_error \<Rightarrow> 'a test" where
  "tthrow e s = (Inl e, s)"

definition tbind :: "'a test \<Rightarrow> ('a \<Rightarrow> 'b test) \<Rightarrow> 'b test" where
  "tbind f g s = (case f s of (Inl e, s) \<Rightarrow> (Inl e, s) | (Inr x, s) \<Rightarrow> g x s)"

text \<open>Statements in sequence; the list reads like the block it translates.\<close>

fun tblock :: "unit test list \<Rightarrow> unit test" where
  "tblock [] = treturn ()"
| "tblock (f # fs) = tbind f (\<lambda>_. tblock fs)"

definition catch_rejected :: "unit test \<Rightarrow> unit test" where
  "catch_rejected f s = (case f s of (Inl (PRejected e), s) \<Rightarrow> (Inr (), s) | r \<Rightarrow> r)"

definition expect :: "string \<Rightarrow> unit test" where
  "expect what s = (Inr (), s\<lparr>ts_result := (ts_result s)\<lparr>tr_expected := what\<rparr>\<rparr>)"

definition receive :: "string \<Rightarrow> unit test" where
  "receive what s = (Inr (), s\<lparr>ts_result := (ts_result s)\<lparr>tr_received := what\<rparr>\<rparr>)"

definition tcall :: "tool_call \<Rightarrow> string option \<Rightarrow> unit test" where
  "tcall c failure s =
     (let s = s\<lparr>ts_calls := ts_calls s @ [c]\<rparr>
      in case failure of None \<Rightarrow> (Inr (), s) | Some what \<Rightarrow> (Inl (PError what), s))"

definition get_future :: "'a future \<Rightarrow> string \<Rightarrow> 'a test" where
  "get_future f timeout =
     (case f of NotReady \<Rightarrow> tthrow (PError timeout) | Value x \<Rightarrow> treturn x | Raises e \<Rightarrow> tthrow e)"

definition WaitUntilReady :: "unit future \<Rightarrow> unit test" where
  "WaitUntilReady f =
     (case f of
        NotReady \<Rightarrow> tbind (tcall ClosedSession None) (\<lambda>_. tthrow (PError ''timeout waiting for peer SETUP''))
      | _ \<Rightarrow> get_future f [])"

definition client_config :: "Options \<Rightarrow> MsQuicClientConfig test" where
  "client_config options =
     (case MakeClientConfig options of Inl e \<Rightarrow> tthrow (PError (exn_what e)) | Inr config \<Rightarrow> treturn config)"

definition ConnectSubscriber :: "peer \<Rightarrow> Options \<Rightarrow> unit test" where
  "ConnectSubscriber p options =
     tbind (client_config options) (\<lambda>config.
       tblock [tcall (ConnectedSubscriber config) (pe_connect_subscriber p config), WaitUntilReady (pe_subscriber_ready p)])"

definition ConnectPublisher :: "peer \<Rightarrow> Options \<Rightarrow> unit test" where
  "ConnectPublisher p options =
     tbind (client_config options) (\<lambda>config.
       tblock [tcall (ConnectedPublisher config) (pe_connect_publisher p config), WaitUntilReady (pe_publisher_ready p)])"

definition subscribe_future :: "peer \<Rightarrow> SubscribeRequest \<Rightarrow> RequestId future test" where
  "subscribe_future p request =
     (case pe_subscribe p request of
        Inl what \<Rightarrow> tbind (tcall (Subscribed request) (Some what)) (\<lambda>_. treturn NotReady)
      | Inr f \<Rightarrow> tbind (tcall (Subscribed request) None) (\<lambda>_. treturn f))"

text \<open>A future that is ready is read later, with \<open>get\<close>.\<close>

definition wait_for :: "'a future \<Rightarrow> string \<Rightarrow> unit test" where
  "wait_for f timeout = (case f of NotReady \<Rightarrow> tthrow (PError timeout) | _ \<Rightarrow> treturn ())"

definition stop_test_subscription :: "peer \<Rightarrow> RequestId \<Rightarrow> unit test" where
  "stop_test_subscription p request_id = tcall (StoppedSubscription request_id) (pe_stop_subscription p)"

definition kTestNamespace :: TrackNamespace where "kTestNamespace = [''moq-test'', ''interop'']"
definition kTestTrack :: TrackName where "kTestTrack = ''test-track''"

definition test_request :: SubscribeRequest where
  "test_request = \<lparr>sr_namespace = kTestNamespace, sr_name = kTestTrack, sr_parameters = []\<rparr>"

definition missing_request :: SubscribeRequest where
  "missing_request = \<lparr>sr_namespace = [''nonexistent'', ''namespace''], sr_name = kTestTrack, sr_parameters = []\<rparr>"

definition test_track :: PublishedTrack where
  "test_track = \<lparr>pt_namespace = kTestNamespace, pt_name = kTestTrack, pt_properties = []\<rparr>"

definition register_test_track :: "peer \<Rightarrow> unit test" where
  "register_test_track p = tcall (RegisteredTrack test_track) (pe_register_track p)"

definition test_body :: "string \<Rightarrow> peer \<Rightarrow> Options \<Rightarrow> unit test" where
  "test_body name p options =
     (if name = ''setup-only'' then
        tblock [expect ''peer SETUP'', ConnectSubscriber p options]
      else if name = ''announce-only'' \<or> name = ''publish-namespace-done'' then
        tblock
          [expect ''REQUEST_OK for PUBLISH_NAMESPACE'', ConnectPublisher p options, register_test_track p,
           if name = ''publish-namespace-done''
           then tblock [expect ''PUBLISH_NAMESPACE followed by request stream cancellation'',
                        tcall (UnregisteredTrack kTestNamespace kTestTrack) (pe_unregister_track p)]
           else treturn ()]
      else if name = ''subscribe-error'' then
        tblock
          [expect ''REQUEST_ERROR'', ConnectSubscriber p options,
           tbind (subscribe_future p missing_request) (\<lambda>f. tblock
             [wait_for f ''timeout waiting for REQUEST_ERROR'',
              catch_rejected (tbind (get_future f []) (\<lambda>request_id. tblock
                [stop_test_subscription p request_id, receive ''SUBSCRIBE_OK'',
                 tthrow (PError ''relay accepted a subscription to a non-existent track'')]))])]
      else if name = ''announce-subscribe'' then
        tblock
          [expect ''SUBSCRIBE_OK routed to publisher'', ConnectPublisher p options, register_test_track p,
           ConnectSubscriber p options,
           tbind (subscribe_future p test_request) (\<lambda>f. tblock
             [wait_for f ''timeout waiting for SUBSCRIBE_OK'',
              tbind (get_future f []) (stop_test_subscription p)])]
      else
        tblock
          [expect ''SUBSCRIBE_OK or REQUEST_ERROR'', ConnectSubscriber p options,
           tbind (subscribe_future p test_request) (\<lambda>f. tblock
             [ConnectPublisher p options, register_test_track p,
              wait_for f ''timeout waiting for SUBSCRIBE_OK or REQUEST_ERROR'',
              catch_rejected (tbind (get_future f []) (stop_test_subscription p))])])"

definition RunTest :: "string \<Rightarrow> peer \<Rightarrow> nat \<Rightarrow> Options \<Rightarrow> TestResult \<times> tool_call list" where
  "RunTest name p duration options =
     (case test_body name p options \<lparr>ts_result = new_result, ts_calls = []\<rparr> of (r, s) \<Rightarrow>
        let result = ts_result s;
            result = (case r of
              Inr _ \<Rightarrow> result\<lparr>tr_passed := True, tr_expected := []\<rparr>
            | Inl (PRejected e) \<Rightarrow> result\<lparr>tr_message := rejected_what e, tr_received := ''REQUEST_ERROR''\<rparr>
            | Inl (PError what) \<Rightarrow> result\<lparr>tr_message := what,
                tr_received := (if tr_received result = [] then ''connection or protocol failure'' else tr_received result)\<rparr>)
        in (result\<lparr>tr_duration_ms := duration\<rparr>, ts_calls s))"

section \<open>The report\<close>

definition newline :: char where "newline = CHR 0x0A"
definition quote :: char where "quote = CHR 0x22"
definition backslash :: char where "backslash = CHR 0x5C"

fun EscapeYaml :: "string \<Rightarrow> string" where
  "EscapeYaml [] = []"
| "EscapeYaml (ch # value) =
     (if ch = backslash \<or> ch = quote then [backslash] else []) @ [if ch = newline then CHR '' '' else ch] @ EscapeYaml value"

definition yaml_line :: "string \<Rightarrow> string \<Rightarrow> string" where
  "yaml_line key value = (if value = [] then [] else ''  '' @ key @ '': '' @ [quote] @ EscapeYaml value @ [quote, newline])"

definition PrintResult :: "nat \<Rightarrow> string \<Rightarrow> TestResult \<Rightarrow> string" where
  "PrintResult number name result =
     (if tr_passed result then ''ok '' else ''not ok '') @ to_string number @ '' - '' @ name @ [newline]
     @ ''  ---'' @ [newline]
     @ ''  duration_ms: '' @ to_string (tr_duration_ms result) @ [newline]
     @ yaml_line ''message'' (tr_message result)
     @ yaml_line ''expected'' (tr_expected result)
     @ yaml_line ''received'' (tr_received result)
     @ ''  ...'' @ [newline]"

section \<open>The program\<close>

definition kTestNames :: "string list" where
  "kTestNames = [''setup-only'', ''announce-only'', ''publish-namespace-done'', ''subscribe-error'',
     ''announce-subscribe'', ''subscribe-before-announce'']"

definition kExitSuccess :: int where "kExitSuccess = 0"
definition kExitFailure :: int where "kExitFailure = 1"
definition kExitUnsupported :: int where "kExitUnsupported = 127"

text \<open>The loop over the tests: the report and whether a test failed.\<close>

fun run_tests :: "nat \<Rightarrow> (nat \<Rightarrow> peer) \<Rightarrow> (nat \<Rightarrow> nat) \<Rightarrow> Options \<Rightarrow> string list \<Rightarrow> bool \<Rightarrow> bool \<times> string" where
  "run_tests i peers durations options [] failed = (failed, [])"
| "run_tests i peers durations options (name # names) failed =
     (let result = fst (RunTest name (peers i) (durations i) options)
      in case run_tests (i + 1) peers durations options names (failed \<or> \<not> tr_passed result) of
           (failed, out) \<Rightarrow> (failed, PrintResult (i + 1) name result @ out))"

definition run_selected :: "Options \<Rightarrow> string list \<Rightarrow> (nat \<Rightarrow> peer) \<Rightarrow> (nat \<Rightarrow> nat) \<Rightarrow> int \<times> string \<times> string" where
  "run_selected options tests peers durations =
     (case run_tests 0 peers durations options tests False of (failed, out) \<Rightarrow>
        (if failed then kExitFailure else kExitSuccess,
         ''TAP version 14'' @ [newline] @ ''# moqtopus interop client'' @ [newline]
           @ ''# Relay: '' @ op_relay_url options @ [newline] @ ''# Draft: draft-18'' @ [newline]
           @ ''1..'' @ to_string (length tests) @ [newline] @ out,
         []))"

text \<open>The exit code, the standard output and the standard error; \<open>peers i\<close> and \<open>durations i\<close> are those of the \<open>i\<close>-th test.\<close>

definition interop_main ::
  "(string \<Rightarrow> string option) \<Rightarrow> string list \<Rightarrow> (nat \<Rightarrow> peer) \<Rightarrow> (nat \<Rightarrow> nat) \<Rightarrow> int \<times> string \<times> string" where
  "interop_main getenv args peers durations =
     (case ParseOptions getenv args of
        Inl e \<Rightarrow> (kExitFailure, [], ''moqtopus interop client: '' @ exn_what e @ [newline])
      | Inr options \<Rightarrow>
          if op_list options then (kExitSuccess, concat (map (\<lambda>name. name @ [newline]) kTestNames), [])
          else case op_testcase options of
            Some testcase \<Rightarrow>
              if testcase \<notin> set kTestNames
              then (kExitUnsupported, [], ''unsupported test: '' @ testcase @ [newline])
              else run_selected options [testcase] peers durations
          | None \<Rightarrow> run_selected options kTestNames peers durations)"

end
