(* ===== verification/Tool_Properties.thy ===== *)
theory Tool_Properties
  imports Interop_Client
begin

text \<open>
  What the command lines of the programs mean: the arguments they accept and the verdict of the
  interop client.
\<close>

section \<open>Searching strings\<close>

lemma takeWhile_neq_append: "c \<notin> set xs \<Longrightarrow> takeWhile (\<lambda>d. d \<noteq> c) (xs @ c # ys) = xs"
  by (induction xs) auto

lemma takeWhile_neq_all: "c \<notin> set xs \<Longrightarrow> takeWhile (\<lambda>d. d \<noteq> c) xs = xs"
  by (induction xs) auto

lemma find_char_append: "c \<notin> set xs \<Longrightarrow> find_char c (pre @ xs @ c # ys) (length pre) = Some (length pre + length xs)"
  by (simp add: find_char_def takeWhile_neq_append Let_def)

lemma find_char_none: "c \<notin> set xs \<Longrightarrow> find_char c (pre @ xs) (length pre) = None"
  by (simp add: find_char_def takeWhile_neq_all Let_def)

lemma rfind_char_append: "c \<notin> set ys \<Longrightarrow> rfind_char c (xs @ c # ys) = Some (length xs)"
  using takeWhile_neq_append [of c "rev ys" "rev xs"] by (simp add: rfind_char_def Let_def)

section \<open>The relay URL\<close>

text \<open>The relay URL made of a host, a port and an optional path is parsed into them: the
  host may contain colons, as an IPv6 address does, and without a path it is the root.\<close>

theorem relay_url_roundtrip:
  assumes host: "host \<noteq> []" "CHR ''/'' \<notin> set host" and port: "port \<noteq> 0" and path: "path = [] \<or> hd path = CHR ''/''"
  shows "ParseRelayUrl (''moqt://'' @ host @ '':'' @ to_string (unat port) @ path)
    = Inr \<lparr>rep_host = host, rep_port = port, rep_path = (if path = [] then ''/'' else path)\<rparr>"
proof -
  let ?digits = "to_string (unat port)"
  let ?authority = "host @ '':'' @ ?digits"
  have digit: "is_digit d" if "d \<in> set ?digits" for d using to_string_digits [of "unat port"] that by (auto simp: list_all_iff)
  then have slash: "CHR ''/'' \<notin> set ?authority" and colon: "CHR '':'' \<notin> set ?digits" using host(2) is_digitD(4,5) by auto
  have f: "find_char (CHR ''/'') (?authority @ path) 0 = (if path = [] then None else Some (length ?authority))"
  proof (cases path)
    case Nil then show ?thesis using find_char_none [OF slash, of "[]"] by simp
  next
    case (Cons c rest)
    with path have "path = CHR ''/'' # rest" by simp
    then show ?thesis using find_char_append [OF slash, of "[]" rest] by simp
  qed
  have r: "rfind_char (CHR '':'') ?authority = Some (length host)" using rfind_char_append [OF colon, of host] by simp
  have p: "ParsePort (drop (Suc (length host)) ?authority) = Inr port" using ParsePort_to_string [OF port] by simp
  show ?thesis using f r p host(1) by (cases "path = []") (simp_all add: ParseRelayUrl_def substr_def Let_def)
qed

theorem relay_url_roundtrip_witness:
  "ParseRelayUrl ''moqt://[::1]:4443/live'' = Inr \<lparr>rep_host = ''[::1]'', rep_port = 4443, rep_path = ''/live''\<rparr>"
proof -
  have "to_string (unat (4443 :: u16)) = ''4443''" by code_simp
  then show ?thesis using relay_url_roundtrip [of "''[::1]''" 4443 "''/live''"] by simp
qed

text \<open>The port of the example programs may be followed by anything, and a negative number counts modulo \<open>2 ^ 64\<close>.\<close>

lemma example_port_garbage: "example_ParsePort ''4433x'' = Some 4433" "example_ParsePort ''-18446744073709551615'' = Some 1"
  by code_simp+

section \<open>Namespaces\<close>

definition namespace_field :: "string \<Rightarrow> bool" where
  "namespace_field f \<longleftrightarrow> f \<noteq> [] \<and> CHR ''/'' \<notin> set f"

fun joined :: "string list \<Rightarrow> string" where
  "joined [] = []"
| "joined (f # fs) = f @ (if fs = [] then [] else CHR ''/'' # joined fs)"

lemma namespace_text_from_joined:
  "acc \<noteq> [] \<Longrightarrow> namespace_text_from acc fs = acc @ (if fs = [] then [] else CHR ''/'' # joined fs)"
  by (induction fs arbitrary: acc) auto

lemma namespace_text_joined: "list_all namespace_field fs \<Longrightarrow> namespace_text fs = joined fs"
  by (cases fs) (auto simp: namespace_text_def namespace_text_from_joined namespace_field_def)

lemma joined_first:
  "namespace_field f \<Longrightarrow> list_all namespace_field fs \<Longrightarrow> takeWhile (\<lambda>d. d \<noteq> CHR ''/'') (joined (f # fs) @ tail)
     = (if fs = [] then f @ takeWhile (\<lambda>d. d \<noteq> CHR ''/'') tail else f)"
  by (auto simp: namespace_field_def takeWhile_neq_append takeWhile_append)

text \<open>One round of the loop, on what is left of the string.\<close>

lemma ParseNamespace_round:
  assumes f: "CHR ''/'' \<notin> set f"
  shows "ParseNamespace_from (pre @ f @ CHR ''/'' # rest) (length pre) names =
      (if f = [] then Inl (invalid_argument ''namespace fields must not be empty'')
       else ParseNamespace_from ((pre @ f @ ''/'') @ rest) (length (pre @ f @ ''/'')) (names @ [f]))"
    and "f \<noteq> [] \<Longrightarrow> ParseNamespace_from (pre @ f) (length pre) names = Inr (names @ [f])"
  using find_char_append [OF f, of pre rest] find_char_none [OF f, of pre]
  by (auto simp: ParseNamespace_from.simps [of _ "length pre"] substr_def Let_def)

lemma joined_cut:
  assumes ok: "list_all namespace_field fs" and f: "CHR ''/'' \<notin> set f"
  shows "(f @ CHR ''/'' # rest = joined fs \<or> fs \<noteq> [] \<and> f @ CHR ''/'' # rest = joined fs @ ''/'') \<longleftrightarrow>
    (\<exists>gs. fs = f # gs \<and> (rest = joined gs \<or> gs \<noteq> [] \<and> rest = joined gs @ ''/''))"
proof (cases fs)
  case Nil then show ?thesis by auto
next
  case (Cons h gs)
  have h: "namespace_field h" "list_all namespace_field gs" using ok Cons by simp_all
  have "h = f" if "f @ CHR ''/'' # rest = joined fs \<or> f @ CHR ''/'' # rest = joined fs @ ''/''"
  proof -
    have "takeWhile (\<lambda>d. d \<noteq> CHR ''/'') (f @ CHR ''/'' # rest) = f" by (rule takeWhile_neq_append [OF f])
    then show ?thesis
      using that joined_first [OF h, of "[]"] joined_first [OF h, of "''/''"] Cons
      by (auto split: if_splits simp del: joined.simps)
  qed
  moreover have "(f @ CHR ''/'' # rest = joined (f # gs) \<or> f @ CHR ''/'' # rest = joined (f # gs) @ ''/'') \<longleftrightarrow>
      rest = joined gs \<or> gs \<noteq> [] \<and> rest = joined gs @ ''/''"
    by (cases gs) auto
  ultimately show ?thesis using Cons by blast
qed

lemma joined_plain:
  "list_all namespace_field fs \<Longrightarrow> CHR ''/'' \<notin> set f \<Longrightarrow> f \<noteq> [] \<Longrightarrow> (f = joined fs \<or> fs \<noteq> [] \<and> f = joined fs @ ''/'') \<longleftrightarrow> fs = [f]"
  by (cases fs) (auto split: if_splits)

lemma joined_Nil:
  "list_all namespace_field fs \<Longrightarrow> joined fs = [] \<longleftrightarrow> fs = []" "list_all namespace_field fs \<Longrightarrow> [] = joined fs \<longleftrightarrow> fs = []"
  by (cases fs; auto simp: namespace_field_def)+

lemma ParseNamespace_from_iff:
  "ParseNamespace_from (pre @ rest) (length pre) names = Inr ns \<longleftrightarrow>
     (\<exists>fs. ns = names @ fs \<and> list_all namespace_field fs \<and> (rest = joined fs \<or> fs \<noteq> [] \<and> rest = joined fs @ ''/''))"
proof (induction "length rest" arbitrary: rest pre names rule: less_induct)
  case less
  consider (empty) "rest = []" | (last) "rest \<noteq> []" "CHR ''/'' \<notin> set rest"
    | (more) f rest' where "rest = f @ CHR ''/'' # rest'" "CHR ''/'' \<notin> set f"
    by (metis split_list_first)
  then show ?case
  proof cases
    case empty
    then show ?thesis by (auto simp: ParseNamespace_from.simps [of _ "length pre"] joined_Nil)
  next
    case last
    have "namespace_field rest" using last by (simp add: namespace_field_def)
    then have "list_all namespace_field fs \<and> (rest = joined fs \<or> fs \<noteq> [] \<and> rest = joined fs @ ''/'') \<longleftrightarrow> fs = [rest]" for fs
      using joined_plain [OF _ last(2,1), of fs] by auto
    then show ?thesis using ParseNamespace_round(2) [OF last(2,1), of pre names] by (metis sum.inject(2))
  next
    case more
    have "length rest' < length rest" using more(1) by simp
    note IH = less [OF this, of "pre @ f @ ''/''" "names @ [f]"]
    have field: "namespace_field f \<longleftrightarrow> f \<noteq> []" using more(2) by (simp add: namespace_field_def)
    have cut: "(\<exists>fs. ns = names @ fs \<and> list_all namespace_field fs \<and> (rest = joined fs \<or> fs \<noteq> [] \<and> rest = joined fs @ ''/'')) \<longleftrightarrow>
        f \<noteq> [] \<and> (\<exists>gs. ns = (names @ [f]) @ gs \<and> list_all namespace_field gs \<and> (rest' = joined gs \<or> gs \<noteq> [] \<and> rest' = joined gs @ ''/''))"
      using joined_cut [OF _ more(2), of _ rest'] field unfolding more(1) by fastforce
    show ?thesis unfolding cut IH [symmetric] using ParseNamespace_round(1) [OF more(2), of pre rest' names] more(1) by simp
  qed
qed

text \<open>C32: the namespace on a command line is parsed back from the text the publisher prints of it, and
  nothing else is accepted but the same text with one slash more at its end.\<close>

theorem parse_namespace_iff:
  "ParseNamespace value = Inr ns \<longleftrightarrow>
     list_all namespace_field ns \<and> (value = namespace_text ns \<or> ns \<noteq> [] \<and> value = namespace_text ns @ ''/'')"
  using ParseNamespace_from_iff [of "[]" "value" "[]" ns] namespace_text_joined [of ns]
  by (auto simp: ParseNamespace_def)

section \<open>The report of the interop client\<close>

text \<open>What a reader of the report makes of an escaped text: the text, with blanks for line breaks.\<close>

fun unescape :: "string \<Rightarrow> string" where
  "unescape (c # d # s) = (if c = backslash then d # unescape s else c # unescape (d # s))"
| "unescape s = s"

lemma escape_nonempty: "EscapeYaml s = [] \<longleftrightarrow> s = []"
  by (cases s) auto

lemma unescape_other: "c \<noteq> backslash \<Longrightarrow> unescape (c # s) = c # unescape s"
  by (cases s) auto

lemma escape_roundtrip:
  "unescape (EscapeYaml s) = map (\<lambda>c. if c = newline then CHR '' '' else c) s" "newline \<notin> set (EscapeYaml s)"
  by (induction s) (auto simp: unescape_other newline_def quote_def backslash_def)

section \<open>The verdict of a test\<close>

text \<open>What each test asks of the relay.\<close>

definition connects :: "(MsQuicClientConfig \<Rightarrow> string option) \<Rightarrow> unit future \<Rightarrow> Options \<Rightarrow> bool" where
  "connects connect answer options \<longleftrightarrow> (\<exists>config. MakeClientConfig options = Inr config \<and> connect config = None \<and> answer = Value ())"

definition accepted :: "peer \<Rightarrow> bool" where
  "accepted p \<longleftrightarrow> (\<exists>i. pe_subscribe p test_request = Inr (Value i)) \<and> pe_stop_subscription p = None"

definition test_holds :: "string \<Rightarrow> peer \<Rightarrow> Options \<Rightarrow> bool" where
  "test_holds name p options \<longleftrightarrow>
     (let sub = connects (pe_connect_subscriber p) (pe_subscriber_ready p) options;
          pub = connects (pe_connect_publisher p) (pe_publisher_ready p) options \<and> pe_register_track p = None
      in if name = ''setup-only'' then sub
         else if name = ''announce-only'' then pub
         else if name = ''publish-namespace-done'' then pub \<and> pe_unregister_track p = None
         else if name = ''subscribe-error'' then sub \<and> (\<exists>e. pe_subscribe p missing_request = Inr (Raises (PRejected e)))
         else if name = ''announce-subscribe'' then pub \<and> sub \<and> accepted p
         else sub \<and> pub \<and> (accepted p \<or> (\<exists>e. pe_subscribe p test_request = Inr (Raises (PRejected e)))))"

named_theorems test_simps \<open>when a statement of a test goes on\<close>

lemma tbind_goes_on [test_simps]:
  "fst (tbind f g s) = Inr y \<longleftrightarrow> (\<exists>x. fst (f s) = Inr x \<and> fst (g x (snd (f s))) = Inr y)"
  by (cases "f s"; cases "fst (f s)") (auto simp: tbind_def)

lemma tblock_goes_on [test_simps]:
  "fst (tblock [] s) = Inr u" "fst (tblock (f # fs) s) = Inr u \<longleftrightarrow> fst (f s) = Inr () \<and> fst (tblock fs (snd (f s))) = Inr ()"
  using tbind_goes_on [of f "\<lambda>_. tblock fs" s u] by (simp_all add: treturn_def)

declare tblock.simps [simp del]

lemma primitives_go_on [test_simps]:
  "fst (treturn x s) = Inr y \<longleftrightarrow> x = y" "fst (tthrow e s) \<noteq> Inr z" "fst (expect what s) = Inr u" "fst (receive what s) = Inr u"
  "fst (tcall c failure s) = Inr u \<longleftrightarrow> failure = None" "fst (get_future f timeout s) = Inr y \<longleftrightarrow> f = Value y"
  "fst (wait_for f timeout s) = Inr u \<longleftrightarrow> f \<noteq> NotReady" "fst (WaitUntilReady r s) = Inr u \<longleftrightarrow> r = Value ()"
  "fst (stop_test_subscription p i s) = Inr u \<longleftrightarrow> pe_stop_subscription p = None"
  "fst (register_test_track p s) = Inr u \<longleftrightarrow> pe_register_track p = None"
  by (auto simp: treturn_def tthrow_def expect_def receive_def tcall_def get_future_def wait_for_def WaitUntilReady_def tbind_def
      stop_test_subscription_def register_test_track_def Let_def split: option.split future.split)

lemma connect_goes_on [test_simps]:
  "fst (ConnectSubscriber p options s) = Inr u \<longleftrightarrow> connects (pe_connect_subscriber p) (pe_subscriber_ready p) options"
  "fst (ConnectPublisher p options s) = Inr u \<longleftrightarrow> connects (pe_connect_publisher p) (pe_publisher_ready p) options"
  by (auto simp: ConnectSubscriber_def ConnectPublisher_def client_config_def connects_def test_simps split: sum.split)

lemma subscribe_goes_on [test_simps]: "fst (subscribe_future p request s) = Inr f \<longleftrightarrow> pe_subscribe p request = Inr f"
  by (auto simp: subscribe_future_def test_simps split: sum.split)

text \<open>Beside going on, a block under \<open>catch\<close> ends well when the future was rejected.\<close>

lemma catch_goes_on [test_simps]:
  "fst (catch_rejected (tbind (get_future f timeout) (stop_test_subscription p)) s) = Inr u \<longleftrightarrow>
     (\<exists>i. f = Value i) \<and> pe_stop_subscription p = None \<or> (\<exists>e. f = Raises (PRejected e))"
  "fst (catch_rejected (tbind (get_future f timeout) (\<lambda>i. tblock [stop_test_subscription p i, receive what, tthrow (PError t)])) s) = Inr u
     \<longleftrightarrow> (\<exists>e. f = Raises (PRejected e))"
  by (cases f; cases "pe_stop_subscription p"; simp add: catch_rejected_def tblock.simps tbind_def get_future_def tthrow_def treturn_def
      stop_test_subscription_def tcall_def receive_def Let_def split: promise_error.split)+

lemma test_body_goes_on: "fst (test_body name p options s) = Inr u \<longleftrightarrow> test_holds name p options"
  by (auto simp: test_body_def test_holds_def accepted_def test_simps Let_def)

definition keeps_passed :: "'a test \<Rightarrow> bool" where
  "keeps_passed f \<longleftrightarrow> (\<forall>s. tr_passed (ts_result (snd (f s))) = tr_passed (ts_result s))"

lemma keeps_bind:
  assumes "keeps_passed f" "\<And>x. keeps_passed (g x)"
  shows "keeps_passed (tbind f g)"
proof -
  have "tr_passed (ts_result (snd (tbind f g s))) = tr_passed (ts_result s)" for s
    using assms by (cases "f s"; cases "fst (f s)") (auto simp: keeps_passed_def tbind_def dest: spec [of _ s])
  then show ?thesis by (simp add: keeps_passed_def)
qed

lemma keeps_block: "list_all keeps_passed fs \<Longrightarrow> keeps_passed (tblock fs)"
  by (induction fs) (simp_all add: tblock.simps keeps_bind, simp add: keeps_passed_def treturn_def)

lemma keeps_primitives:
  "keeps_passed (treturn x)" "keeps_passed (tthrow e)" "keeps_passed (expect what)" "keeps_passed (receive what)"
  "keeps_passed (tcall c failure)" "keeps_passed (get_future f timeout)" "keeps_passed (wait_for f timeout)"
  by (auto simp: keeps_passed_def treturn_def tthrow_def expect_def receive_def tcall_def get_future_def wait_for_def Let_def
      split: option.split future.split)

lemma keeps_catch: "keeps_passed f \<Longrightarrow> keeps_passed (catch_rejected f)"
proof -
  have "snd (catch_rejected f s) = snd (f s)" for s
    by (simp add: catch_rejected_def split: prod.split sum.split promise_error.split)
  then show "keeps_passed f \<Longrightarrow> ?thesis" by (simp add: keeps_passed_def)
qed

lemmas keeps_intros = keeps_primitives keeps_block keeps_bind keeps_catch

lemma keeps_calls: "keeps_passed (ConnectSubscriber p options)" "keeps_passed (ConnectPublisher p options)"
  "keeps_passed (subscribe_future p request)" "keeps_passed (stop_test_subscription p i)" "keeps_passed (register_test_track p)"
  by (simp_all add: ConnectSubscriber_def ConnectPublisher_def client_config_def subscribe_future_def WaitUntilReady_def
      stop_test_subscription_def register_test_track_def keeps_intros split: sum.split future.split)

lemma keeps_body: "keeps_passed (test_body name p options)"
  by (simp add: test_body_def keeps_intros keeps_calls)

lemma RunTest_passed: "tr_passed (fst (RunTest name p duration options)) \<longleftrightarrow> test_holds name p options"
proof -
  let ?s = "\<lparr>ts_result = new_result, ts_calls = []\<rparr>"
  obtain r s where body: "test_body name p options ?s = (r, s)" by fastforce
  have "tr_passed (ts_result (snd (test_body name p options ?s))) = tr_passed new_result"
    using keeps_body [of name p options, unfolded keeps_passed_def, rule_format, of ?s] by simp
  then have "\<not> tr_passed (ts_result s)" using body by (simp add: new_result_def)
  then show ?thesis
    using body test_body_goes_on [of name p options ?s "()"]
    by (cases r) (simp_all add: RunTest_def Let_def split: promise_error.split)
qed

lemma run_tests_failed:
  "fst (run_tests i peers durations options names failed) \<longleftrightarrow>
     failed \<or> \<not> list_all (\<lambda>(j, name). test_holds name (peers j) options) (enumerate i names)"
  by (induction names arbitrary: i failed) (auto simp: RunTest_passed Let_def case_prod_beta)

text \<open>The tests a command line selects.\<close>

definition selected :: "Options \<Rightarrow> string list" where
  "selected options = (case op_testcase options of None \<Rightarrow> kTestNames | Some testcase \<Rightarrow> [testcase])"

text \<open>C31: the exit code of the interop client says what happened: 0 exactly when the names of the
  tests were asked for, or when every selected test is a known one and the relay behaved as the test asks; 127 exactly for a
  test it does not know.\<close>

theorem interop_exit_code:
  "(fst (interop_main getenv args peers durations) = kExitSuccess \<longleftrightarrow>
      (\<exists>options. ParseOptions getenv args = Inr options \<and> (op_list options \<or> set (selected options) \<subseteq> set kTestNames
        \<and> list_all (\<lambda>(i, name). test_holds name (peers i) options) (enumerate 0 (selected options)))))
   \<and> (fst (interop_main getenv args peers durations) = kExitUnsupported \<longleftrightarrow>
      (\<exists>options. ParseOptions getenv args = Inr options \<and> \<not> op_list options \<and> \<not> set (selected options) \<subseteq> set kTestNames))"
proof (cases "ParseOptions getenv args")
  case (Inl e)
  then show ?thesis by (simp add: interop_main_def kExitSuccess_def kExitFailure_def kExitUnsupported_def)
next
  case (Inr options)
  have run: "fst (run_selected options tests peers durations) =
      (if list_all (\<lambda>(i, name). test_holds name (peers i) options) (enumerate 0 tests) then kExitSuccess else kExitFailure)" for tests
    using run_tests_failed [of 0 peers durations options tests False] by (auto simp: run_selected_def split: prod.split)
  show ?thesis
    using Inr by (cases "op_testcase options")
      (simp_all add: interop_main_def run selected_def kExitSuccess_def kExitFailure_def kExitUnsupported_def del: enumerate_simps)
qed

end
