(* ===== verification/Control_Roundtrip.thy ===== *)
theory Control_Roundtrip
  imports Control_Frames
begin

text \<open>
  Each message encoder of \<^verbatim>\<open>src/codec/control.cpp\<close> against its decoder: the
  interface is the locale \<open>message_codec\<close>, interpreted once per message; the theorems are
  about the whole path from the encoder through the frame reader to the decoder.
\<close>

section \<open>Encoding and decoding one message\<close>

locale message_codec =
  fixes kind :: u64
    and enc :: "'a \<Rightarrow> exn + ByteBuffer"
    and body :: "'a \<Rightarrow> exn + ByteBuffer"
    and dec :: "ByteBuffer \<Rightarrow> string + 'b"
    and msg :: "'a \<Rightarrow> 'b"
    and ok :: "'a \<Rightarrow> bool"
  assumes enc_frame: "enc x = ebind (body x) (encode_control_message kind)"
    and dec_body: "ok x \<Longrightarrow> body x = Inr p \<Longrightarrow> dec p = Inr (msg x)"
begin

lemma frame_decodes:
  assumes "ok x" "enc x = Inr frame"
  shows "read_control_message (frame @ rest) 0 =
      \<lparr>cmr_status = Done, cmr_message = \<lparr>cm_type = kind, cm_payload = projr (body x)\<rparr>, cmr_bytes = length frame\<rparr>"
    and "dec (projr (body x)) = Inr (msg x)"
proof -
  from assms(2) obtain p where p: "body x = Inr p" "encode_control_message kind p = Inr frame"
    by (auto simp: enc_frame ebind_def split: sum.splits)
  from read_encoded_message [OF p(2), of "[]" rest] p(1)
  show "read_control_message (frame @ rest) 0 =
      \<lparr>cmr_status = Done, cmr_message = \<lparr>cm_type = kind, cm_payload = projr (body x)\<rparr>, cmr_bytes = length frame\<rparr>"
    by simp
  from dec_body [OF assms(1) p(1)] p(1) show "dec (projr (body x)) = Inr (msg x)" by simp
qed

text \<open>What the peer sees: the message of kind \<open>kind\<close> whose payload decodes to what was sent.\<close>

lemma received:
  assumes "ok x" "enc x = Inr frame"
  shows "cmr_status (read_control_message (frame @ rest) 0) = Done
    \<and> cm_type (cmr_message (read_control_message (frame @ rest) 0)) = kind
    \<and> dec (cm_payload (cmr_message (read_control_message (frame @ rest) 0))) = Inr (msg x)
    \<and> drop (cmr_bytes (read_control_message (frame @ rest) 0)) (frame @ rest) = rest"
  using frame_decodes [OF assms] by simp

end

lemma ebind_eq_Inr: "ebind m f = Inr r \<longleftrightarrow> (\<exists>x. m = Inr x \<and> f x = Inr r)"
  by (auto simp: ebind_def split: sum.splits)

lemma ebind_assoc: "ebind (ebind m f) g = ebind m (\<lambda>x. ebind (f x) g)"
  by (auto simp: ebind_def split: sum.splits)

lemma ebind_Inr [simp]: "ebind (Inr x) f = f x"
  by (simp add: ebind_def)

section \<open>Parameter lists in messages\<close>

definition known_types :: "u64 set" where
  "known_types = {0x02, 0x04, 0x06, 0x08, 0x0a, 0x32, 0x03, 0x21, 0x09, 0x10, 0x20, 0x22, 0x34}"

lemma parameter_encoding_known: "parameter_encoding t \<noteq> None \<longleftrightarrow> t \<in> known_types"
  by (simp add: parameter_encoding_def known_types_def)

lemma parameters_ok_length: "parameters_ok ps \<Longrightarrow> length ps \<le> 13"
proof -
  assume ok: "parameters_ok ps"
  have "card (set (map par_type ps)) = length ps"
    using ok by (simp only: parameters_ok_def distinct_card length_map)
  moreover have "set (map par_type ps) \<subseteq> known_types"
    using ok by (auto simp: parameters_ok_def parameter_encoding_known [symmetric])
  moreover have "card known_types = 13" by (simp add: known_types_def)
  moreover have "finite known_types" by (simp add: known_types_def)
  ultimately show ?thesis by (metis card_mono)
qed

lemma parameters_wire_ok_sorted:
  "parameters_ok ps \<Longrightarrow> \<forall>p \<in> set ps. wf_parameter p \<Longrightarrow> parameters_wire_ok (sort_key par_type ps)"
  using parameters_ok_length [of ps] by (simp add: parameters_wire_ok_def types_ascend_sort_key)

lemma encode_parameters_Inr:
  "encode_parameters payload ps = Inr bs \<longleftrightarrow>
     parameters_ok ps \<and> bs = payload @ parameters_bytes (sort_key par_type ps)"
  by (auto simp: encode_parameters_eq parameters_bytes_def)

lemma Reader_rest_standing [simp]: "Reader_rest (standing pre xs) = Inr (xs, standing (pre @ xs) [])"
  by (simp add: Reader_rest_def Reader_view_def of_option_def read_view_standing)

section \<open>The messages\<close>

definition subscribe_body :: "RequestId \<times> SubscribeRequest \<Rightarrow> exn + ByteBuffer" where
  "subscribe_body x =
     (case x of (rid, req) \<Rightarrow>
        ebind (write_track_namespace (write_varint [] rid) (sr_namespace req)) (\<lambda>payload.
        encode_parameters
          (write_varint payload (word_of_nat (length (sr_name req))) @ bytes_of_string (sr_name req))
          (sr_parameters req)))"

interpretation subscribe_codec: message_codec kMessageSubscribe
  "\<lambda>(rid, req). encode_subscribe rid req" subscribe_body decode_subscribe
  "\<lambda>(rid, req). \<lparr>sub_request_id = rid, sub_namespace = sr_namespace req, sub_name = sr_name req,
     sub_parameters = sort_key par_type (sr_parameters req)\<rparr>"
  "\<lambda>(rid, req). length (sr_name req) \<le> 4096 \<and> (\<forall>p \<in> set (sr_parameters req). wf_parameter p)"
proof (unfold_locales, goal_cases)
  case (1 x)
  show ?case
    by (cases x) (simp add: encode_subscribe_def subscribe_body_def ebind_assoc)
next
  case (2 x p)
  obtain rid req where x: "x = (rid, req)" by (cases x)
  let ?ps = "sort_key par_type (sr_parameters req)"
  from 2 x have ok: "namespace_ok (sr_namespace req)" "parameters_ok (sr_parameters req)"
    and p: "p = write_varint [] rid @ namespace_bytes (sr_namespace req) @ write_string (sr_name req) @ parameters_bytes ?ps"
    by (auto simp: subscribe_body_def ebind_eq_Inr write_track_namespace_eq_Inr encode_parameters_Inr
        write_string_def write_varint_snoc [of "_ @ _"] append_assoc)
  from ok 2 x have w: "parameters_wire_ok ?ps" by (auto intro: parameters_wire_ok_sorted)
  have "parse_subscribe (standing [] p) =
      Inr (\<lparr>sub_request_id = rid, sub_namespace = sr_namespace req, sub_name = sr_name req, sub_parameters = ?ps\<rparr>,
        standing p [])"
    using 2 x w ok(1)
    by (simp add: p parse_subscribe_def varint_format.rd_wr namespace_format.rd_wr string_format.rd_wr
        parameters_format.rd_end)
  then show ?case by (simp add: decode_subscribe_def decode_def standing_start x)
qed

interpretation subscribe_ok_codec: message_codec kMessageSubscribeOk
  "\<lambda>(talias, ps, props). encode_subscribe_ok talias ps props"
  "\<lambda>(talias, ps, props). ebind (encode_parameters (write_varint [] talias) ps) (\<lambda>payload. Inr (payload @ props))"
  decode_subscribe_ok
  "\<lambda>(talias, ps, props). \<lparr>ok_track_alias = talias, ok_parameters = sort_key par_type ps, ok_properties = props\<rparr>"
  "\<lambda>(talias, ps, props). \<forall>p \<in> set ps. wf_parameter p"
proof (unfold_locales, goal_cases)
  case (1 x)
  show ?case by (cases x) (simp add: encode_subscribe_ok_def ebind_assoc)
next
  case (2 x p)
  obtain talias ps props where x: "x = (talias, ps, props)" by (cases x)
  with 2 have w: "parameters_wire_ok (sort_key par_type ps)"
    and p: "p = write_varint [] talias @ parameters_bytes (sort_key par_type ps) @ props"
    by (auto simp: ebind_eq_Inr encode_parameters_Inr intro: parameters_wire_ok_sorted)
  then show ?case
    by (simp add: x decode_subscribe_ok_def decode_def standing_start parse_subscribe_ok_def
        varint_format.rd_wr parameters_format.rd_wr)
qed

interpretation request_update_codec: message_codec kMessageRequestUpdate
  "\<lambda>(rid, ps). encode_request_update rid ps" "\<lambda>(rid, ps). encode_parameters (write_varint [] rid) ps"
  decode_request_update
  "\<lambda>(rid, ps). \<lparr>rum_request_id = rid, rum_parameters = sort_key par_type ps\<rparr>"
  "\<lambda>(rid, ps). \<forall>p \<in> set ps. wf_parameter p"
proof (unfold_locales, goal_cases)
  case (1 x)
  show ?case by (cases x) (simp add: encode_request_update_def)
next
  case (2 x p)
  obtain rid ps where x: "x = (rid, ps)" by (cases x)
  with 2 have w: "parameters_wire_ok (sort_key par_type ps)"
    and p: "p = write_varint [] rid @ parameters_bytes (sort_key par_type ps)"
    by (auto simp: encode_parameters_Inr intro: parameters_wire_ok_sorted)
  then show ?case
    by (simp add: x decode_request_update_def decode_def standing_start parse_request_update_def
        varint_format.rd_wr parameters_format.rd_end)
qed

interpretation request_ok_codec: message_codec kMessageRequestOk
  encode_request_ok "encode_parameters []" decode_request_ok
  "\<lambda>ps. \<lparr>rok_parameters = sort_key par_type ps, rok_properties = []\<rparr>"
  "\<lambda>ps. \<forall>p \<in> set ps. wf_parameter p"
proof (unfold_locales, goal_cases)
  case (1 ps)
  show ?case by (simp add: encode_request_ok_def)
next
  case (2 ps p)
  then have w: "parameters_wire_ok (sort_key par_type ps)" and p: "p = parameters_bytes (sort_key par_type ps)"
    by (auto simp: encode_parameters_Inr intro: parameters_wire_ok_sorted)
  then show ?case
    by (simp add: decode_request_ok_def decode_def standing_start parse_request_ok_def parameters_format.rd_end)
qed

text \<open>The common body of REQUEST_ERROR and PUBLISH_DONE: two integers and a reason.\<close>

definition reason_body :: "u64 \<Rightarrow> u64 \<Rightarrow> string \<Rightarrow> ByteBuffer" where
  "reason_body a b reason = write_varint [] a @ write_varint [] b @ write_string reason"

lemma reason_body_eq:
  "write_varint (write_varint (write_varint [] a) b) (word_of_nat (length reason)) @ bytes_of_string reason
     = reason_body a b reason"
  by (simp add: reason_body_def write_string_def write_varint_snoc [of "write_varint _ _"] write_varint_snoc [of "_ @ _"])

lemmas reason_body_reads = varint_format.rd_wr string_format.rd_wr string_format.rd_end

interpretation request_error_codec: message_codec kMessageRequestError
  "\<lambda>(code, reason, retry). encode_request_error code reason retry"
  "\<lambda>(code, reason, retry). Inr (reason_body code retry reason)" decode_request_error
  "\<lambda>(code, reason, retry). \<lparr>re_code = code, re_retry_interval = retry, re_reason = reason\<rparr>"
  "\<lambda>(code, reason, retry). length reason \<le> 1024"
proof (unfold_locales, goal_cases)
  case (1 x)
  show ?case by (cases x) (simp add: encode_request_error_def reason_body_eq)
next
  case (2 x p)
  obtain code reason retry where x: "x = (code, reason, retry)" by (cases x)
  with 2 show ?case
    by (auto simp: decode_request_error_def decode_def standing_start parse_request_error_def reason_body_def
        reason_body_reads)
qed

interpretation publish_done_codec: message_codec kMessagePublishDone
  "\<lambda>(code, count, reason). encode_publish_done code count reason"
  "\<lambda>(code, count, reason). Inr (reason_body code count reason)" decode_publish_done
  "\<lambda>(code, count, reason). \<lparr>pd_status_code = code, pd_stream_count = count, pd_reason = reason\<rparr>"
  "\<lambda>(code, count, reason). length reason \<le> 1024"
proof (unfold_locales, goal_cases)
  case (1 x)
  show ?case by (cases x) (simp add: encode_publish_done_def reason_body_eq)
next
  case (2 x p)
  obtain code count reason where x: "x = (code, count, reason)" by (cases x)
  with 2 show ?case
    by (auto simp: decode_publish_done_def decode_def standing_start parse_publish_done_def reason_body_def
        reason_body_reads)
qed

section \<open>SETUP\<close>

fun setup_bytes :: "u64 \<Rightarrow> (SetupOption \<times> string) list \<Rightarrow> ByteBuffer" where
  "setup_bytes previous [] = []"
| "setup_bytes previous ((option, text) # options) =
     (if text = [] then setup_bytes previous options
      else write_varint [] (setup_option_type option - previous) @ write_string text
             @ setup_bytes (setup_option_type option) options)"

lemma encode_setup_loop_eq: "encode_setup_loop payload previous opts = payload @ setup_bytes previous opts"
  by (induction payload previous opts rule: encode_setup_loop.induct)
    (auto simp: write_string_def write_varint_snoc [of "write_varint _ _"] write_varint_snoc [of "_ @ _"]
      write_varint_eq)

lemma decode_setup_loop_end: "decode_setup_loop type (standing pre []) = Inr ((), standing pre [])"
  by (subst decode_setup_loop.simps) simp

lemma write_varint_not_Nil [simp]: "write_varint [] v \<noteq> []"
  by (simp add: write_varint_eq)

text \<open>Text options have odd types, so the reader takes each for a string.\<close>

lemma decode_setup_loop_text:
  assumes "type \<le> t" "t AND 1 \<noteq> 0" "length text \<le> 65535"
  shows "decode_setup_loop type (standing pre (write_varint [] (t - type) @ write_string text @ rest))
    = decode_setup_loop t (standing ((pre @ write_varint [] (t - type)) @ write_string text) rest)"
proof -
  have "length text \<le> 65535 \<and> length text < 2 ^ 64" using assms(3) by simp
  then have "Reader_string 65535 (standing (pre @ write_varint [] (t - type)) (write_string text @ rest))
      = Inr (text, standing ((pre @ write_varint [] (t - type)) @ write_string text) rest)"
    by (rule string_format.rd_wr)
  then show ?thesis
    using assms u64_diff_le_max_minus [OF assms(1)]
    by (subst decode_setup_loop.simps) (simp add: varint_format.rd_wr)
qed

lemma setup_type_odd [simp]: "setup_option_type opt AND 1 \<noteq> 0"
  by (cases opt) simp_all

text \<open>The options in ascending order of type, as \<open>encode_setup\<close> lists them.\<close>

fun options_ascend :: "u64 \<Rightarrow> (SetupOption \<times> string) list \<Rightarrow> bool" where
  "options_ascend previous [] = True"
| "options_ascend previous ((option, text) # options) =
     (previous \<le> setup_option_type option \<and> length text \<le> 65535
      \<and> options_ascend (setup_option_type option) options)"

lemma options_ascend_mono: "options_ascend b opts \<Longrightarrow> a \<le> b \<Longrightarrow> options_ascend a opts"
  by (cases opts) auto

lemma decode_setup_loop_written:
  "options_ascend previous opts \<Longrightarrow>
     decode_setup_loop previous (standing pre (setup_bytes previous opts))
       = Inr ((), standing (pre @ setup_bytes previous opts) [])"
proof (induction opts arbitrary: previous pre)
  case Nil
  then show ?case by (simp add: decode_setup_loop_end)
next
  case (Cons a opts)
  obtain opt str where a: "a = (opt, str)" by (cases a)
  show ?case
  proof (cases "str = []")
    case True
    with Cons a show ?thesis using options_ascend_mono by fastforce
  next
    case False
    with Cons a show ?thesis by (simp add: decode_setup_loop_text)
  qed
qed

lemma decode_setup_bytes:
  assumes "length authority \<le> 65535" "length path \<le> 65535"
  shows "decode_setup (setup_bytes 0 [(Path, path), (Authority, authority), (MoqtImplementation, ''kota-moqtopus'')]) = Inr ()"
  using assms decode_setup_loop_written
    [of 0 "[(Path, path), (Authority, authority), (MoqtImplementation, ''kota-moqtopus'')]" "[]"]
  by (simp add: decode_setup_def decode_def standing_start)

section \<open>Decoded subscription options\<close>

text \<open>What the validation of \<open>decode_subscription_options\<close> guarantees to the send plane.\<close>

definition options_valid :: "SubscriptionOptions \<Rightarrow> bool" where
  "options_valid opts =
     ((case so_forward opts of None \<Rightarrow> True | Some f \<Rightarrow> f \<le> 1)
      \<and> (case so_filter opts of None \<Rightarrow> True
         | Some f \<Rightarrow> sf_filter_type f \<in> {kFilterNextGroupStart, kFilterLargestObject, kFilterAbsoluteStart, kFilterAbsoluteRange}
             \<and> unat (loc_group (sf_start f)) + unat (sf_end_group_delta f) < 2 ^ 64))"

lemma filter_type_range: "1 \<le> t \<Longrightarrow> t \<le> 4 \<Longrightarrow> t \<in> {1, 2, 3, 4 :: u64}"
  by (simp add: word_le_nat_alt word_unat_eq_iff) linarith

lemma parse_filter_valid:
  assumes "parse_filter c = Inr (f, c')"
  shows "sf_filter_type f \<in> {1, 2, 3, 4} \<and> unat (loc_group (sf_start f)) + unat (sf_end_group_delta f) < 2 ^ 64"
proof -
  from assms have "1 \<le> sf_filter_type f" "sf_filter_type f \<le> 4"
    "sf_end_group_delta f \<le> u64_max - loc_group (sf_start f)"
    by (auto simp: parse_filter_def rbind_eq_Inr)
  moreover from this(3) have "unat (loc_group (sf_start f)) + unat (sf_end_group_delta f) < 2 ^ 64"
    by (simp only: u64_max_add add.commute)
  ultimately show ?thesis using filter_type_range by simp
qed

lemma parse_option_valid:
  assumes "options_valid opts" "parse_option p opts c = Inr (opts', c')"
  shows "options_valid opts'"
proof (cases "par_type p = kParameterSubscriptionFilter")
  case True
  with assms(2) obtain f c1 where "parse_filter c = Inr (f, c1)" "opts' = opts\<lparr>so_filter := Some f\<rparr>"
    by (auto simp: parse_option_def rbind_eq_Inr)
  with parse_filter_valid [OF this(1)] assms(1) show ?thesis by (auto simp: options_valid_def)
next
  case False
  with assms show ?thesis
    by (auto simp: parse_option_def rbind_eq_Inr options_valid_def split: if_splits option.splits)
qed

lemma decode_options_valid:
  "decode_subscription_options ps opts = Inr opts' \<Longrightarrow> options_valid opts \<Longrightarrow> options_valid opts'"
  by (induction ps arbitrary: opts)
    (auto simp: decode_def split: sum.splits if_splits dest: parse_option_valid)

lemma no_options_valid [simp]: "options_valid no_options"
  by (simp add: options_valid_def no_options_def)

section \<open>Properties\<close>

text \<open>
  C37: a SUBSCRIBE that \<open>encode_subscribe\<close> produced is taken off the stream as one
  message, decodes to the request that was encoded, with its parameters in ascending order of
  type, and leaves the bytes behind it untouched.
\<close>

theorem subscribe_roundtrip:
  assumes "encode_subscribe rid req = Inr frame" "length (sr_name req) \<le> 4096"
    and "\<forall>p \<in> set (sr_parameters req). wf_parameter p"
  shows "cmr_status (read_control_message (frame @ rest) 0) = Done
    \<and> cm_type (cmr_message (read_control_message (frame @ rest) 0)) = kMessageSubscribe
    \<and> decode_subscribe (cm_payload (cmr_message (read_control_message (frame @ rest) 0))) =
        Inr \<lparr>sub_request_id = rid, sub_namespace = sr_namespace req, sub_name = sr_name req,
             sub_parameters = sort_key par_type (sr_parameters req)\<rparr>
    \<and> drop (cmr_bytes (read_control_message (frame @ rest) 0)) (frame @ rest) = rest"
  using subscribe_codec.received [of "(rid, req)" frame rest] assms by simp

definition sample_request :: SubscribeRequest where
  "sample_request = \<lparr>sr_namespace = [''a'', ''b''], sr_name = ''c'', sr_parameters = [Parameter_uint8 0x10 0]\<rparr>"

theorem subscribe_roundtrip_witness:
  "encode_subscribe 4 sample_request = Inr [3, 0, 11, 4, 2, 1, 97, 1, 98, 1, 99, 1, 16, 0]
   \<and> decode_subscribe (cm_payload (cmr_message (read_control_message
        ([3, 0, 11, 4, 2, 1, 97, 1, 98, 1, 99, 1, 16, 0] @ [9]) 0))) =
        Inr \<lparr>sub_request_id = 4, sub_namespace = [''a'', ''b''], sub_name = ''c'',
             sub_parameters = [Parameter_uint8 0x10 0]\<rparr>"
proof -
  have e: "encode_subscribe 4 sample_request = Inr [3, 0, 11, 4, 2, 1, 97, 1, 98, 1, 99, 1, 16, 0]"
    by code_simp
  have n: "length (sr_name sample_request) \<le> 4096" by code_simp
  have w: "\<forall>p \<in> set (sr_parameters sample_request). wf_parameter p"
    by (simp add: sample_request_def wf_Parameter_uint8 parameter_encoding_def)
  show ?thesis using subscribe_roundtrip [OF e n w, of "[9]"] e by (simp add: sample_request_def)
qed

text \<open>
  C38: the same for SUBSCRIBE_OK, with the Track Alias and the opaque track properties.
\<close>

theorem subscribe_ok_roundtrip:
  assumes "encode_subscribe_ok talias ps props = Inr frame" "\<forall>p \<in> set ps. wf_parameter p"
  shows "cmr_status (read_control_message (frame @ rest) 0) = Done
    \<and> cm_type (cmr_message (read_control_message (frame @ rest) 0)) = kMessageSubscribeOk
    \<and> decode_subscribe_ok (cm_payload (cmr_message (read_control_message (frame @ rest) 0))) =
        Inr \<lparr>ok_track_alias = talias, ok_parameters = sort_key par_type ps, ok_properties = props\<rparr>
    \<and> drop (cmr_bytes (read_control_message (frame @ rest) 0)) (frame @ rest) = rest"
  using subscribe_ok_codec.received [of "(talias, ps, props)" frame rest] assms by simp

theorem subscribe_ok_roundtrip_witness:
  "encode_subscribe_ok 5 [] [1, 2] = Inr [4, 0, 4, 5, 0, 1, 2]
   \<and> decode_subscribe_ok (cm_payload (cmr_message (read_control_message ([4, 0, 4, 5, 0, 1, 2] @ []) 0))) =
        Inr \<lparr>ok_track_alias = 5, ok_parameters = [], ok_properties = [1, 2]\<rparr>"
proof -
  have e: "encode_subscribe_ok 5 [] [1, 2] = Inr [4, 0, 4, 5, 0, 1, 2]" by code_simp
  show ?thesis using subscribe_ok_roundtrip [OF e, of "[]"] e by simp
qed

text \<open>
  The same for REQUEST_UPDATE and the parameters of a subscription update.
\<close>

theorem request_update_roundtrip:
  assumes "encode_request_update rid ps = Inr frame" "\<forall>p \<in> set ps. wf_parameter p"
  shows "cmr_status (read_control_message (frame @ rest) 0) = Done
    \<and> cm_type (cmr_message (read_control_message (frame @ rest) 0)) = kMessageRequestUpdate
    \<and> decode_request_update (cm_payload (cmr_message (read_control_message (frame @ rest) 0))) =
        Inr \<lparr>rum_request_id = rid, rum_parameters = sort_key par_type ps\<rparr>
    \<and> drop (cmr_bytes (read_control_message (frame @ rest) 0)) (frame @ rest) = rest"
  using request_update_codec.received [of "(rid, ps)" frame rest] assms by simp

theorem request_update_roundtrip_witness:
  "encode_request_update 2 [] = Inr [2, 0, 2, 2, 0]
   \<and> decode_request_update (cm_payload (cmr_message (read_control_message ([2, 0, 2, 2, 0] @ []) 0))) =
        Inr \<lparr>rum_request_id = 2, rum_parameters = []\<rparr>"
proof -
  have e: "encode_request_update 2 [] = Inr [2, 0, 2, 2, 0]" by code_simp
  show ?thesis using request_update_roundtrip [OF e, of "[]"] e by simp
qed

text \<open>
  C39: the same for PUBLISH_DONE, for every reason the decoder admits (1024 bytes).
\<close>

theorem publish_done_roundtrip:
  assumes "encode_publish_done code count reason = Inr frame" "length reason \<le> 1024"
  shows "cmr_status (read_control_message (frame @ rest) 0) = Done
    \<and> cm_type (cmr_message (read_control_message (frame @ rest) 0)) = kMessagePublishDone
    \<and> decode_publish_done (cm_payload (cmr_message (read_control_message (frame @ rest) 0))) =
        Inr \<lparr>pd_status_code = code, pd_stream_count = count, pd_reason = reason\<rparr>
    \<and> drop (cmr_bytes (read_control_message (frame @ rest) 0)) (frame @ rest) = rest"
  using publish_done_codec.received [of "(code, count, reason)" frame rest] assms by simp

theorem publish_done_roundtrip_witness:
  "encode_publish_done 1 2 ''x'' = Inr [11, 0, 4, 1, 2, 1, 120]
   \<and> decode_publish_done (cm_payload (cmr_message (read_control_message ([11, 0, 4, 1, 2, 1, 120] @ []) 0))) =
        Inr \<lparr>pd_status_code = 1, pd_stream_count = 2, pd_reason = ''x''\<rparr>"
proof -
  have e: "encode_publish_done 1 2 ''x'' = Inr [11, 0, 4, 1, 2, 1, 120]" by code_simp
  show ?thesis using publish_done_roundtrip [OF e, of "[]"] e by simp
qed

text \<open>
  C40: the SETUP a client sends passes the peer's \<open>decode_setup\<close>, whatever the
  authority and path (empty ones are left out), as long as each fits the decoder's limit.
\<close>

theorem setup_accepted:
  assumes "encode_setup authority path = Inr frame"
  shows "cmr_status (read_control_message (frame @ rest) 0) = Done
    \<and> cm_type (cmr_message (read_control_message (frame @ rest) 0)) = kMessageSetup
    \<and> decode_setup (cm_payload (cmr_message (read_control_message (frame @ rest) 0))) = Inr ()"
proof -
  let ?opts = "[(Path, path), (Authority, authority), (MoqtImplementation, ''kota-moqtopus'')]"
  from assms have e: "encode_control_message kMessageSetup (setup_bytes 0 ?opts) = Inr frame"
    by (simp add: encode_setup_def encode_setup_loop_eq)
  then have "length (setup_bytes 0 ?opts) \<le> 65535"
    by (simp add: encode_control_message_eq split: if_splits)
  then have "length authority \<le> 65535" "length path \<le> 65535"
    by (auto simp: write_string_def split: if_splits)
  then have "decode_setup (setup_bytes 0 ?opts) = Inr ()" by (rule decode_setup_bytes)
  with read_encoded_message [OF e, of "[]" rest] show ?thesis by simp
qed

theorem setup_accepted_witness:
  "\<exists>frame. encode_setup ''relay'' ''/'' = Inr frame
     \<and> decode_setup (cm_payload (cmr_message (read_control_message (frame @ []) 0))) = Inr ()"
proof -
  have "\<not> isl (encode_setup ''relay'' ''/'')" by code_simp
  then obtain frame where e: "encode_setup ''relay'' ''/'' = Inr frame"
    by (cases "encode_setup ''relay'' ''/''") auto
  show ?thesis using setup_accepted [OF e, of "[]"] e by blast
qed

text \<open>
  Subscription options that pass validation carry a Forward flag of 0 or 1, a known
  filter type, and an end group that does not wrap around: the facts the send plane relies on
  when it resolves the filter.
\<close>

lemma subscription_options_valid:
  assumes "decode_subscription_options ps no_options = Inr opts"
  shows "options_valid opts"
  using decode_options_valid [OF assms] by simp

text \<open>
  The encoder of message parameters accepts a list exactly when its types are known and
  pairwise different, and then writes them in ascending order; everything else is refused with an
  exception before a byte is sent.
\<close>

lemma encode_parameters_accepts:
  "encode_parameters payload ps =
     (if distinct (map par_type ps) \<and> list_all (\<lambda>p. parameter_encoding (par_type p) \<noteq> None) ps
      then Inr (payload @ write_varint [] (word_of_nat (length ps)) @ parameter_bytes 0 (sort_key par_type ps))
      else Inl (invalid_argument ''unsupported or duplicate message parameter''))"
  by (simp add: encode_parameters_eq parameters_ok_def list_all_iff)

end
