(* ===== verification/Deviations.thy ===== *)
theory Deviations
  imports Control_Roundtrip Publisher_Properties Subscriber_Properties
begin

text \<open>
  Where the code does not do what it means to: concrete runs and exact conditions. Each lemma is the evidence
  of one defect; the theorems of the other theories hold beside them, under the conditions they state.
\<close>

section \<open>Encoders without the limits of the decoders\<close>

lemma long_string_refused:
  assumes "limit < length s" "length s < 2 ^ 64"
  shows "Reader_string limit (standing pre (write_string s @ rest)) = Inl ''string exceeds length limit''"
  using assms by (simp add: write_string_def Reader_string_def varint_format.rd_wr rbind_def require_def unat_of_nat_u64)

text \<open>A reason of more than 1024 bytes is encoded and then refused by the decoder.\<close>

lemma long_reason_not_decodable:
  assumes "1024 < length reason" "encode_publish_done code count reason = Inr frame"
  shows "decode_publish_done (cm_payload (cmr_message (read_control_message (frame @ rest) 0))) = Inl ''string exceeds length limit''"
proof -
  let ?body = "reason_body code count reason"
  have e: "encode_control_message kMessagePublishDone ?body = Inr frame"
    using assms(2) by (simp add: encode_publish_done_def reason_body_eq)
  then have "length ?body \<le> 65535" by (simp add: encode_control_message_def split: if_splits)
  then have small: "length reason < 2 ^ 64" by (simp add: reason_body_def write_string_def)
  have "parse_publish_done (standing [] ?body) = Inl ''string exceeds length limit''"
    using long_string_refused [OF assms(1) small, of _ "[]"]
    by (simp add: parse_publish_done_def reason_body_def varint_format.rd_wr rbind_def)
  with read_encoded_message [OF e, of "[]" rest] show ?thesis
    by (simp add: decode_publish_done_def decode_def standing_start)
qed

lemma long_reason_encodable:
  assumes "length reason \<le> 65000"
  shows "\<exists>frame. encode_publish_done code count reason = Inr frame"
proof -
  have "varint_size code + varint_size count + varint_size (word_of_nat (length reason)) \<le> 27"
    using varint_size_bounds(2) [of code] varint_size_bounds(2) [of count] varint_size_bounds(2) [of "word_of_nat (length reason)"] by linarith
  then show ?thesis using assms by (simp add: encode_publish_done_def encode_control_message_def)
qed

section \<open>The end of a group at the largest Object ID\<close>

text \<open>The marker follows the last object with a delta of 0; after the largest Object ID its receiver reports an overflow.\<close>

lemma marker_overflows:
  "parse_object_fields True (Some u64_max) 7 \<lparr>cur_bytes = encode_subgroup_object [] 0 [] (Some kObjectStatusEndOfGroup) [], cur_offset = 0\<rparr> =
     Some (Inl ''subgroup Object ID delta overflow'')"
  by code_simp

section \<open>A second final object of a group\<close>

text \<open>After the final Object ID 1 of group 0, a datagram with the end-of-group bit and Object ID 2 is delivered.\<close>

definition group_ended :: subscriber where
  "group_ended = demo_established\<lparr>dp_heap := [0 \<mapsto> \<lparr>rr_request_id = 0, rr_active = True, rr_final_object_in_group = [0 \<mapsto> 1],
     rr_final_object_in_track = None\<rparr>]\<rparr>"

lemma final_datagram:
  "encode_object_datagram 5 0 2 128 [] None [7] True = [2, 5, 0, 2, 128, 7]"
  "cursor_varint \<lparr>cur_bytes = [2, 5, 0, 2, 128, 7], cur_offset = 0\<rparr> = Some (2, \<lparr>cur_bytes = [2, 5, 0, 2, 128, 7], cur_offset = Suc 0\<rparr>)"
  "invalid_datagram_type 2 = False"
  "datagram_ids 2 \<lparr>cur_bytes = [2, 5, 0, 2, 128, 7], cur_offset = Suc 0\<rparr> =
     Inr ((5, 0, 2), \<lparr>cur_bytes = [2, 5, 0, 2, 128, 7], cur_offset = 4\<rparr>)"
  "datagram_body 2 \<lparr>cur_bytes = [2, 5, 0, 2, 128, 7], cur_offset = 4\<rparr> =
     Inr ((128, [], None, [7]), \<lparr>cur_bytes = [2, 5, 0, 2, 128, 7], cur_offset = 5\<rparr>)"
  by code_simp+

lemma second_final_object_delivered:
  "tp_log (subscriber_step (SubConnection (DatagramReceived [2, 5, 0, 2, 128, 7])) group_ended) =
     tp_log group_ended @ [OnObject (demo_object\<lparr>obj_object_id := 2\<rparr>)]"
  by (simp add: connection_callback_def sub_callbacks_def on_datagram_def deliver_datagram_def final_datagram find_route_def
      route_request_def datagram_object_def deliver_def follows_final_in_group_def follows_final_in_track_def set_final_in_group_def
      callbacks_def on_object_def update_route_def note_final_def emit_def demo_object_def demo_app_def Let_def
      group_ended_def demo_established_def demo_pending_def demo_ready_def demo_defs)

section \<open>Ending a subscription with a reason that cannot be encoded\<close>

text \<open>\<open>finish\<close> throws, the send plane has dropped the subscription, and the publisher still counts it.\<close>

lemma long_reason_detaches:
  fixes w :: "'a publisher_scheme"
  assumes rq: "pb_requests w i = Some rq" "\<not> pq_terminated rq" and long: "65535 < length reason"
  shows "fst (finish i code reason w) = Some (length_error ''MOQT control message payload exceeds 65535 bytes'')"
    "sp_subscriptions (snd (finish i code reason w)) i = None"
    "pb_subscriptions (snd (finish i code reason w)) = pb_subscriptions w" "\<not> pub_terminated i (snd (finish i code reason w))"
proof -
  have e: "encode_publish_done code count reason = Inl (length_error ''MOQT control message payload exceeds 65535 bytes'')" for count
    using long by (simp add: encode_publish_done_def encode_control_message_def)
  have d: "finish i code reason w = (Some (length_error ''MOQT control message payload exceeds 65535 bytes''), snd (detach_subscription i None w))"
    using rq e by (simp add: finish_def split: prod.split)
  show "fst (finish i code reason w) = Some (length_error ''MOQT control message payload exceeds 65535 bytes'')" by (simp add: d)
  show "sp_subscriptions (snd (finish i code reason w)) i = None"
    by (simp add: d detach_subscriptions)
  show "pb_subscriptions (snd (finish i code reason w)) = pb_subscriptions w" "\<not> pub_terminated i (snd (finish i code reason w))"
    using rq by (simp_all add: d pub_terminated_def detach_frame)
qed

section \<open>Stopping a subscription while buffered data is replayed\<close>

definition replay_start :: subscriber where
  "replay_start = demo_pending\<lparr>sb_app := (\<lambda>ob. [CallStop 0]), dp_unknown_datagrams := [5 \<mapsto> [[0, 5, 0, 1, 128, 7], [0, 5, 0, 2, 128, 7]]],
     dp_buffered_datagram_bytes := 12\<rparr>"

lemma replay_datagram:
  "cursor_varint \<lparr>cur_bytes = [0, 5, 0, 2, 128, 7], cur_offset = 0\<rparr> = Some (0, \<lparr>cur_bytes = [0, 5, 0, 2, 128, 7], cur_offset = Suc 0\<rparr>)"
  "datagram_ids 0 \<lparr>cur_bytes = [0, 5, 0, 2, 128, 7], cur_offset = Suc 0\<rparr> =
     Inr ((5, 0, 2), \<lparr>cur_bytes = [0, 5, 0, 2, 128, 7], cur_offset = 4\<rparr>)"
  "datagram_body 0 \<lparr>cur_bytes = [0, 5, 0, 2, 128, 7], cur_offset = 4\<rparr> =
     Inr ((128, [], None, [7]), \<lparr>cur_bytes = [0, 5, 0, 2, 128, 7], cur_offset = 5\<rparr>)"
  by code_simp+

text \<open>The application stops the subscription in its first \<open>on_object\<close> and is still given the second object.\<close>

lemma stop_during_replay:
  "tp_log (subscriber_step (SubStream 2 (Receive [[4, 0, 2, 5, 0]] False)) replay_start) = tp_log replay_start @
     [OnObject demo_object, AbortedSend 2 1, AbortedReceive 2 1, OnObject (demo_object\<lparr>obj_object_id := 2\<rparr>)]"
  by (simp add: demo_response_defs control_loop_step control_loop_stop replay_start_def demo_pending_def demo_ready_def
      demo_defs deliver_datagram_def demo_datagram replay_datagram find_route_def
      route_request_def datagram_object_def deliver_def follows_final_in_group_def follows_final_in_track_def
      callbacks_def on_object_def update_route_def note_final_def emit_def demo_object_def
      stop_subscription_def stop_subscription_now_def terminate_def fail_updates_def Session.fail_def retire_route_def
      abort_send_def abort_receive_def has_handle_def
       cong: option.case_cong)

end
