(* ===== verification/Spec2Isabelle.thy ===== *)
theory Spec2Isabelle
  imports Publisher_Errors Snapshots Connect Pending_Sends Example_Programs Tool_Properties Deviations
begin

text \<open>
  Moqtopus is a C++ client library for Media over QUIC Transport (draft 18) on top of MsQuic: a
  publisher that announces tracks and sends objects to the relay's subscriptions, a subscriber that
  requests tracks and hands the received objects to the application, and the session, the wire
  codec and the transport adapter they share. This development models the library, the parsing and
  control logic of its tool and examples, and proves what makes them correct.

  \<^bold>\<open>The program and its theories.\<close> File names are those under \<^verbatim>\<open>src/\<close>.

  \<^item> Wire codec, \<^verbatim>\<open>src/codec/codec.cpp\<close>, \<^verbatim>\<open>control.cpp\<close>,
    \<^verbatim>\<open>codec_internal.h\<close>: \<open>Codec_Varint\<close> (integers), \<open>Codec_Reader\<close> (the cursor
    and \<open>Reader\<close>), \<open>Codec_Parameters\<close>, \<open>Codec_Control\<close> (every control message),
    \<open>Codec_Objects\<close> (datagrams and subgroup streams). A reader is a function on a cursor that gives an
    exception or a value and the cursor after it; a writer appends to its buffer.
  \<^item> Transport, \<^verbatim>\<open>src/stream_context.cpp\<close>, \<^verbatim>\<open>src/msquic_transport_adapter.cpp\<close>:
    \<open>Transport\<close> (calls, with the log of everything asked of MsQuic or of the application),
    \<open>Adapter\<close> (events of streams and of the connection), \<open>Adapter_Lifetime\<close> (constructor,
    \<open>start\<close>, destructor), \<open>Pending_Sends\<close> (the buffers MsQuic holds until a send is complete).
  \<^item> Session, \<^verbatim>\<open>src/session.cpp\<close>: \<open>Session\<close> (phases, SETUP exchange, closing,
    Request IDs, promises, the gate that classifies the streams of the peer), \<open>Snapshots\<close>,
    \<open>Connect\<close> (\<open>Session::start\<close>, \<open>connect\<close> and the destructors of both roles).
  \<^item> Receive data plane, \<^verbatim>\<open>src/data_plane.cpp\<close>: \<open>Stream_Parser\<close> (the fields of a
    subgroup stream), \<open>Data_Plane\<close> (routes, datagrams, buffering and parking of early data, the
    receiver of a subgroup stream).
  \<^item> Subscriber, \<^verbatim>\<open>src/subscriber_session.cpp\<close>: \<open>Subscriber\<close>.
  \<^item> Send data plane, \<^verbatim>\<open>src/send_data_plane.cpp\<close>: \<open>Send_Plane\<close> (tracks, filters,
    subscriptions, open subgroup streams, what is sent for an object).
  \<^item> Publisher, \<^verbatim>\<open>src/publisher_session.cpp\<close>: \<open>Publisher\<close> (announcements,
    requests of the peer, updates, completion and cancellation).
  \<^item> Interop tool and examples, \<^verbatim>\<open>tools/\<close>, \<^verbatim>\<open>example/\<close>: \<open>Arguments\<close>,
    \<open>Interop_Client\<close>, \<open>Examples\<close>, \<open>Example_Programs\<close>.

  The state of a session is one record, extended from component to component: \<open>transport\<close>,
  \<open>session\<close>, \<open>plane\<close> and \<open>subscriber\<close> on the one side, \<open>sender\<close> and
  \<open>publisher\<close> on the other. Its virtual functions are the record \<open>role\<close>, its callbacks
  records of functions, so that the calls between components are calls between definitions. The
  events of MsQuic and the calls of the application are the constructors of
  \<open>subscriber_event\<close> and \<open>publisher_event\<close>; \<open>subscriber_step\<close> and
  \<open>publisher_step\<close> are the transition functions, \<open>sub_reachable\<close> and
  \<open>pub_reachable\<close> the reachable states, over every order of events, every peer and every answer of MsQuic. The
  application of a publisher is arbitrary; that of a subscriber is one whose SUBSCRIBE requests can be encoded (\<open>encodable\<close>):
  the theorem \<open>unencodable_subscribe_leaks\<close> says what any other request leads to.

  \<^bold>\<open>What the lemmas show.\<close>

  \<^item> \<open>Codec_Reader\<close>, \<open>Codec_Parameters\<close>: the locale \<open>wire_format\<close> (what is
    written is read back, whatever follows), interpreted for integers, bytes, strings, namespaces and parameters.
    \<open>Control_Frames\<close>: the locale \<open>receive_loop\<close> (a loop over complete messages ends and
    does not depend on how the bytes are cut into chunks), interpreted for control streams and, in
    \<open>Subgroup_Stream\<close>, for the receiver. \<open>Control_Roundtrip\<close>: the locale \<open>message_codec\<close>,
    interpreted for each control message. \<open>Object_Roundtrip\<close>: datagrams and subgroup streams.
  \<^item> \<open>Session_Ages\<close>: what no event takes back (\<open>ages\<close>), with the locales
    \<open>session_closing\<close> and \<open>session_role\<close>, interpreted for both roles.
  \<^item> \<open>Data_Plane_Inv\<close>, \<open>Plane_Lifting\<close>: the invariant of the receive plane and the
    locales \<open>plane_client\<close> and \<open>plane_lifting\<close>, by which a property the callbacks keep is
    kept by the plane. \<open>Subscriber_Plane\<close>, \<open>Subscriber_Inv\<close>, \<open>Subscriber_Calls\<close>,
    \<open>Subscriber_Reach\<close>, \<open>Subscriber_Safety\<close>, \<open>Subscriber_Bounds\<close> interpret them and
    prove the invariant of the subscriber, that promises have one owner, and the bounds on buffers.
    \<open>Subscriber_Properties\<close> and \<open>Object_Properties\<close> state the properties.
  \<^item> \<open>Publisher_Lifting\<close>, \<open>Publisher_Events\<close>: the locales \<open>ordered_map\<close>,
    \<open>publisher_lifting\<close> and \<open>publisher_events\<close>, by which a property kept by the elementary
    changes is kept by every event; \<open>Publisher_Inv\<close> interprets them with the invariant of the publisher.
    \<open>Publisher_Properties\<close>, \<open>Publish_Stream\<close> and \<open>Publisher_Errors\<close> state the properties.
  \<^item> \<open>End_To_End\<close>: the publisher and the subscriber together, through both planes and the codec.
    \<open>Examples\<close> applies it to the example programs; \<open>Example_Programs\<close>: when the example
    subscriber ends and what it reports. \<open>Tool_Properties\<close>: command lines, and the
    verdict and exit code of the interop client.
  \<^item> \<open>Adapter_Lifetime\<close>, \<open>Connect\<close>: the handles an adapter opens are closed once and in the reverse
    order, also when \<open>connect\<close> fails; its streams are closed once, or twice when \<open>StreamClose\<close> runs the callback of the
    stream inline. The locale \<open>quiet_sinks\<close> is what the destructor relies on, interpreted for the sinks of both roles. \<open>Pending_Sends\<close>: every buffer of a send has one owner and is
    deleted once; the functions with the heap refine those of \<open>Transport\<close> for buffers below \<open>2 ^ 32\<close> bytes.
  \<^item> \<open>Deviations\<close>: runs and conditions under which the code does not do what it means to.
  \<^item> \<open>Subscriber_Demo\<close> and \<open>Publisher_Demo\<close>: runs of a subscriber and a publisher on
    concrete bytes, from which the witnesses are taken.

  \<^bold>\<open>Numbers, loops and fuel.\<close> Protocol integers are 64-bit words and wrap around where the code lets them;
  a \<^verbatim>\<open>size_t\<close> that counts bytes in memory is a natural number. Every loop of the code is a
  terminating recursion: on the bytes left for the parsers and receive loops, on a copy of the table for the
  loops over subscriptions. There is no fuel in the model. The calls an application makes from
  inside \<open>on_object\<close> are a finite list per object, and none of them delivers an object itself.

  \<^bold>\<open>What is assumed of the environment.\<close> Member functions run under the session lock and are atomic.
  MsQuic answers each call as \<open>tp_answer\<close> says, with the text \<open>tp_status\<close>; both are
  arbitrary unless a theorem says otherwise. The tables that are hashed in the code are walked in the order of insertion.
  \<open>Pending_Sends\<close> assumes that
  \<^verbatim>\<open>new\<close> returns an address that is not in use and that a completion names a send MsQuic has accepted.
  The handlers \<open>on_error\<close> and \<open>on_publish_done\<close> do not call back. An exception nobody catches
  is the effect \<open>StdTerminate\<close>, a read of an erased subscription the effect \<open>DanglingRead\<close>:
  the safety theorems say when they are absent. \<^verbatim>\<open>unsigned long\<close> has 64 bits in \<^verbatim>\<open>std::stoul\<close>.

  \<^bold>\<open>Not modelled.\<close> Logging, signals, sleeping and clocks; threads of the application that race with the lock. MsQuic,
  \<^verbatim>\<open>getaddrinfo\<close>, and, for the interop client, what a relay does to the sessions of a test, are
  parameters of the definitions that use them.
\<close>

end
